theory Spec2Isabelle
  imports Complex_Main
begin

section \<open>Data model\<close>

text \<open>
  The module \<^verbatim>\<open>lib/pymafx/utils/geometry.py\<close> computes on batched float tensors.
  The embedding works in exact real arithmetic:
  \<^item> a 3-vector (one row of a \<open>(B,3)\<close> tensor) is a triple, a quaternion (one row of a
    \<open>(B,4)\<close> tensor) a 4-tuple \<open>(w, x, y, z)\<close>;
  \<^item> a matrix (one item of a \<open>(B,r,c)\<close> tensor) is the list of its rows;
  \<^item> a batch is the list of its items, and every batched function of the source is the
    \<open>map\<close> of the function on one item (the source has no dependency across items);
  \<^item> where IEEE arithmetic would leave the finite numbers (a division by zero, the
    square root of a negative number) the item's result is \<open>Inl NonFinite\<close>; where
    Python raises, it is \<open>Inl\<close> of that exception.
\<close>

type_synonym vec3 = "real \<times> real \<times> real"
type_synonym quat = "real \<times> real \<times> real \<times> real"
type_synonym matrix = "real list list"

datatype error = NonFinite | IndexError | TypeError | ValueError | RuntimeError | LinAlgError

definition ent :: "matrix \<Rightarrow> nat \<Rightarrow> nat \<Rightarrow> real" where
  "ent M i j = M ! i ! j"

definition has_shape :: "nat \<Rightarrow> nat \<Rightarrow> matrix \<Rightarrow> bool" where
  "has_shape r c M = (length M = r \<and> list_all (\<lambda>row. length row = c) M)"

definition eye3 :: matrix where
  "eye3 = [[1, 0, 0], [0, 1, 0], [0, 0, 1]]"

definition norm3 :: "vec3 \<Rightarrow> real" where
  "norm3 v = (case v of (x, y, z) \<Rightarrow> sqrt (x\<^sup>2 + y\<^sup>2 + z\<^sup>2))"

definition norm4 :: "quat \<Rightarrow> real" where
  "norm4 q = (case q of (w, x, y, z) \<Rightarrow> sqrt (w\<^sup>2 + x\<^sup>2 + y\<^sup>2 + z\<^sup>2))"

definition qneg :: "quat \<Rightarrow> quat" where
  "qneg q = (case q of (w, x, y, z) \<Rightarrow> (- w, - x, - y, - z))"

definition qscale :: "real \<Rightarrow> quat \<Rightarrow> quat" where
  "qscale c q = (case q of (w, x, y, z) \<Rightarrow> (c * w, c * x, c * y, c * z))"

definition qdiv :: "quat \<Rightarrow> real \<Rightarrow> quat" where
  "qdiv q d = (case q of (w, x, y, z) \<Rightarrow> (w / d, x / d, y / d, z / d))"

definition qadd :: "quat \<Rightarrow> quat \<Rightarrow> quat" where
  "qadd p q = (case p of (a, b, c, d) \<Rightarrow> case q of (w, x, y, z) \<Rightarrow> (a + w, b + x, c + y, d + z))"

section \<open>Quaternion to rotation matrix\<close>

text \<open>
  \<^verbatim>\<open>quat_to_rotmat\<close>: the quaternion is divided by its 2-norm, then the nine entries
  are stacked row by row. A zero quaternion gives \<open>0/0\<close> in every component.
\<close>

definition quat_to_rotmat_item :: "quat \<Rightarrow> error + matrix" where
  "quat_to_rotmat_item quat =
     (let n = norm4 quat in
      if n = 0 then Inl NonFinite
      else
        case qdiv quat n of (w, x, y, z) \<Rightarrow>
          let w2 = w\<^sup>2; x2 = x\<^sup>2; y2 = y\<^sup>2; z2 = z\<^sup>2;
              wx = w * x; wy = w * y; wz = w * z;
              xy = x * y; xz = x * z; yz = y * z
          in Inr [[w2 + x2 - y2 - z2, 2 * xy - 2 * wz, 2 * wy + 2 * xz],
                  [2 * wz + 2 * xy, w2 - x2 + y2 - z2, 2 * yz - 2 * wx],
                  [2 * xz - 2 * wy, 2 * wx + 2 * yz, w2 - x2 - y2 + z2]])"

definition quat_to_rotmat :: "quat list \<Rightarrow> (error + matrix) list" where
  "quat_to_rotmat quat = map quat_to_rotmat_item quat"

text \<open>\<^verbatim>\<open>quaternion_to_rotation_matrix\<close>: a second function of the source, with its own body.\<close>

definition quaternion_to_rotation_matrix_item :: "quat \<Rightarrow> error + matrix" where
  "quaternion_to_rotation_matrix_item quat =
     (let n = norm4 quat in
      if n = 0 then Inl NonFinite
      else
        case qdiv quat n of (w, x, y, z) \<Rightarrow>
          let w2 = w\<^sup>2; x2 = x\<^sup>2; y2 = y\<^sup>2; z2 = z\<^sup>2;
              wx = w * x; wy = w * y; wz = w * z;
              xy = x * y; xz = x * z; yz = y * z
          in Inr [[w2 + x2 - y2 - z2, 2 * xy - 2 * wz, 2 * wy + 2 * xz],
                  [2 * wz + 2 * xy, w2 - x2 + y2 - z2, 2 * yz - 2 * wx],
                  [2 * xz - 2 * wy, 2 * wx + 2 * yz, w2 - x2 - y2 + z2]])"

definition quaternion_to_rotation_matrix :: "quat list \<Rightarrow> (error + matrix) list" where
  "quaternion_to_rotation_matrix quat = map quaternion_to_rotation_matrix_item quat"

section \<open>Rotation matrix to quaternion and to axis-angle\<close>

text \<open>
  \<^verbatim>\<open>torch.atan2\<close> is a library function; it is modelled (on finite reals) as the
  angle of the point \<open>(x, y)\<close> in \<open>(-\<pi>, \<pi>]\<close>, with \<open>atan2 0 0 = 0\<close>.
\<close>

definition atan2 :: "real \<Rightarrow> real \<Rightarrow> real" where
  "atan2 y x =
     (if 0 < x then arctan (y / x)
      else if x < 0 then (if 0 \<le> y then arctan (y / x) + pi else arctan (y / x) - pi)
      else if 0 < y then pi / 2
      else if y < 0 then - (pi / 2)
      else 0)"

text \<open>
  \<^verbatim>\<open>rotation_matrix_to_quaternion\<close> on one item of an \<open>(N,r,c)\<close> tensor. The source
  transposes the last two axes and reads the entries with both indices below 3, so it
  needs at least three rows and three columns (an index error otherwise). The four
  candidates are blended with the 0/1 masks, divided by the square root of the blended
  \<open>t\<close> and halved.
\<close>

definition rotation_matrix_to_quaternion_item :: "real \<Rightarrow> matrix \<Rightarrow> error + quat" where
  "rotation_matrix_to_quaternion_item eps rotation_matrix =
     (if length rotation_matrix < 3 then Inl IndexError
      else if list_ex (\<lambda>row. length row < 3) rotation_matrix then Inl IndexError
      else
        let rmat_t = (\<lambda>i j. ent rotation_matrix j i);
            mask_d2 = (rmat_t 2 2 < eps);
            mask_d0_d1 = (rmat_t 0 0 > rmat_t 1 1);
            mask_d0_nd1 = (rmat_t 0 0 < - rmat_t 1 1);
            t0 = 1 + rmat_t 0 0 - rmat_t 1 1 - rmat_t 2 2;
            q0 = (rmat_t 1 2 - rmat_t 2 1, t0, rmat_t 0 1 + rmat_t 1 0, rmat_t 2 0 + rmat_t 0 2);
            t1 = 1 - rmat_t 0 0 + rmat_t 1 1 - rmat_t 2 2;
            q1 = (rmat_t 2 0 - rmat_t 0 2, rmat_t 0 1 + rmat_t 1 0, t1, rmat_t 1 2 + rmat_t 2 1);
            t2 = 1 - rmat_t 0 0 - rmat_t 1 1 + rmat_t 2 2;
            q2 = (rmat_t 0 1 - rmat_t 1 0, rmat_t 2 0 + rmat_t 0 2, rmat_t 1 2 + rmat_t 2 1, t2);
            t3 = 1 + rmat_t 0 0 + rmat_t 1 1 + rmat_t 2 2;
            q3 = (t3, rmat_t 1 2 - rmat_t 2 1, rmat_t 2 0 - rmat_t 0 2, rmat_t 0 1 - rmat_t 1 0);
            mask_c0 = of_bool (mask_d2 \<and> mask_d0_d1);
            mask_c1 = of_bool (mask_d2 \<and> \<not> mask_d0_d1);
            mask_c2 = of_bool (\<not> mask_d2 \<and> mask_d0_nd1);
            mask_c3 = of_bool (\<not> mask_d2 \<and> \<not> mask_d0_nd1);
            q = qadd (qadd (qadd (qscale mask_c0 q0) (qscale mask_c1 q1)) (qscale mask_c2 q2))
                  (qscale mask_c3 q3);
            d = t0 * mask_c0 + t1 * mask_c1 + t2 * mask_c2 + t3 * mask_c3
        in if d \<le> 0 then Inl NonFinite
           else Inr (qscale (1 / 2) (qdiv q (sqrt d))))"

definition rotation_matrix_to_quaternion :: "matrix list \<Rightarrow> (error + quat) list" where
  "rotation_matrix_to_quaternion rotation_matrix =
     map (rotation_matrix_to_quaternion_item (1 / 10 ^ 6)) rotation_matrix"

text \<open>
  \<^verbatim>\<open>quaternion_to_angle_axis\<close> on one quaternion. \<^verbatim>\<open>torch.where\<close> selects \<open>k_neg = 2\<close>
  exactly where \<open>sin_theta\<close> would be a zero divisor.
\<close>

definition quaternion_to_angle_axis_item :: "quat \<Rightarrow> vec3" where
  "quaternion_to_angle_axis_item quaternion =
     (case quaternion of (q0, q1, q2, q3) \<Rightarrow>
        let sin_squared_theta = q1 * q1 + q2 * q2 + q3 * q3;
            sin_theta = sqrt sin_squared_theta;
            cos_theta = q0;
            two_theta = 2 * (if cos_theta < 0 then atan2 (- sin_theta) (- cos_theta)
                             else atan2 sin_theta cos_theta);
            k = (if sin_squared_theta > 0 then two_theta / sin_theta else 2)
        in (q1 * k, q2 * k, q3 * k))"

definition quaternion_to_angle_axis :: "quat list \<Rightarrow> vec3 list" where
  "quaternion_to_angle_axis quaternion = map quaternion_to_angle_axis_item quaternion"

text \<open>
  \<^verbatim>\<open>rotation_matrix_to_angle_axis\<close>: a 3x3 item gets the column \<open>hom = (0, 0, 1)\<close>
  appended (\<^verbatim>\<open>torch.cat\<close> along the last axis); any other shape goes through as it is.
  A quaternion that is not finite would give a NaN axis-angle vector, which the source
  overwrites with zeros.
\<close>

definition hom :: matrix where
  "hom = [[0], [0], [1]]"

definition cat_last :: "matrix \<Rightarrow> matrix \<Rightarrow> matrix" where
  "cat_last A B = map (\<lambda>(a, b). a @ b) (zip A B)"

definition pad_hom :: "matrix \<Rightarrow> matrix" where
  "pad_hom rotation_matrix =
     (if has_shape 3 3 rotation_matrix then cat_last rotation_matrix hom else rotation_matrix)"

definition rotation_matrix_to_angle_axis_item :: "matrix \<Rightarrow> error + vec3" where
  "rotation_matrix_to_angle_axis_item rotation_matrix =
     (case rotation_matrix_to_quaternion_item (1 / 10 ^ 6) (pad_hom rotation_matrix) of
        Inl NonFinite \<Rightarrow> Inr (0, 0, 0)
      | Inl e \<Rightarrow> Inl e
      | Inr quaternion \<Rightarrow> Inr (quaternion_to_angle_axis_item quaternion))"

definition rotation_matrix_to_angle_axis :: "matrix list \<Rightarrow> (error + vec3) list" where
  "rotation_matrix_to_angle_axis rotation_matrix =
     map rotation_matrix_to_angle_axis_item rotation_matrix"

section \<open>Axis-angle to rotation matrix\<close>

text \<open>
  \<^verbatim>\<open>batch_rodrigues\<close>: the constant \<open>1e-8\<close> is added to every component of \<open>theta\<close>
  before the 2-norm is taken; \<open>theta\<close> itself is divided by that norm. \<open>rodrigues_quat\<close>
  is the quaternion the source builds (\<^verbatim>\<open>quat\<close>) before it calls \<^verbatim>\<open>quat_to_rotmat\<close>.
\<close>

definition rodrigues_quat :: "vec3 \<Rightarrow> error + quat" where
  "rodrigues_quat theta =
     (case theta of (t0, t1, t2) \<Rightarrow>
        let l1norm = norm3 (t0 + 1 / 10 ^ 8, t1 + 1 / 10 ^ 8, t2 + 1 / 10 ^ 8);
            angle = l1norm
        in if angle = 0 then Inl NonFinite
           else
             let normalized = (t0 / angle, t1 / angle, t2 / angle);
                 angle2 = angle * (1 / 2);
                 v_cos = cos angle2;
                 v_sin = sin angle2
             in case normalized of (n0, n1, n2) \<Rightarrow>
                  Inr (v_cos, v_sin * n0, v_sin * n1, v_sin * n2))"

definition batch_rodrigues_item :: "vec3 \<Rightarrow> error + matrix" where
  "batch_rodrigues_item theta =
     (case rodrigues_quat theta of
        Inl e \<Rightarrow> Inl e
      | Inr quat \<Rightarrow> quat_to_rotmat_item quat)"

definition batch_rodrigues :: "vec3 list \<Rightarrow> (error + matrix) list" where
  "batch_rodrigues theta = map batch_rodrigues_item theta"

section \<open>The 6D representation\<close>

definition vscale :: "real \<Rightarrow> vec3 \<Rightarrow> vec3" where
  "vscale c v = (case v of (x, y, z) \<Rightarrow> (c * x, c * y, c * z))"

definition vdiv :: "vec3 \<Rightarrow> real \<Rightarrow> vec3" where
  "vdiv v d = (case v of (x, y, z) \<Rightarrow> (x / d, y / d, z / d))"

definition vadd :: "vec3 \<Rightarrow> vec3 \<Rightarrow> vec3" where
  "vadd u v = (case u of (a, b, c) \<Rightarrow> case v of (x, y, z) \<Rightarrow> (a + x, b + y, c + z))"

definition vsub :: "vec3 \<Rightarrow> vec3 \<Rightarrow> vec3" where
  "vsub u v = (case u of (a, b, c) \<Rightarrow> case v of (x, y, z) \<Rightarrow> (a - x, b - y, c - z))"

definition dot3 :: "vec3 \<Rightarrow> vec3 \<Rightarrow> real" where
  "dot3 u v = (case u of (a, b, c) \<Rightarrow> case v of (x, y, z) \<Rightarrow> a * x + b * y + c * z)"

definition cross3 :: "vec3 \<Rightarrow> vec3 \<Rightarrow> vec3" where
  "cross3 u v =
     (case u of (a, b, c) \<Rightarrow> case v of (x, y, z) \<Rightarrow>
        (b * z - c * y, c * x - a * z, a * y - b * x))"

text \<open>
  \<^verbatim>\<open>torch.nn.functional.normalize\<close> is a library function; it is modelled with its
  defaults (\<open>p = 2\<close>, \<open>eps = 1e-12\<close>): the vector divided by the larger of its norm and
  \<open>eps\<close>.
\<close>

definition normalize :: "vec3 \<Rightarrow> vec3" where
  "normalize v =
     vdiv v (max (norm3 v) (1 / 10 ^ 12))"

text \<open>
  The Gram-Schmidt step of \<^verbatim>\<open>rot6d_to_rotmat\<close> on one row of six numbers, read as a
  3x2 matrix in row-major order (\<open>x[k][l]\<close> is entry \<open>2 k + l\<close>); \<open>b1\<close>, \<open>b2\<close>, \<open>b3\<close>
  are stacked as the columns of the result.
\<close>

definition gram_schmidt :: "real list \<Rightarrow> matrix" where
  "gram_schmidt x =
     (let a1 = (x ! 0, x ! 2, x ! 4);
          a2 = (x ! 1, x ! 3, x ! 5);
          b1 = normalize a1;
          b2 = normalize (vsub a2 (vscale (dot3 b1 a2) b1));
          b3 = cross3 b1 b2
      in case b1 of (b10, b11, b12) \<Rightarrow> case b2 of (b20, b21, b22) \<Rightarrow>
         case b3 of (b30, b31, b32) \<Rightarrow>
           [[b10, b20, b30], [b11, b21, b31], [b12, b22, b32]])"

fun chunks6 :: "real list \<Rightarrow> real list list" where
  "chunks6 (a # b # c # d # e # f # rest) = [a, b, c, d, e, f] # chunks6 rest"
| "chunks6 _ = []"

text \<open>
  \<^verbatim>\<open>rot6d_to_rotmat\<close> on a two-dimensional input \<open>(B,d)\<close>: rows of length 6 are
  converted one by one; any other width is viewed as \<open>(-1,3,2)\<close>, that is, the
  flattened data is cut into groups of six (a runtime error when that does not divide).
\<close>

definition rot6d_to_rotmat :: "real list list \<Rightarrow> error + matrix list" where
  "rot6d_to_rotmat x =
     (if list_all (\<lambda>row. length row = 6) x then Inr (map gram_schmidt x)
      else if length (concat x) mod 6 \<noteq> 0 then Inl RuntimeError
      else Inr (map gram_schmidt (chunks6 (concat x))))"

text \<open>
  \<^verbatim>\<open>rotmat_to_rot6d\<close>: the first two columns of every item, flattened; the reshape to
  \<open>(B,6)\<close> fails unless every item then holds six numbers.
\<close>

definition rotmat_to_rot6d :: "matrix list \<Rightarrow> error + real list list" where
  "rotmat_to_rot6d x =
     (let y = map (\<lambda>M. concat (map (take 2) M)) x in
      if list_all (\<lambda>row. length row = 6) y then Inr y else Inl RuntimeError)"

section \<open>Camera projection\<close>

definition mat_vec :: "matrix \<Rightarrow> vec3 \<Rightarrow> vec3" where
  "mat_vec M p =
     (case p of (x, y, z) \<Rightarrow>
        (ent M 0 0 * x + ent M 0 1 * y + ent M 0 2 * z,
         ent M 1 0 * x + ent M 1 1 * y + ent M 1 2 * z,
         ent M 2 0 * x + ent M 2 1 * y + ent M 2 2 * z))"

text \<open>
  The intrinsic matrix of \<^verbatim>\<open>perspective_projection\<close>: \<^verbatim>\<open>cam_intrinsics\<close> when given,
  otherwise built from \<^verbatim>\<open>focal_length\<close> and \<^verbatim>\<open>camera_center\<close> (assigning \<^verbatim>\<open>None\<close> into
  the tensor is a type error).
\<close>

definition intrinsic_matrix ::
  "real option \<Rightarrow> (real \<times> real) option \<Rightarrow> matrix option \<Rightarrow> error + matrix" where
  "intrinsic_matrix focal_length camera_center cam_intrinsics =
     (case cam_intrinsics of
        Some K \<Rightarrow> Inr K
      | None \<Rightarrow>
          (case focal_length of
             None \<Rightarrow> Inl TypeError
           | Some f \<Rightarrow>
               (case camera_center of
                  None \<Rightarrow> Inl TypeError
                | Some (cx, cy) \<Rightarrow> Inr [[f, 0, cx], [0, f, cy], [0, 0, 1]])))"

text \<open>
  One point: rotate, translate, divide all three coordinates by the transformed depth,
  apply the intrinsics, and keep three or two channels according to \<^verbatim>\<open>retain_z\<close>.
\<close>

definition project_point :: "matrix \<Rightarrow> matrix \<Rightarrow> vec3 \<Rightarrow> bool \<Rightarrow> vec3 \<Rightarrow> error + real list" where
  "project_point K rotation translation retain_z p =
     (case vadd (mat_vec rotation p) translation of (x, y, z) \<Rightarrow>
        if z = 0 then Inl NonFinite
        else
          case mat_vec K (x / z, y / z, z / z) of (u, v, h) \<Rightarrow>
            Inr (if retain_z then [u, v, h] else [u, v]))"

definition perspective_projection_item ::
  "vec3 list \<Rightarrow> matrix \<Rightarrow> vec3 \<Rightarrow> real option \<Rightarrow> (real \<times> real) option \<Rightarrow> matrix option \<Rightarrow> bool
     \<Rightarrow> error + (error + real list) list" where
  "perspective_projection_item points rotation translation focal_length camera_center
       cam_intrinsics retain_z =
     (case intrinsic_matrix focal_length camera_center cam_intrinsics of
        Inl e \<Rightarrow> Inl e
      | Inr K \<Rightarrow>
          if \<not> has_shape 3 3 rotation then Inl RuntimeError
          else if \<not> has_shape 3 3 K then Inl RuntimeError
          else Inr (map (project_point K rotation translation retain_z) points))"

text \<open>
  A batch of \<^verbatim>\<open>perspective_projection\<close>: one tuple of arguments per batch item; the flag
  \<^verbatim>\<open>retain_z\<close> belongs to the call.
\<close>

definition perspective_projection ::
  "(vec3 list \<times> matrix \<times> vec3 \<times> real option \<times> (real \<times> real) option \<times> matrix option) list
     \<Rightarrow> bool \<Rightarrow> (error + (error + real list) list) list" where
  "perspective_projection batch retain_z =
     map (\<lambda>(points, rotation, translation, focal_length, camera_center, cam_intrinsics).
            perspective_projection_item points rotation translation focal_length camera_center
              cam_intrinsics retain_z) batch"

text \<open>
  \<^verbatim>\<open>convert_to_full_img_cam\<close> on one batch item: the weak-perspective triple
  \<open>(s, tx, ty)\<close>, the box height and centre, the image size and the focal length.
\<close>

definition convert_to_full_img_cam_item ::
  "vec3 \<Rightarrow> real \<Rightarrow> real \<times> real \<Rightarrow> real \<Rightarrow> real \<Rightarrow> real \<Rightarrow> error + vec3" where
  "convert_to_full_img_cam_item pare_cam bbox_height bbox_center img_w img_h focal_length =
     (case pare_cam of (s, tx, ty) \<Rightarrow>
        let res = 224;
            r = bbox_height / res
        in if r * res * s = 0 then Inl NonFinite
           else if s * bbox_height = 0 then Inl NonFinite
           else
             let tz = 2 * focal_length / (r * res * s);
                 cx = 2 * (fst bbox_center - (img_w / 2)) / (s * bbox_height);
                 cy = 2 * (snd bbox_center - (img_h / 2)) / (s * bbox_height)
             in Inr (tx + cx, ty + cy, tz))"

definition convert_to_full_img_cam ::
  "(vec3 \<times> real \<times> (real \<times> real) \<times> real \<times> real \<times> real) list \<Rightarrow> (error + vec3) list" where
  "convert_to_full_img_cam batch =
     map (\<lambda>(pare_cam, bbox_height, bbox_center, img_w, img_h, focal_length).
            convert_to_full_img_cam_item pare_cam bbox_height bbox_center img_w img_h focal_length)
       batch"

section \<open>Translation estimation\<close>

definition det_rows :: "vec3 \<Rightarrow> vec3 \<Rightarrow> vec3 \<Rightarrow> real" where
  "det_rows r0 r1 r2 = dot3 r0 (cross3 r1 r2)"

text \<open>
  \<^verbatim>\<open>np.linalg.solve\<close> is a library function; it is modelled for a 3x3 system given by
  the rows of \<open>A\<close>: a singular matrix raises \<^verbatim>\<open>LinAlgError\<close>, otherwise the unique
  solution is returned (written with Cramer's rule).
\<close>

definition solve3 :: "vec3 \<times> vec3 \<times> vec3 \<Rightarrow> vec3 \<Rightarrow> error + vec3" where
  "solve3 A b =
     (case A of (r0, r1, r2) \<Rightarrow>
      case r0 of (a00, a01, a02) \<Rightarrow> case r1 of (a10, a11, a12) \<Rightarrow>
      case r2 of (a20, a21, a22) \<Rightarrow> case b of (b0, b1, b2) \<Rightarrow>
        let d = det_rows r0 r1 r2 in
        if d = 0 then Inl LinAlgError
        else Inr (det_rows (b0, a01, a02) (b1, a11, a12) (b2, a21, a22) / d,
                  det_rows (a00, b0, a02) (a10, b1, a12) (a20, b2, a22) / d,
                  det_rows (a00, a01, b0) (a10, a11, b1) (a20, a21, b2) / d))"

text \<open>
  The two weighted rows that joint \<open>i\<close> contributes to the stacked system \<open>Q t = c\<close> of
  \<^verbatim>\<open>estimate_translation_np\<close> (rows \<open>2 i\<close> and \<open>2 i + 1\<close>), each paired with its right-hand
  side: \<open>F = (f, f)\<close>, \<open>O = center\<close>, \<open>Z = (z, z)\<close>, \<open>XY = (x, y)\<close>, and both rows are
  multiplied by \<open>sqrt conf\<close>.
\<close>

definition joint_rows :: "real \<Rightarrow> real \<times> real \<Rightarrow> vec3 \<Rightarrow> real \<times> real \<Rightarrow> real \<Rightarrow> (vec3 \<times> real) list" where
  "joint_rows focal_length center Si ji conf =
     (case Si of (x, y, z) \<Rightarrow> case ji of (u, v) \<Rightarrow> case center of (o0, o1) \<Rightarrow>
        let weight2 = sqrt conf in
        [(vscale weight2 (focal_length * 1, focal_length * 0, o0 - u),
          weight2 * ((u - o0) * z - focal_length * x)),
         (vscale weight2 (focal_length * 0, focal_length * 1, o1 - v),
          weight2 * ((v - o1) * z - focal_length * y))])"

definition weighted_system ::
  "vec3 list \<Rightarrow> (real \<times> real) list \<Rightarrow> real list \<Rightarrow> real \<Rightarrow> real \<times> real \<Rightarrow> (vec3 \<times> real) list" where
  "weighted_system S joints_2d joints_conf focal_length img_size =
     (let center = (snd img_size / 2, fst img_size / 2) in
      concat (map (\<lambda>(Si, ji, conf). joint_rows focal_length center Si ji conf)
                (zip S (zip joints_2d joints_conf))))"

text \<open>The normal equations: \<open>A = Q\<^sup>T Q\<close> (by rows) and \<open>b = Q\<^sup>T c\<close>.\<close>

definition gram_entry :: "(vec3 \<times> real) list \<Rightarrow> (vec3 \<Rightarrow> real) \<Rightarrow> (vec3 \<Rightarrow> real) \<Rightarrow> real" where
  "gram_entry rows p q = sum_list (map (\<lambda>(row, c). p row * q row) rows)"

definition normal_matrix :: "(vec3 \<times> real) list \<Rightarrow> vec3 \<times> vec3 \<times> vec3" where
  "normal_matrix rows =
     (let c0 = fst; c1 = (\<lambda>v. fst (snd v)); c2 = (\<lambda>v. snd (snd v)) in
      ((gram_entry rows c0 c0, gram_entry rows c0 c1, gram_entry rows c0 c2),
       (gram_entry rows c1 c0, gram_entry rows c1 c1, gram_entry rows c1 c2),
       (gram_entry rows c2 c0, gram_entry rows c2 c1, gram_entry rows c2 c2)))"

definition normal_rhs :: "(vec3 \<times> real) list \<Rightarrow> vec3" where
  "normal_rhs rows =
     (sum_list (map (\<lambda>(row, c). fst row * c) rows),
      sum_list (map (\<lambda>(row, c). fst (snd row) * c) rows),
      sum_list (map (\<lambda>(row, c). snd (snd row) * c) rows))"

text \<open>
  \<^verbatim>\<open>estimate_translation_np\<close>. Arrays of different lengths do not broadcast (a value
  error); the square root of a negative confidence is not a number.
\<close>

definition estimate_translation_np ::
  "vec3 list \<Rightarrow> (real \<times> real) list \<Rightarrow> real list \<Rightarrow> real \<Rightarrow> real \<times> real \<Rightarrow> error + vec3" where
  "estimate_translation_np S joints_2d joints_conf focal_length img_size =
     (let num_joints = length S in
      if length joints_2d \<noteq> num_joints then Inl ValueError
      else if length joints_conf \<noteq> num_joints then Inl ValueError
      else if list_ex (\<lambda>c. c < 0) joints_conf then Inl NonFinite
      else
        let rows = weighted_system S joints_2d joints_conf focal_length img_size;
            A = normal_matrix rows;
            b = normal_rhs rows
        in solve3 A b)"

text \<open>
  The joints are not collinear: three of them span a triangle of nonzero area.
\<close>

definition non_collinear :: "vec3 list \<Rightarrow> bool" where
  "non_collinear S =
     list_ex (\<lambda>a. list_ex (\<lambda>b. list_ex (\<lambda>c. cross3 (vsub b a) (vsub c a) \<noteq> (0, 0, 0)) S) S) S"

section \<open>Twist decomposition\<close>

text \<open>
  \<^verbatim>\<open>compute_twist_rotation\<close> on one batch item. It returns a pair; the twist rotation and
  the twist angle can fail to be finite independently of each other.
\<close>

definition sum3 :: "vec3 \<Rightarrow> real" where
  "sum3 v = (case v of (x, y, z) \<Rightarrow> x + y + z)"

definition twist_quaternion :: "quat \<Rightarrow> vec3 \<Rightarrow> quat" where
  "twist_quaternion quaternion twist_axis =
     (case quaternion of (q0, q1, q2, q3) \<Rightarrow>
        case vscale (dot3 twist_axis (q1, q2, q3)) twist_axis of (p0, p1, p2) \<Rightarrow>
          let tq = (q0, p0, p1, p2) in qdiv tq (norm4 tq + 1 / 10 ^ 9))"

definition compute_twist_rotation_item ::
  "matrix \<Rightarrow> vec3 \<Rightarrow> error + (error + matrix) \<times> (error + real)" where
  "compute_twist_rotation_item rotation_matrix twist_axis0 =
     (case rotation_matrix_to_quaternion_item (1 / 10 ^ 6) rotation_matrix of
        Inl e \<Rightarrow> Inl e
      | Inr quaternion \<Rightarrow>
          let twist_axis = vdiv twist_axis0 (norm3 twist_axis0 + 1 / 10 ^ 9);
              tq = twist_quaternion quaternion twist_axis;
              twist_rotation = quaternion_to_rotation_matrix_item tq;
              twist_aa = quaternion_to_angle_axis_item tq;
              twist_angle = (if sum3 twist_axis = 0 then Inl NonFinite
                             else Inr (sum3 twist_aa / sum3 twist_axis))
          in Inr (twist_rotation, twist_angle))"

definition compute_twist_rotation ::
  "(matrix \<times> vec3) list \<Rightarrow> (error + (error + matrix) \<times> (error + real)) list" where
  "compute_twist_rotation batch =
     map (\<lambda>(rotation_matrix, twist_axis). compute_twist_rotation_item rotation_matrix twist_axis)
       batch"

section \<open>Rotation matrices\<close>

definition det3 :: "matrix \<Rightarrow> real" where
  "det3 M =
     ent M 0 0 * (ent M 1 1 * ent M 2 2 - ent M 1 2 * ent M 2 1)
   - ent M 0 1 * (ent M 1 0 * ent M 2 2 - ent M 1 2 * ent M 2 0)
   + ent M 0 2 * (ent M 1 0 * ent M 2 1 - ent M 1 1 * ent M 2 0)"

definition col_dot :: "matrix \<Rightarrow> nat \<Rightarrow> nat \<Rightarrow> real" where
  "col_dot M j k = ent M 0 j * ent M 0 k + ent M 1 j * ent M 1 k + ent M 2 j * ent M 2 k"

text \<open>A valid rotation matrix: 3x3, orthonormal columns, determinant \<open>+1\<close>.\<close>

definition is_rotation :: "matrix \<Rightarrow> bool" where
  "is_rotation M =
     (has_shape 3 3 M
      \<and> col_dot M 0 0 = 1 \<and> col_dot M 1 1 = 1 \<and> col_dot M 2 2 = 1
      \<and> col_dot M 0 1 = 0 \<and> col_dot M 0 2 = 0 \<and> col_dot M 1 2 = 0
      \<and> det3 M = 1)"

text \<open>
  The candidate quaternion and the value \<open>t\<close> that the masks of
  \<^verbatim>\<open>rotation_matrix_to_quaternion\<close> select for the matrix with rows \<open>(a, b, c)\<close>,
  \<open>(d, e, f)\<close>, \<open>(g, h, i)\<close> and \<open>eps = 1e-6\<close>, written by cases; \<open>r2q_33\<close> below
  proves that the source computes exactly this.
\<close>

definition select_quat ::
  "real \<Rightarrow> real \<Rightarrow> real \<Rightarrow> real \<Rightarrow> real \<Rightarrow> real \<Rightarrow> real \<Rightarrow> real \<Rightarrow> real \<Rightarrow> quat \<times> real" where
  "select_quat a b c d e f g h i =
     (if i < 1 / 10 ^ 6 then
        (if a > e then ((h - f, 1 + a - e - i, d + b, c + g), 1 + a - e - i)
         else ((c - g, d + b, 1 - a + e - i, h + f), 1 - a + e - i))
      else
        (if a < - e then ((d - b, c + g, h + f, 1 - a - e + i), 1 - a - e + i)
         else ((1 + a + e + i, h - f, c - g, d - b), 1 + a + e + i)))"

text \<open>
  The padding as the specification words it, a fourth row \<open>(0, 0, 1)\<close> under the
  matrix, for comparison with \<open>pad_hom\<close>.
\<close>

definition pad_bottom_row :: "matrix \<Rightarrow> matrix" where
  "pad_bottom_row M = M @ [[0, 0, 1]]"

text \<open>Two matrices of the same shape whose entries differ by at most \<open>tol\<close>.\<close>

definition mat_close :: "real \<Rightarrow> matrix \<Rightarrow> matrix \<Rightarrow> bool" where
  "mat_close tol A B = list_all2 (list_all2 (\<lambda>x y. \<bar>x - y\<bar> \<le> tol)) A B"

text \<open>
  A pure rotation about the axis \<open>a\<close> by the angle \<open>theta\<close>, as the specification
  words it: the matrix of Rodrigues' formula for the unit vector \<open>a / |a|\<close>.
\<close>

definition rotation_about :: "vec3 \<Rightarrow> real \<Rightarrow> matrix" where
  "rotation_about a theta =
     (case vdiv a (norm3 a) of (x, y, z) \<Rightarrow>
        let c = cos theta; s = sin theta; C = 1 - c in
        [[c + x * x * C, x * y * C - z * s, x * z * C + y * s],
         [y * x * C + z * s, c + y * y * C, y * z * C - x * s],
         [z * x * C - y * s, z * y * C + x * s, c + z * z * C]])"

section \<open>Basic facts\<close>

lemma norm4_qneg: "norm4 (qneg q) = norm4 q"
  by (cases q) (simp add: norm4_def qneg_def)

lemma quat_to_rotmat_item_qneg: "quat_to_rotmat_item (qneg q) = quat_to_rotmat_item q"
proof -
  obtain w x y z where q: "q = (w, x, y, z)"
    by (cases q) auto
  have n: "norm4 (- w, - x, - y, - z) = norm4 (w, x, y, z)"
    using norm4_qneg [of q] by (simp add: q qneg_def)
  show ?thesis
    by (simp add: q qneg_def quat_to_rotmat_item_def n qdiv_def Let_def)
qed

lemma quat_to_rotmat_item_finite:
  "norm4 q \<noteq> 0 \<Longrightarrow> \<exists>M. quat_to_rotmat_item q = Inr M \<and> has_shape 3 3 M"
  by (cases q) (simp add: quat_to_rotmat_item_def qdiv_def Let_def has_shape_def)

lemma quaternion_to_rotation_matrix_item_eq:
  "quaternion_to_rotation_matrix_item q = quat_to_rotmat_item q"
  by (simp add: quaternion_to_rotation_matrix_item_def quat_to_rotmat_item_def)

section \<open>Claims\<close>

text \<open>
  C2. For every batch of unit quaternions, \<^verbatim>\<open>quat_to_rotmat\<close> returns the same rotation
  matrices, entry by entry, for the batch and for its negation; every item of the
  result is a finite 3x3 matrix.
\<close>

theorem quat_to_rotmat_sign_invariant:
  assumes "\<forall>q \<in> set qs. norm4 q = 1"
  shows "quat_to_rotmat (map qneg qs) = quat_to_rotmat qs
       \<and> (\<forall>r \<in> set (quat_to_rotmat qs). \<exists>M. r = Inr M \<and> has_shape 3 3 M)"
proof
  show "quat_to_rotmat (map qneg qs) = quat_to_rotmat qs"
    by (simp add: quat_to_rotmat_def quat_to_rotmat_item_qneg)
  show "\<forall>r \<in> set (quat_to_rotmat qs). \<exists>M. r = Inr M \<and> has_shape 3 3 M"
  proof
    fix r assume "r \<in> set (quat_to_rotmat qs)"
    then obtain q where q: "q \<in> set qs" and r: "r = quat_to_rotmat_item q"
      by (auto simp: quat_to_rotmat_def)
    from q assms have "norm4 q \<noteq> 0" by auto
    then show "\<exists>M. r = Inr M \<and> has_shape 3 3 M"
      unfolding r by (rule quat_to_rotmat_item_finite)
  qed
qed

theorem quat_to_rotmat_sign_invariant_witness:
  "quat_to_rotmat (map qneg [(1, 0, 0, 0), (0, 0, 1, 0)]) = quat_to_rotmat [(1, 0, 0, 0), (0, 0, 1, 0)]
   \<and> quat_to_rotmat [(0, 0, - 1, 0)] = [Inr [[- 1, 0, 0], [0, 1, 0], [0, 0, - 1]]]"
proof -
  have h: "\<forall>q \<in> set [(1, 0, 0, 0), (0, 0, 1, 0)]. norm4 q = 1"
    by (simp add: norm4_def)
  have "quat_to_rotmat [(0, 0, - 1, 0)] = [Inr [[- 1, 0, 0], [0, 1, 0], [0, 0, - 1]]]"
    by (simp add: quat_to_rotmat_def quat_to_rotmat_item_def norm4_def qdiv_def)
  with quat_to_rotmat_sign_invariant [OF h] show ?thesis
    by simp
qed

text \<open>
  C10. The two quaternion-to-matrix functions agree: on every batch of quaternions of
  nonzero norm, \<^verbatim>\<open>quaternion_to_rotation_matrix\<close> and \<^verbatim>\<open>quat_to_rotmat\<close> return the same
  list of finite 3x3 matrices.
\<close>

theorem quaternion_to_rotation_matrix_eq_quat_to_rotmat:
  assumes "\<forall>q \<in> set qs. norm4 q \<noteq> 0"
  shows "quaternion_to_rotation_matrix qs = quat_to_rotmat qs
       \<and> (\<forall>r \<in> set (quat_to_rotmat qs). \<exists>M. r = Inr M \<and> has_shape 3 3 M)"
proof
  show "quaternion_to_rotation_matrix qs = quat_to_rotmat qs"
    by (simp add: quaternion_to_rotation_matrix_def quat_to_rotmat_def
        quaternion_to_rotation_matrix_item_eq)
  show "\<forall>r \<in> set (quat_to_rotmat qs). \<exists>M. r = Inr M \<and> has_shape 3 3 M"
    using assms by (auto simp: quat_to_rotmat_def intro: quat_to_rotmat_item_finite)
qed

theorem quaternion_to_rotation_matrix_eq_quat_to_rotmat_witness:
  "quaternion_to_rotation_matrix [(0, 2, 0, 0)] = quat_to_rotmat [(0, 2, 0, 0)]
   \<and> quaternion_to_rotation_matrix [(0, 2, 0, 0)] = [Inr [[1, 0, 0], [0, - 1, 0], [0, 0, - 1]]]"
proof -
  have h: "\<forall>q \<in> set [(0, 2, 0, 0)]. norm4 q \<noteq> 0"
    by (simp add: norm4_def)
  have "quaternion_to_rotation_matrix [(0, 2, 0, 0)] = [Inr [[1, 0, 0], [0, - 1, 0], [0, 0, - 1]]]"
    by (simp add: quaternion_to_rotation_matrix_def quaternion_to_rotation_matrix_item_def
        norm4_def qdiv_def)
  with quaternion_to_rotation_matrix_eq_quat_to_rotmat [OF h] show ?thesis
    by simp
qed

section \<open>Shapes and the selected quaternion\<close>

lemma has_shape_33_cases:
  assumes "has_shape 3 3 M"
  obtains a b c d e f g h i where "M = [[a, b, c], [d, e, f], [g, h, i]]"
proof -
  from assms have len: "length M = 3" and rows: "\<forall>row \<in> set M. length row = 3"
    by (auto simp: has_shape_def list_all_iff)
  from len obtain r0 r1 r2 where M: "M = [r0, r1, r2]"
    by (auto simp: length_Suc_conv numeral_3_eq_3)
  have three: "\<exists>x y z. r = [x, y, z]" if "length r = 3" for r :: "real list"
    using that by (auto simp: length_Suc_conv numeral_3_eq_3)
  from rows M obtain a b c d e f g h i
    where "r0 = [a, b, c]" "r1 = [d, e, f]" "r2 = [g, h, i]"
    using three [of r0] three [of r1] three [of r2] by auto
  with M that show thesis by simp
qed

lemma has_shape_33 [simp]: "has_shape 3 3 [[a, b, c], [d, e, f], [g, h, i]]"
  by (simp add: has_shape_def)

lemma select_quat_pos: "0 < snd (select_quat a b c d e f g h i)"
  by (simp add: select_quat_def)

lemma r2q_33:
  "rotation_matrix_to_quaternion_item (1 / 1000000) [[a, b, c], [d, e, f], [g, h, i]] =
     (case select_quat a b c d e f g h i of (q, t) \<Rightarrow> Inr (qscale (1 / 2) (qdiv q (sqrt t))))"
  by (simp add: rotation_matrix_to_quaternion_item_def select_quat_def ent_def Let_def
      qadd_def qscale_def qdiv_def)

lemma r2q_34:
  "rotation_matrix_to_quaternion_item (1 / 1000000) [[a, b, c, x], [d, e, f, y], [g, h, i, z]] =
   rotation_matrix_to_quaternion_item (1 / 1000000) [[a, b, c], [d, e, f], [g, h, i]]"
  by (simp add: rotation_matrix_to_quaternion_item_def ent_def Let_def)

lemma r2q_43:
  "rotation_matrix_to_quaternion_item (1 / 1000000) [[a, b, c], [d, e, f], [g, h, i], [x, y, z]] =
   rotation_matrix_to_quaternion_item (1 / 1000000) [[a, b, c], [d, e, f], [g, h, i]]"
  by (simp add: rotation_matrix_to_quaternion_item_def ent_def Let_def)

lemma r2q_33_finite:
  "\<exists>q. rotation_matrix_to_quaternion_item (1 / 1000000) [[a, b, c], [d, e, f], [g, h, i]] = Inr q"
  by (simp add: r2q_33 qscale_def qdiv_def split: prod.split)

lemma pad_hom_33:
  "pad_hom [[a, b, c], [d, e, f], [g, h, i]] = [[a, b, c, 0], [d, e, f, 0], [g, h, i, 1]]"
  by (simp add: pad_hom_def cat_last_def hom_def)

lemma cat_last_hom_33:
  "cat_last [[a, b, c], [d, e, f], [g, h, i]] hom = [[a, b, c, 0], [d, e, f, 0], [g, h, i, 1]]"
  by (simp add: cat_last_def hom_def)

lemma pad_hom_34:
  "pad_hom [[a, b, c, x], [d, e, f, y], [g, h, i, z]] = [[a, b, c, x], [d, e, f, y], [g, h, i, z]]"
  by (simp add: pad_hom_def has_shape_def)

lemma pad_hom_43:
  "pad_hom [[a, b, c], [d, e, f], [g, h, i], [x, y, z]] = [[a, b, c], [d, e, f], [g, h, i], [x, y, z]]"
  by (simp add: pad_hom_def has_shape_def)

lemma r2aa_33:
  "rotation_matrix_to_angle_axis_item [[a, b, c], [d, e, f], [g, h, i]] =
     (case select_quat a b c d e f g h i of (q, t) \<Rightarrow>
        Inr (quaternion_to_angle_axis_item (qscale (1 / 2) (qdiv q (sqrt t)))))"
  by (simp add: rotation_matrix_to_angle_axis_item_def pad_hom_33 r2q_34 r2q_33 split: prod.split)

section \<open>Padding of 3x3 inputs\<close>

lemma r2aa_item_padded:
  assumes "has_shape 3 3 R"
  shows "rotation_matrix_to_angle_axis_item (cat_last R hom) = rotation_matrix_to_angle_axis_item R"
    and "rotation_matrix_to_angle_axis_item (pad_bottom_row R) = rotation_matrix_to_angle_axis_item R"
    and "\<exists>q. rotation_matrix_to_quaternion_item (1 / 1000000) (cat_last R hom) = Inr q
           \<and> rotation_matrix_to_angle_axis_item R = Inr (quaternion_to_angle_axis_item q)"
    and "has_shape 3 4 (cat_last R hom) \<and> map butlast (cat_last R hom) = R
           \<and> map last (cat_last R hom) = [0, 0, 1]"
proof -
  from assms obtain a b c d e f g h i where R: "R = [[a, b, c], [d, e, f], [g, h, i]]"
    by (rule has_shape_33_cases)
  show "rotation_matrix_to_angle_axis_item (cat_last R hom) = rotation_matrix_to_angle_axis_item R"
    by (simp add: R cat_last_hom_33 rotation_matrix_to_angle_axis_item_def pad_hom_33 pad_hom_34)
  show "rotation_matrix_to_angle_axis_item (pad_bottom_row R) = rotation_matrix_to_angle_axis_item R"
    by (simp add: R pad_bottom_row_def rotation_matrix_to_angle_axis_item_def pad_hom_33 pad_hom_43
        r2q_34 r2q_43)
  obtain q where q: "rotation_matrix_to_quaternion_item (1 / 1000000) [[a, b, c], [d, e, f], [g, h, i]] = Inr q"
    using r2q_33_finite by blast
  then show "\<exists>q. rotation_matrix_to_quaternion_item (1 / 1000000) (cat_last R hom) = Inr q
           \<and> rotation_matrix_to_angle_axis_item R = Inr (quaternion_to_angle_axis_item q)"
    by (simp add: R cat_last_hom_33 r2q_34 rotation_matrix_to_angle_axis_item_def pad_hom_33)
  show "has_shape 3 4 (cat_last R hom) \<and> map butlast (cat_last R hom) = R
           \<and> map last (cat_last R hom) = [0, 0, 1]"
    by (simp add: R cat_last_hom_33 has_shape_def)
qed

text \<open>
  C9 (as amended). For every batch of 3x3 matrices, \<^verbatim>\<open>rotation_matrix_to_angle_axis\<close>
  appends to each matrix the fixed fourth column \<open>(0, 0, 1)\<close>, giving a 3x4 matrix, and
  returns what the matrix to quaternion to axis-angle pipeline returns on that padded
  input: the 3x3 call path and the pre-padded call path are equal, and every result is
  finite. Only the upper left 3x3 block is read, so an input padded with a fourth row
  \<open>(0, 0, 1)\<close> gives the same result as well.
\<close>

theorem rotation_matrix_to_angle_axis_pads_column:
  assumes "\<forall>R \<in> set Rs. has_shape 3 3 R"
  shows "rotation_matrix_to_angle_axis (map (\<lambda>R. cat_last R hom) Rs) = rotation_matrix_to_angle_axis Rs
       \<and> (\<exists>qs. rotation_matrix_to_quaternion (map (\<lambda>R. cat_last R hom) Rs) = map Inr qs
             \<and> rotation_matrix_to_angle_axis Rs = map Inr (quaternion_to_angle_axis qs))
       \<and> (\<forall>R \<in> set Rs. pad_hom R = cat_last R hom \<and> has_shape 3 4 (cat_last R hom)
             \<and> map butlast (cat_last R hom) = R \<and> map last (cat_last R hom) = [0, 0, 1])
       \<and> rotation_matrix_to_angle_axis (map pad_bottom_row Rs) = rotation_matrix_to_angle_axis Rs"
proof (intro conjI)
  show "rotation_matrix_to_angle_axis (map (\<lambda>R. cat_last R hom) Rs) = rotation_matrix_to_angle_axis Rs"
    using assms by (simp add: rotation_matrix_to_angle_axis_def r2aa_item_padded(1))
  show "rotation_matrix_to_angle_axis (map pad_bottom_row Rs) = rotation_matrix_to_angle_axis Rs"
    using assms by (simp add: rotation_matrix_to_angle_axis_def r2aa_item_padded(2))
  show "\<forall>R \<in> set Rs. pad_hom R = cat_last R hom \<and> has_shape 3 4 (cat_last R hom)
             \<and> map butlast (cat_last R hom) = R \<and> map last (cat_last R hom) = [0, 0, 1]"
    using assms by (simp add: r2aa_item_padded(4) pad_hom_def)
  show "\<exists>qs. rotation_matrix_to_quaternion (map (\<lambda>R. cat_last R hom) Rs) = map Inr qs
             \<and> rotation_matrix_to_angle_axis Rs = map Inr (quaternion_to_angle_axis qs)"
    using assms
  proof (induction Rs)
    case Nil
    show ?case
      by (simp add: rotation_matrix_to_quaternion_def rotation_matrix_to_angle_axis_def
          quaternion_to_angle_axis_def)
  next
    case (Cons R Rs)
    then obtain qs where qs: "rotation_matrix_to_quaternion (map (\<lambda>R. cat_last R hom) Rs) = map Inr qs"
        "rotation_matrix_to_angle_axis Rs = map Inr (quaternion_to_angle_axis qs)"
      by auto
    from Cons.prems have "has_shape 3 3 R" by simp
    then obtain q where q: "rotation_matrix_to_quaternion_item (1 / 1000000) (cat_last R hom) = Inr q"
        "rotation_matrix_to_angle_axis_item R = Inr (quaternion_to_angle_axis_item q)"
      using r2aa_item_padded(3) by blast
    have "rotation_matrix_to_quaternion (map (\<lambda>R. cat_last R hom) (R # Rs)) = map Inr (q # qs)
        \<and> rotation_matrix_to_angle_axis (R # Rs) = map Inr (quaternion_to_angle_axis (q # qs))"
      using qs q
      by (simp add: rotation_matrix_to_quaternion_def rotation_matrix_to_angle_axis_def
          quaternion_to_angle_axis_def)
    then show ?case by blast
  qed
qed

lemma r2aa_eye3: "rotation_matrix_to_angle_axis_item eye3 = Inr (0, 0, 0)"
  by (simp add: eye3_def r2aa_33 select_quat_def qscale_def qdiv_def
      quaternion_to_angle_axis_item_def)

theorem rotation_matrix_to_angle_axis_pads_column_witness:
  "has_shape 3 3 eye3
   \<and> rotation_matrix_to_angle_axis [cat_last eye3 hom] = rotation_matrix_to_angle_axis [eye3]
   \<and> rotation_matrix_to_angle_axis [eye3] = [Inr (0, 0, 0)]
   \<and> cat_last eye3 hom = [[1, 0, 0, 0], [0, 1, 0, 0], [0, 0, 1, 1]]"
proof -
  have h: "\<forall>R \<in> set [eye3]. has_shape 3 3 R"
    by (simp add: eye3_def)
  have "rotation_matrix_to_angle_axis [eye3] = [Inr (0, 0, 0)]"
    by (simp add: rotation_matrix_to_angle_axis_def r2aa_eye3)
  moreover have "cat_last eye3 hom = [[1, 0, 0, 0], [0, 1, 0, 0], [0, 0, 1, 1]]"
    by (simp add: eye3_def cat_last_hom_33)
  ultimately show ?thesis
    using rotation_matrix_to_angle_axis_pads_column [OF h] h by simp
qed

text \<open>
  The claim as stated has the function add a bottom row; the matrix the source builds
  for the identity is 3x4, not the 4x3 matrix with the extra row.
\<close>

theorem rotation_matrix_to_angle_axis_pads_row_counterexample:
  "pad_hom eye3 \<noteq> pad_bottom_row eye3
   \<and> pad_hom eye3 = [[1, 0, 0, 0], [0, 1, 0, 0], [0, 0, 1, 1]]
   \<and> pad_bottom_row eye3 = [[1, 0, 0], [0, 1, 0], [0, 0, 1], [0, 0, 1]]"
  by (simp add: eye3_def pad_hom_33 pad_bottom_row_def)

section \<open>The zero axis-angle vector\<close>

lemma norm3_diag: "0 \<le> e \<Longrightarrow> norm3 (e, e, e) = sqrt 3 * e"
proof -
  assume e: "0 \<le> e"
  have "e\<^sup>2 + e\<^sup>2 + e\<^sup>2 = 3 * e\<^sup>2" by simp
  then have "sqrt (e\<^sup>2 + e\<^sup>2 + e\<^sup>2) = sqrt 3 * sqrt (e\<^sup>2)"
    by (simp only: real_sqrt_mult)
  with e show ?thesis by (simp add: norm3_def)
qed

lemma quat_real_axis:
  assumes "0 < c"
  shows "quat_to_rotmat_item (c, 0, 0, 0) = Inr eye3"
  using assms by (simp add: quat_to_rotmat_item_def norm4_def qdiv_def eye3_def)

lemma cos_half_eps_pos: "0 < cos (sqrt 3 / 200000000)"
proof -
  have "sqrt 3 < 2" using real_sqrt_less_iff [of 3 4] by simp
  then have "sqrt 3 / 200000000 < 1" by simp
  moreover have "(1::real) \<le> pi / 2" using pi_ge_two by simp
  ultimately have "sqrt 3 / 200000000 < pi / 2" by linarith
  then show ?thesis by (intro cos_gt_zero) simp_all
qed

lemma rodrigues_quat_zero: "rodrigues_quat (0, 0, 0) = Inr (cos (sqrt 3 / 200000000), 0, 0, 0)"
proof -
  have n: "norm3 (1 / 100000000, 1 / 100000000, 1 / 100000000) = sqrt 3 / 100000000"
    using norm3_diag [of "1 / 100000000"] by simp
  show ?thesis
    by (simp add: rodrigues_quat_def n Let_def)
qed

text \<open>
  C6. \<^verbatim>\<open>batch_rodrigues\<close> maps the zero axis-angle vector to the identity matrix, and the
  result is finite: the norm taken after adding \<open>1e-8\<close> is \<open>sqrt 3 * 1e-8\<close>, not zero, the
  quaternion built is \<open>(cos (sqrt 3 * 1e-8 / 2), 0, 0, 0)\<close>, and it normalizes to
  \<open>(1, 0, 0, 0)\<close>.
\<close>

theorem batch_rodrigues_zero_is_identity:
  "batch_rodrigues [(0, 0, 0)] = [Inr eye3]
   \<and> eye3 = [[1, 0, 0], [0, 1, 0], [0, 0, 1]]
   \<and> (\<exists>q. rodrigues_quat (0, 0, 0) = Inr q \<and> qdiv q (norm4 q) = (1, 0, 0, 0))"
proof -
  have "batch_rodrigues_item (0, 0, 0) = Inr eye3"
    using cos_half_eps_pos by (simp add: batch_rodrigues_item_def rodrigues_quat_zero quat_real_axis)
  moreover have "qdiv (cos (sqrt 3 / 200000000), 0, 0, 0) (norm4 (cos (sqrt 3 / 200000000), 0, 0, 0))
      = (1, 0, 0, 0)"
    using cos_half_eps_pos by (simp add: qdiv_def norm4_def)
  ultimately show ?thesis
    by (simp add: batch_rodrigues_def rodrigues_quat_zero eye3_def)
qed

section \<open>Camera conversion and projection\<close>

lemma convert_to_full_img_cam_item_eq:
  assumes "0 < s" "0 < h"
  shows "convert_to_full_img_cam_item (s, tx, ty) h (bx, by) img_w img_h f =
           Inr (tx + (bx - img_w / 2) * (2 / (s * h)), ty + (by - img_h / 2) * (2 / (s * h)),
                2 * f / (s * h))"
  using assms by (simp add: convert_to_full_img_cam_item_def Let_def mult.commute)

text \<open>
  C7. For a weak-perspective triple \<open>(s, tx, ty)\<close> with \<open>s > 0\<close> and a box height
  \<open>h > 0\<close>, \<^verbatim>\<open>convert_to_full_img_cam\<close> returns the finite translation with depth
  \<open>2 f / (r * res * s)\<close>, \<open>r = h / res\<close>, \<open>res = 224\<close>, which is \<open>2 f / (s h)\<close>, and with
  \<open>tx\<close> and \<open>ty\<close> each increased by the displacement of the box centre from the image
  centre times \<open>2 / (s h)\<close>.
\<close>

theorem convert_to_full_img_cam_formula:
  assumes "\<forall>(pare_cam, bbox_height, rest) \<in> set batch. 0 < fst pare_cam \<and> 0 < bbox_height"
  shows "convert_to_full_img_cam batch =
           map (\<lambda>((s, tx, ty), h, (bx, by), img_w, img_h, f).
                  Inr (tx + (bx - img_w / 2) * (2 / (s * h)), ty + (by - img_h / 2) * (2 / (s * h)),
                       2 * f / (h / 224 * 224 * s))) batch
         \<and> (\<forall>s h f :: real. 2 * f / (h / 224 * 224 * s) = 2 * f / (s * h))"
proof
  show "convert_to_full_img_cam batch =
           map (\<lambda>((s, tx, ty), h, (bx, by), img_w, img_h, f).
                  Inr (tx + (bx - img_w / 2) * (2 / (s * h)), ty + (by - img_h / 2) * (2 / (s * h)),
                       2 * f / (h / 224 * 224 * s))) batch"
    unfolding convert_to_full_img_cam_def using assms
    by (intro map_cong [OF refl]) (auto simp: convert_to_full_img_cam_item_eq mult.commute)
  show "\<forall>s h f :: real. 2 * f / (h / 224 * 224 * s) = 2 * f / (s * h)"
    by (simp add: mult.commute)
qed

theorem convert_to_full_img_cam_formula_witness:
  "convert_to_full_img_cam [((2, 1, 3), 112, (300, 200), 400, 600, 5000)] =
        [Inr (1 + (300 - 400 / 2) * (2 / (2 * 112)), 3 + (200 - 600 / 2) * (2 / (2 * 112)),
              2 * 5000 / (112 / 224 * 224 * 2))]
   \<and> convert_to_full_img_cam [((2, 1, 3), 112, (300, 200), 400, 600, 5000)] =
        [Inr (53 / 28, 59 / 28, 625 / 14)]"
proof -
  have h: "\<forall>(pare_cam, bbox_height, rest)
             \<in> set [((2::real, 1::real, 3::real), 112::real, (300::real, 200::real), 400::real, 600::real, 5000::real)].
             0 < fst pare_cam \<and> 0 < bbox_height"
    by simp
  from convert_to_full_img_cam_formula [OF h] show ?thesis
    by simp
qed

lemma project_point_channels:
  "project_point K rotation translation retain_z p =
     (case vadd (mat_vec rotation p) translation of (x, y, z) \<Rightarrow>
        if z = 0 then Inl NonFinite
        else Inr ([ent K 0 0 * (x / z) + ent K 0 1 * (y / z) + ent K 0 2,
                   ent K 1 0 * (x / z) + ent K 1 1 * (y / z) + ent K 1 2]
                  @ (if retain_z then [ent K 2 0 * (x / z) + ent K 2 1 * (y / z) + ent K 2 2]
                     else [])))"
  by (simp add: project_point_def mat_vec_def split: prod.split)

lemma intrinsic_matrix_built:
  assumes "intrinsic_matrix focal_length camera_center None = Inr K"
  shows "has_shape 3 3 K \<and> ent K 2 0 = 0 \<and> ent K 2 1 = 0 \<and> ent K 2 2 = 1"
  using assms
  by (auto simp: intrinsic_matrix_def has_shape_def ent_def split: option.splits prod.splits)

text \<open>
  C3 (as amended). With \<^verbatim>\<open>retain_z\<close> true, \<^verbatim>\<open>perspective_projection\<close> returns for every point
  whose transformed depth \<open>z = (R p + t)\<^sub>z\<close> is not zero the two image coordinates that it
  returns with \<^verbatim>\<open>retain_z\<close> false, followed by the third channel of the projected
  homogeneous point: \<open>K\<^sub>2\<^sub>0 x / z + K\<^sub>2\<^sub>1 y / z + K\<^sub>2\<^sub>2\<close>, the depth having been divided out
  before the intrinsics are applied. For the intrinsics built from the focal length and
  the camera centre the bottom row of \<open>K\<close> is \<open>(0, 0, 1)\<close>, so that channel is \<open>1\<close>.
\<close>

theorem perspective_projection_retain_z_channel:
  assumes "has_shape 3 3 rotation"
    and "intrinsic_matrix focal_length camera_center cam_intrinsics = Inr K"
    and "has_shape 3 3 K"
  shows "perspective_projection
           [(points, rotation, translation, focal_length, camera_center, cam_intrinsics)] True =
         [Inr (map (\<lambda>p. case vadd (mat_vec rotation p) translation of (x, y, z) \<Rightarrow>
                      if z = 0 then Inl NonFinite
                      else Inr [ent K 0 0 * (x / z) + ent K 0 1 * (y / z) + ent K 0 2,
                                ent K 1 0 * (x / z) + ent K 1 1 * (y / z) + ent K 1 2,
                                ent K 2 0 * (x / z) + ent K 2 1 * (y / z) + ent K 2 2]) points)]
       \<and> perspective_projection
           [(points, rotation, translation, focal_length, camera_center, cam_intrinsics)] False =
         [Inr (map (\<lambda>p. case vadd (mat_vec rotation p) translation of (x, y, z) \<Rightarrow>
                      if z = 0 then Inl NonFinite
                      else Inr [ent K 0 0 * (x / z) + ent K 0 1 * (y / z) + ent K 0 2,
                                ent K 1 0 * (x / z) + ent K 1 1 * (y / z) + ent K 1 2]) points)]
       \<and> (cam_intrinsics = None \<longrightarrow> ent K 2 0 = 0 \<and> ent K 2 1 = 0 \<and> ent K 2 2 = 1)"
proof (intro conjI impI)
  show "perspective_projection
           [(points, rotation, translation, focal_length, camera_center, cam_intrinsics)] True =
         [Inr (map (\<lambda>p. case vadd (mat_vec rotation p) translation of (x, y, z) \<Rightarrow>
                      if z = 0 then Inl NonFinite
                      else Inr [ent K 0 0 * (x / z) + ent K 0 1 * (y / z) + ent K 0 2,
                                ent K 1 0 * (x / z) + ent K 1 1 * (y / z) + ent K 1 2,
                                ent K 2 0 * (x / z) + ent K 2 1 * (y / z) + ent K 2 2]) points)]"
    using assms
    by (simp add: perspective_projection_def perspective_projection_item_def
        project_point_channels split: prod.split)
  show "perspective_projection
           [(points, rotation, translation, focal_length, camera_center, cam_intrinsics)] False =
         [Inr (map (\<lambda>p. case vadd (mat_vec rotation p) translation of (x, y, z) \<Rightarrow>
                      if z = 0 then Inl NonFinite
                      else Inr [ent K 0 0 * (x / z) + ent K 0 1 * (y / z) + ent K 0 2,
                                ent K 1 0 * (x / z) + ent K 1 1 * (y / z) + ent K 1 2]) points)]"
    using assms
    by (simp add: perspective_projection_def perspective_projection_item_def
        project_point_channels split: prod.split)
  assume "cam_intrinsics = None"
  with assms(2) intrinsic_matrix_built [of focal_length camera_center K]
  show "ent K 2 0 = 0" "ent K 2 1 = 0" "ent K 2 2 = 1"
    by simp_all
qed

theorem perspective_projection_retain_z_channel_witness:
  "has_shape 3 3 eye3
   \<and> intrinsic_matrix (Some 5000) (Some (112, 112)) None = Inr [[5000, 0, 112], [0, 5000, 112], [0, 0, 1]]
   \<and> perspective_projection [([(1, 2, 4)], eye3, (0, 0, 1), Some 5000, Some (112, 112), None)] True
       = [Inr [Inr [1112, 2112, 1]]]
   \<and> perspective_projection [([(1, 2, 4)], eye3, (0, 0, 1), Some 5000, Some (112, 112), None)] False
       = [Inr [Inr [1112, 2112]]]"
proof -
  have h1: "has_shape 3 3 eye3"
    by (simp add: eye3_def has_shape_def)
  have h2: "intrinsic_matrix (Some 5000) (Some (112, 112)) None
              = Inr [[5000, 0, 112], [0, 5000, 112], [0, 0, 1]]"
    by (simp add: intrinsic_matrix_def)
  have h3: "has_shape 3 3 [[5000, 0, 112], [0, 5000, 112], [0, 0, 1]]"
    by (simp add: has_shape_def)
  have v: "vadd (mat_vec eye3 (1, 2, 4)) (0, 0, 1) = (1, 2, 5)"
    by (simp add: vadd_def mat_vec_def eye3_def ent_def)
  from perspective_projection_retain_z_channel [OF h1 h2 h3, of "[(1, 2, 4)]" "(0, 0, 1)"]
  show ?thesis
    using h1 h2 by (simp add: v ent_def)
qed

text \<open>
  The claim as stated fails: the point \<open>(0, 0, 2)\<close> seen by the identity camera has depth
  \<open>2\<close>, and the third channel returned with \<^verbatim>\<open>retain_z\<close> true is \<open>1\<close>.
\<close>

theorem perspective_projection_retain_z_counterexample:
  "perspective_projection [([(0, 0, 2)], eye3, (0, 0, 0), Some 1, Some (0, 0), None)] True
     = [Inr [Inr [0, 0, 1]]]
   \<and> vadd (mat_vec eye3 (0, 0, 2)) (0, 0, 0) = (0, 0, 2)"
  by (simp add: perspective_projection_def perspective_projection_item_def intrinsic_matrix_def
      project_point_def vadd_def mat_vec_def eye3_def ent_def has_shape_def)

section \<open>Algebra of rotation matrices\<close>

lemma cross_unique:
  fixes u1 u2 u3 v1 v2 v3 w1 w2 w3 :: real
  assumes "v1 * v1 + v2 * v2 + v3 * v3 = 1" "w1 * w1 + w2 * w2 + w3 * w3 = 1"
    and "v1 * w1 + v2 * w2 + v3 * w3 = 0" "u1 * u1 + u2 * u2 + u3 * u3 = 1"
    and "u1 * (v2 * w3 - v3 * w2) + u2 * (v3 * w1 - v1 * w3) + u3 * (v1 * w2 - v2 * w1) = 1"
  shows "u1 = v2 * w3 - v3 * w2 \<and> u2 = v3 * w1 - v1 * w3 \<and> u3 = v1 * w2 - v2 * w1"
proof -
  have "(v2 * w3 - v3 * w2 - u1)\<^sup>2 + (v3 * w1 - v1 * w3 - u2)\<^sup>2 + (v1 * w2 - v2 * w1 - u3)\<^sup>2
      = (v1 * v1 + v2 * v2 + v3 * v3) * (w1 * w1 + w2 * w2 + w3 * w3)
        - (v1 * w1 + v2 * w2 + v3 * w3)\<^sup>2
        - 2 * (u1 * (v2 * w3 - v3 * w2) + u2 * (v3 * w1 - v1 * w3) + u3 * (v1 * w2 - v2 * w1))
        + (u1 * u1 + u2 * u2 + u3 * u3)"
    by (simp add: power2_eq_square algebra_simps)
  also have "\<dots> = 0"
    by (simp add: assms)
  finally have "(v2 * w3 - v3 * w2 - u1)\<^sup>2 + (v3 * w1 - v1 * w3 - u2)\<^sup>2
      + (v1 * w2 - v2 * w1 - u3)\<^sup>2 = 0" .
  then have "v2 * w3 - v3 * w2 - u1 = 0 \<and> v3 * w1 - v1 * w3 - u2 = 0 \<and> v1 * w2 - v2 * w1 - u3 = 0"
    by (simp add: sum_power2_eq_zero_iff add_nonneg_eq_0_iff)
  then show ?thesis by simp
qed

lemma is_rotation_33:
  "is_rotation [[a, b, c], [d, e, f], [g, h, i]] \<longleftrightarrow>
     a * a + d * d + g * g = 1 \<and> b * b + e * e + h * h = 1 \<and> c * c + f * f + i * i = 1
     \<and> a * b + d * e + g * h = 0 \<and> a * c + d * f + g * i = 0 \<and> b * c + e * f + h * i = 0
     \<and> a * (e * i - f * h) - b * (d * i - f * g) + c * (d * h - e * g) = 1"
  by (simp add: is_rotation_def col_dot_def det3_def ent_def has_shape_def)

lemma rotation_cofactors:
  assumes "is_rotation [[a, b, c], [d, e, f], [g, h, i]]"
  shows "a = e * i - h * f" "d = h * c - b * i" "g = b * f - e * c"
    and "b = f * g - i * d" "e = i * a - c * g" "h = c * d - f * a"
    and "c = d * h - g * e" "f = g * b - a * h" "i = a * e - d * b"
proof -
  note r = assms [unfolded is_rotation_33]
  have det1: "a * (e * i - h * f) + d * (h * c - b * i) + g * (b * f - e * c) = 1"
    using r by (simp add: algebra_simps)
  have det2: "b * (f * g - i * d) + e * (i * a - c * g) + h * (c * d - f * a) = 1"
    using r by (simp add: algebra_simps)
  have det3: "c * (d * h - g * e) + f * (g * b - a * h) + i * (a * e - d * b) = 1"
    using r by (simp add: algebra_simps)
  have ca: "c * a + f * d + i * g = 0"
    using r by (simp add: algebra_simps)
  from cross_unique [of b e h c f i a d g] r det1
  show "a = e * i - h * f" "d = h * c - b * i" "g = b * f - e * c"
    by simp_all
  from cross_unique [of c f i a d g b e h] r det2 ca
  show "b = f * g - i * d" "e = i * a - c * g" "h = c * d - f * a"
    by simp_all
  from cross_unique [of a d g b e h c f i] r det3
  show "c = d * h - g * e" "f = g * b - a * h" "i = a * e - d * b"
    by simp_all
qed

section \<open>The 6D round trip\<close>

lemma normalize_unit:
  assumes "x * x + y * y + z * z = 1"
  shows "normalize (x, y, z) = (x, y, z)"
proof -
  have "norm3 (x, y, z) = 1"
    using assms by (simp add: norm3_def power2_eq_square)
  then show ?thesis
    by (simp add: normalize_def vdiv_def)
qed

lemma gram_schmidt_rotation:
  assumes "is_rotation [[a, b, c], [d, e, f], [g, h, i]]"
  shows "gram_schmidt [a, b, d, e, g, h] = [[a, b, c], [d, e, f], [g, h, i]]"
proof -
  note r = assms [unfolded is_rotation_33]
  have b1: "normalize (a, d, g) = (a, d, g)"
    using r by (intro normalize_unit) simp
  have dot: "dot3 (a, d, g) (b, e, h) = 0"
    using r by (simp add: dot3_def)
  have b2: "normalize (vsub (b, e, h) (vscale 0 (a, d, g))) = (b, e, h)"
    using r by (simp add: vsub_def vscale_def normalize_unit)
  have b3: "cross3 (a, d, g) (b, e, h) = (c, f, i)"
    using rotation_cofactors(7-9) [OF assms] by (simp add: cross3_def algebra_simps)
  show ?thesis
    by (simp add: gram_schmidt_def b1 dot b2 b3)
qed

lemma rot6d_item_round_trip:
  assumes "is_rotation R"
  shows "length (concat (map (take 2) R)) = 6 \<and> gram_schmidt (concat (map (take 2) R)) = R"
proof -
  from assms have "has_shape 3 3 R"
    by (simp add: is_rotation_def)
  then obtain a b c d e f g h i where R: "R = [[a, b, c], [d, e, f], [g, h, i]]"
    by (rule has_shape_33_cases)
  from assms show ?thesis
    unfolding R by (simp add: gram_schmidt_rotation)
qed

text \<open>
  C5. For every batch of rotation matrices (orthonormal columns, determinant \<open>+1\<close>),
  \<^verbatim>\<open>rotmat_to_rot6d\<close> succeeds and \<^verbatim>\<open>rot6d_to_rotmat\<close> maps its result back to the batch:
  Gram-Schmidt leaves the two orthonormal columns as they are, and their cross product
  is the third column.
\<close>

theorem rot6d_round_trip:
  assumes "\<forall>R \<in> set Rs. is_rotation R"
  shows "\<exists>x. rotmat_to_rot6d Rs = Inr x \<and> rot6d_to_rotmat x = Inr Rs"
proof -
  let ?x = "map (\<lambda>M. concat (map (take 2) M)) Rs"
  have len: "list_all (\<lambda>row. length row = 6) ?x"
    using assms by (simp add: list_all_iff rot6d_item_round_trip)
  then have 1: "rotmat_to_rot6d Rs = Inr ?x"
    by (simp add: rotmat_to_rot6d_def Let_def)
  have "map gram_schmidt ?x = Rs"
    using assms by (simp add: map_idI rot6d_item_round_trip)
  with len have 2: "rot6d_to_rotmat ?x = Inr Rs"
    by (simp add: rot6d_to_rotmat_def)
  from 1 2 show ?thesis by blast
qed

theorem rot6d_round_trip_witness:
  "is_rotation eye3 \<and> is_rotation [[0, - 1, 0], [1, 0, 0], [0, 0, 1]]
   \<and> rotmat_to_rot6d [eye3, [[0, - 1, 0], [1, 0, 0], [0, 0, 1]]]
       = Inr [[1, 0, 0, 1, 0, 0], [0, - 1, 1, 0, 0, 0]]
   \<and> rot6d_to_rotmat [[1, 0, 0, 1, 0, 0], [0, - 1, 1, 0, 0, 0]]
       = Inr [eye3, [[0, - 1, 0], [1, 0, 0], [0, 0, 1]]]"
proof -
  have r1: "is_rotation eye3"
    by (simp add: eye3_def is_rotation_33)
  have r2: "is_rotation [[0, - 1, 0], [1, 0, 0], [0, 0, 1]]"
    by (simp add: is_rotation_33)
  have h: "\<forall>R \<in> set [eye3, [[0, - 1, 0], [1, 0, 0], [0, 0, 1]]]. is_rotation R"
    using r1 r2 by simp
  have x: "rotmat_to_rot6d [eye3, [[0, - 1, 0], [1, 0, 0], [0, 0, 1]]]
       = Inr [[1, 0, 0, 1, 0, 0], [0, - 1, 1, 0, 0, 0]]"
    by (simp add: rotmat_to_rot6d_def eye3_def)
  from rot6d_round_trip [OF h] x r1 r2 show ?thesis
    by simp
qed

section \<open>Matrix to quaternion and back\<close>

lemma rotation_facts:
  assumes "is_rotation [[a, b, c], [d, e, f], [g, h, i]]"
  shows "a\<^sup>2 + d\<^sup>2 + g\<^sup>2 = 1 \<and> b\<^sup>2 + e\<^sup>2 + h\<^sup>2 = 1 \<and> c\<^sup>2 + f\<^sup>2 + i\<^sup>2 = 1
       \<and> a = e * i - h * f \<and> d = h * c - b * i \<and> g = b * f - e * c
       \<and> b = f * g - i * d \<and> e = i * a - c * g \<and> h = c * d - f * a
       \<and> c = d * h - g * e \<and> f = g * b - a * h \<and> i = a * e - d * b"
proof -
  have sq: "a\<^sup>2 + d\<^sup>2 + g\<^sup>2 = 1" "b\<^sup>2 + e\<^sup>2 + h\<^sup>2 = 1" "c\<^sup>2 + f\<^sup>2 + i\<^sup>2 = 1"
    using assms [unfolded is_rotation_33] by (simp_all add: power2_eq_square)
  note co = rotation_cofactors [OF assms]
  show ?thesis
    by (intro conjI) (rule sq co)+
qed

lemma branch0:
  fixes a b c d e f g h i :: real
  assumes r: "a\<^sup>2 + d\<^sup>2 + g\<^sup>2 = 1 \<and> b\<^sup>2 + e\<^sup>2 + h\<^sup>2 = 1 \<and> c\<^sup>2 + f\<^sup>2 + i\<^sup>2 = 1
       \<and> a = e * i - h * f \<and> d = h * c - b * i \<and> g = b * f - e * c
       \<and> b = f * g - i * d \<and> e = i * a - c * g \<and> h = c * d - f * a
       \<and> c = d * h - g * e \<and> f = g * b - a * h \<and> i = a * e - d * b"
    and W: "W = h - f" and X: "X = 1 + a - e - i" and Y: "Y = d + b" and Z: "Z = c + g"
    and t: "t = 1 + a - e - i"
  shows "W\<^sup>2 + X\<^sup>2 + Y\<^sup>2 + Z\<^sup>2 = 4 * t"
    and "W\<^sup>2 + X\<^sup>2 - Y\<^sup>2 - Z\<^sup>2 = 4 * t * a"
    and "2 * (X * Y) - 2 * (W * Z) = 4 * t * b"
    and "2 * (W * Y) + 2 * (X * Z) = 4 * t * c"
    and "2 * (W * Z) + 2 * (X * Y) = 4 * t * d"
    and "W\<^sup>2 - X\<^sup>2 + Y\<^sup>2 - Z\<^sup>2 = 4 * t * e"
    and "2 * (Y * Z) - 2 * (W * X) = 4 * t * f"
    and "2 * (X * Z) - 2 * (W * Y) = 4 * t * g"
    and "2 * (W * X) + 2 * (Y * Z) = 4 * t * h"
    and "W\<^sup>2 - X\<^sup>2 - Y\<^sup>2 + Z\<^sup>2 = 4 * t * i"
  using r unfolding W X Y Z t by algebra+

lemma branch1:
  fixes a b c d e f g h i :: real
  assumes r: "a\<^sup>2 + d\<^sup>2 + g\<^sup>2 = 1 \<and> b\<^sup>2 + e\<^sup>2 + h\<^sup>2 = 1 \<and> c\<^sup>2 + f\<^sup>2 + i\<^sup>2 = 1
       \<and> a = e * i - h * f \<and> d = h * c - b * i \<and> g = b * f - e * c
       \<and> b = f * g - i * d \<and> e = i * a - c * g \<and> h = c * d - f * a
       \<and> c = d * h - g * e \<and> f = g * b - a * h \<and> i = a * e - d * b"
    and W: "W = c - g" and X: "X = d + b" and Y: "Y = 1 - a + e - i" and Z: "Z = h + f"
    and t: "t = 1 - a + e - i"
  shows "W\<^sup>2 + X\<^sup>2 + Y\<^sup>2 + Z\<^sup>2 = 4 * t"
    and "W\<^sup>2 + X\<^sup>2 - Y\<^sup>2 - Z\<^sup>2 = 4 * t * a"
    and "2 * (X * Y) - 2 * (W * Z) = 4 * t * b"
    and "2 * (W * Y) + 2 * (X * Z) = 4 * t * c"
    and "2 * (W * Z) + 2 * (X * Y) = 4 * t * d"
    and "W\<^sup>2 - X\<^sup>2 + Y\<^sup>2 - Z\<^sup>2 = 4 * t * e"
    and "2 * (Y * Z) - 2 * (W * X) = 4 * t * f"
    and "2 * (X * Z) - 2 * (W * Y) = 4 * t * g"
    and "2 * (W * X) + 2 * (Y * Z) = 4 * t * h"
    and "W\<^sup>2 - X\<^sup>2 - Y\<^sup>2 + Z\<^sup>2 = 4 * t * i"
  using r unfolding W X Y Z t by algebra+

lemma branch2:
  fixes a b c d e f g h i :: real
  assumes r: "a\<^sup>2 + d\<^sup>2 + g\<^sup>2 = 1 \<and> b\<^sup>2 + e\<^sup>2 + h\<^sup>2 = 1 \<and> c\<^sup>2 + f\<^sup>2 + i\<^sup>2 = 1
       \<and> a = e * i - h * f \<and> d = h * c - b * i \<and> g = b * f - e * c
       \<and> b = f * g - i * d \<and> e = i * a - c * g \<and> h = c * d - f * a
       \<and> c = d * h - g * e \<and> f = g * b - a * h \<and> i = a * e - d * b"
    and W: "W = d - b" and X: "X = c + g" and Y: "Y = h + f" and Z: "Z = 1 - a - e + i"
    and t: "t = 1 - a - e + i"
  shows "W\<^sup>2 + X\<^sup>2 + Y\<^sup>2 + Z\<^sup>2 = 4 * t"
    and "W\<^sup>2 + X\<^sup>2 - Y\<^sup>2 - Z\<^sup>2 = 4 * t * a"
    and "2 * (X * Y) - 2 * (W * Z) = 4 * t * b"
    and "2 * (W * Y) + 2 * (X * Z) = 4 * t * c"
    and "2 * (W * Z) + 2 * (X * Y) = 4 * t * d"
    and "W\<^sup>2 - X\<^sup>2 + Y\<^sup>2 - Z\<^sup>2 = 4 * t * e"
    and "2 * (Y * Z) - 2 * (W * X) = 4 * t * f"
    and "2 * (X * Z) - 2 * (W * Y) = 4 * t * g"
    and "2 * (W * X) + 2 * (Y * Z) = 4 * t * h"
    and "W\<^sup>2 - X\<^sup>2 - Y\<^sup>2 + Z\<^sup>2 = 4 * t * i"
  using r unfolding W X Y Z t by algebra+

lemma branch3:
  fixes a b c d e f g h i :: real
  assumes r: "a\<^sup>2 + d\<^sup>2 + g\<^sup>2 = 1 \<and> b\<^sup>2 + e\<^sup>2 + h\<^sup>2 = 1 \<and> c\<^sup>2 + f\<^sup>2 + i\<^sup>2 = 1
       \<and> a = e * i - h * f \<and> d = h * c - b * i \<and> g = b * f - e * c
       \<and> b = f * g - i * d \<and> e = i * a - c * g \<and> h = c * d - f * a
       \<and> c = d * h - g * e \<and> f = g * b - a * h \<and> i = a * e - d * b"
    and W: "W = 1 + a + e + i" and X: "X = h - f" and Y: "Y = c - g" and Z: "Z = d - b"
    and t: "t = 1 + a + e + i"
  shows "W\<^sup>2 + X\<^sup>2 + Y\<^sup>2 + Z\<^sup>2 = 4 * t"
    and "W\<^sup>2 + X\<^sup>2 - Y\<^sup>2 - Z\<^sup>2 = 4 * t * a"
    and "2 * (X * Y) - 2 * (W * Z) = 4 * t * b"
    and "2 * (W * Y) + 2 * (X * Z) = 4 * t * c"
    and "2 * (W * Z) + 2 * (X * Y) = 4 * t * d"
    and "W\<^sup>2 - X\<^sup>2 + Y\<^sup>2 - Z\<^sup>2 = 4 * t * e"
    and "2 * (Y * Z) - 2 * (W * X) = 4 * t * f"
    and "2 * (X * Z) - 2 * (W * Y) = 4 * t * g"
    and "2 * (W * X) + 2 * (Y * Z) = 4 * t * h"
    and "W\<^sup>2 - X\<^sup>2 - Y\<^sup>2 + Z\<^sup>2 = 4 * t * i"
  using r unfolding W X Y Z t by algebra+

lemma select_quat_identities:
  assumes rot: "is_rotation [[a, b, c], [d, e, f], [g, h, i]]"
    and sel: "select_quat a b c d e f g h i = ((W, X, Y, Z), t)"
  shows "W\<^sup>2 + X\<^sup>2 + Y\<^sup>2 + Z\<^sup>2 = 4 * t"
    and "W\<^sup>2 + X\<^sup>2 - Y\<^sup>2 - Z\<^sup>2 = 4 * t * a"
    and "2 * (X * Y) - 2 * (W * Z) = 4 * t * b"
    and "2 * (W * Y) + 2 * (X * Z) = 4 * t * c"
    and "2 * (W * Z) + 2 * (X * Y) = 4 * t * d"
    and "W\<^sup>2 - X\<^sup>2 + Y\<^sup>2 - Z\<^sup>2 = 4 * t * e"
    and "2 * (Y * Z) - 2 * (W * X) = 4 * t * f"
    and "2 * (X * Z) - 2 * (W * Y) = 4 * t * g"
    and "2 * (W * X) + 2 * (Y * Z) = 4 * t * h"
    and "W\<^sup>2 - X\<^sup>2 - Y\<^sup>2 + Z\<^sup>2 = 4 * t * i"
proof -
  note r = rotation_facts [OF rot]
  consider (c0) "W = h - f" "X = 1 + a - e - i" "Y = d + b" "Z = c + g" "t = 1 + a - e - i"
    | (c1) "W = c - g" "X = d + b" "Y = 1 - a + e - i" "Z = h + f" "t = 1 - a + e - i"
    | (c2) "W = d - b" "X = c + g" "Y = h + f" "Z = 1 - a - e + i" "t = 1 - a - e + i"
    | (c3) "W = 1 + a + e + i" "X = h - f" "Y = c - g" "Z = d - b" "t = 1 + a + e + i"
    using sel by (auto simp: select_quat_def split: if_splits)
  then have "W\<^sup>2 + X\<^sup>2 + Y\<^sup>2 + Z\<^sup>2 = 4 * t
    \<and> W\<^sup>2 + X\<^sup>2 - Y\<^sup>2 - Z\<^sup>2 = 4 * t * a
    \<and> 2 * (X * Y) - 2 * (W * Z) = 4 * t * b
    \<and> 2 * (W * Y) + 2 * (X * Z) = 4 * t * c
    \<and> 2 * (W * Z) + 2 * (X * Y) = 4 * t * d
    \<and> W\<^sup>2 - X\<^sup>2 + Y\<^sup>2 - Z\<^sup>2 = 4 * t * e
    \<and> 2 * (Y * Z) - 2 * (W * X) = 4 * t * f
    \<and> 2 * (X * Z) - 2 * (W * Y) = 4 * t * g
    \<and> 2 * (W * X) + 2 * (Y * Z) = 4 * t * h
    \<and> W\<^sup>2 - X\<^sup>2 - Y\<^sup>2 + Z\<^sup>2 = 4 * t * i"
  proof cases
    case c0
    show ?thesis by (intro conjI) (rule branch0 [OF r c0])+
  next
    case c1
    show ?thesis by (intro conjI) (rule branch1 [OF r c1])+
  next
    case c2
    show ?thesis by (intro conjI) (rule branch2 [OF r c2])+
  next
    case c3
    show ?thesis by (intro conjI) (rule branch3 [OF r c3])+
  qed
  then show "W\<^sup>2 + X\<^sup>2 + Y\<^sup>2 + Z\<^sup>2 = 4 * t"
    and "W\<^sup>2 + X\<^sup>2 - Y\<^sup>2 - Z\<^sup>2 = 4 * t * a"
    and "2 * (X * Y) - 2 * (W * Z) = 4 * t * b"
    and "2 * (W * Y) + 2 * (X * Z) = 4 * t * c"
    and "2 * (W * Z) + 2 * (X * Y) = 4 * t * d"
    and "W\<^sup>2 - X\<^sup>2 + Y\<^sup>2 - Z\<^sup>2 = 4 * t * e"
    and "2 * (Y * Z) - 2 * (W * X) = 4 * t * f"
    and "2 * (X * Z) - 2 * (W * Y) = 4 * t * g"
    and "2 * (W * X) + 2 * (Y * Z) = 4 * t * h"
    and "W\<^sup>2 - X\<^sup>2 - Y\<^sup>2 + Z\<^sup>2 = 4 * t * i"
    by blast+
qed

lemma q2r_scaled:
  assumes s: "0 < s" and n: "s\<^sup>2 * (W\<^sup>2 + X\<^sup>2 + Y\<^sup>2 + Z\<^sup>2) = 1"
  shows "norm4 (s * W, s * X, s * Y, s * Z) = 1"
    and "quat_to_rotmat_item (s * W, s * X, s * Y, s * Z) =
      Inr [[s\<^sup>2 * (W\<^sup>2 + X\<^sup>2 - Y\<^sup>2 - Z\<^sup>2), s\<^sup>2 * (2 * (X * Y) - 2 * (W * Z)), s\<^sup>2 * (2 * (W * Y) + 2 * (X * Z))],
           [s\<^sup>2 * (2 * (W * Z) + 2 * (X * Y)), s\<^sup>2 * (W\<^sup>2 - X\<^sup>2 + Y\<^sup>2 - Z\<^sup>2), s\<^sup>2 * (2 * (Y * Z) - 2 * (W * X))],
           [s\<^sup>2 * (2 * (X * Z) - 2 * (W * Y)), s\<^sup>2 * (2 * (W * X) + 2 * (Y * Z)), s\<^sup>2 * (W\<^sup>2 - X\<^sup>2 - Y\<^sup>2 + Z\<^sup>2)]]"
proof -
  have "(s * W)\<^sup>2 + (s * X)\<^sup>2 + (s * Y)\<^sup>2 + (s * Z)\<^sup>2 = s\<^sup>2 * (W\<^sup>2 + X\<^sup>2 + Y\<^sup>2 + Z\<^sup>2)"
    by (simp add: power_mult_distrib algebra_simps)
  with n show n1: "norm4 (s * W, s * X, s * Y, s * Z) = 1"
    by (simp add: norm4_def)
  show "quat_to_rotmat_item (s * W, s * X, s * Y, s * Z) =
      Inr [[s\<^sup>2 * (W\<^sup>2 + X\<^sup>2 - Y\<^sup>2 - Z\<^sup>2), s\<^sup>2 * (2 * (X * Y) - 2 * (W * Z)), s\<^sup>2 * (2 * (W * Y) + 2 * (X * Z))],
           [s\<^sup>2 * (2 * (W * Z) + 2 * (X * Y)), s\<^sup>2 * (W\<^sup>2 - X\<^sup>2 + Y\<^sup>2 - Z\<^sup>2), s\<^sup>2 * (2 * (Y * Z) - 2 * (W * X))],
           [s\<^sup>2 * (2 * (X * Z) - 2 * (W * Y)), s\<^sup>2 * (2 * (W * X) + 2 * (Y * Z)), s\<^sup>2 * (W\<^sup>2 - X\<^sup>2 - Y\<^sup>2 + Z\<^sup>2)]]"
    unfolding quat_to_rotmat_item_def n1 Let_def qdiv_def
    by (simp add: power2_eq_square algebra_simps)
qed

lemma r2q_rotation:
  assumes rot: "is_rotation R"
  shows "\<exists>q. rotation_matrix_to_quaternion_item (1 / 1000000) R = Inr q \<and> norm4 q = 1
           \<and> quat_to_rotmat_item q = Inr R"
proof -
  from rot have "has_shape 3 3 R"
    by (simp add: is_rotation_def)
  then obtain a b c d e f g h i where R: "R = [[a, b, c], [d, e, f], [g, h, i]]"
    by (rule has_shape_33_cases)
  obtain p t where pt: "select_quat a b c d e f g h i = (p, t)"
    by (cases "select_quat a b c d e f g h i")
  obtain W X Y Z where p: "p = (W, X, Y, Z)"
    by (cases p) auto
  note sel = pt [unfolded p]
  have t: "0 < t"
    using select_quat_pos [of a b c d e f g h i] by (simp add: sel)
  define s where "s = 1 / (2 * sqrt t)"
  have s: "0 < s" and s2: "s\<^sup>2 * (4 * t) = 1"
    using t by (simp_all add: s_def power_divide)
  note id = select_quat_identities [OF rot [unfolded R] sel]
  have q: "rotation_matrix_to_quaternion_item (1 / 1000000) R = Inr (s * W, s * X, s * Y, s * Z)"
    using t by (simp add: R r2q_33 sel qscale_def qdiv_def s_def)
  have n: "s\<^sup>2 * (W\<^sup>2 + X\<^sup>2 + Y\<^sup>2 + Z\<^sup>2) = 1"
    using s2 by (simp only: id)
  have ent: "s\<^sup>2 * (4 * t * x) = x" for x
    using s2 by (simp add: algebra_simps)
  have "quat_to_rotmat_item (s * W, s * X, s * Y, s * Z) = Inr R"
    unfolding q2r_scaled(2) [OF s n] id ent R ..
  with q q2r_scaled(1) [OF s n] show ?thesis
    by blast
qed

section \<open>Translation estimation\<close>

lemma normal_equations:
  assumes "\<forall>(row, c) \<in> set rows. dot3 row t = c"
  shows "case normal_matrix rows of (r0, r1, r2) \<Rightarrow>
           normal_rhs rows = (dot3 r0 t, dot3 r1 t, dot3 r2 t)"
  using assms
proof (induction rows)
  case Nil
  show ?case
    by (cases t) (simp add: normal_matrix_def normal_rhs_def gram_entry_def dot3_def)
next
  case (Cons rc rows)
  obtain q c where e1: "rc = (q, c)"
    by (cases rc)
  obtain q0 q1 q2 where e2: "q = (q0, q1, q2)"
    by (cases q) auto
  note rc = e1 [unfolded e2]
  obtain t0 t1 t2 where t: "t = (t0, t1, t2)"
    by (cases t) auto
  from Cons.prems have c: "c = q0 * t0 + q1 * t1 + q2 * t2"
    by (simp add: rc t dot3_def)
  from Cons have IH: "case normal_matrix rows of (r0, r1, r2) \<Rightarrow>
           normal_rhs rows = (dot3 r0 t, dot3 r1 t, dot3 r2 t)"
    by simp
  then show ?case
    by (simp add: normal_matrix_def normal_rhs_def gram_entry_def dot3_def rc t c Let_def
        algebra_simps)
qed

lemma solve3_unique:
  assumes "det_rows r0 r1 r2 \<noteq> 0"
  shows "solve3 (r0, r1, r2) (dot3 r0 t, dot3 r1 t, dot3 r2 t) = Inr t"
proof -
  obtain a00 a01 a02 where r0: "r0 = (a00, a01, a02)" by (cases r0) auto
  obtain a10 a11 a12 where r1: "r1 = (a10, a11, a12)" by (cases r1) auto
  obtain a20 a21 a22 where r2: "r2 = (a20, a21, a22)" by (cases r2) auto
  obtain t0 t1 t2 where t: "t = (t0, t1, t2)" by (cases t) auto
  let ?d = "det_rows (a00, a01, a02) (a10, a11, a12) (a20, a21, a22)"
  let ?b0 = "a00 * t0 + a01 * t1 + a02 * t2"
  let ?b1 = "a10 * t0 + a11 * t1 + a12 * t2"
  let ?b2 = "a20 * t0 + a21 * t1 + a22 * t2"
  have d: "?d \<noteq> 0"
    using assms by (simp add: r0 r1 r2)
  have 0: "det_rows (?b0, a01, a02) (?b1, a11, a12) (?b2, a21, a22) = t0 * ?d"
    by (simp add: det_rows_def dot3_def cross3_def algebra_simps)
  have 1: "det_rows (a00, ?b0, a02) (a10, ?b1, a12) (a20, ?b2, a22) = t1 * ?d"
    by (simp add: det_rows_def dot3_def cross3_def algebra_simps)
  have 2: "det_rows (a00, a01, ?b0) (a10, a11, ?b1) (a20, a21, ?b2) = t2 * ?d"
    by (simp add: det_rows_def dot3_def cross3_def algebra_simps)
  show ?thesis
    unfolding r0 r1 r2 t solve3_def dot3_def
    using d by (simp add: 0 1 2 Let_def)
qed

lemma joint_rows_consistent:
  assumes z: "z + t2 \<noteq> 0"
    and u: "u = f * ((x + t0) / (z + t2)) + o0"
    and v: "v = f * ((y + t1) / (z + t2)) + o1"
  shows "\<forall>(row, c) \<in> set (joint_rows f (o0, o1) (x, y, z) (u, v) conf). dot3 row (t0, t1, t2) = c"
proof -
  have 1: "f * t0 + (o0 - u) * t2 = (u - o0) * z - f * x"
    using z unfolding u by (simp add: field_simps)
  have 2: "f * t1 + (o1 - v) * t2 = (v - o1) * z - f * y"
    using z unfolding v by (simp add: field_simps)
  have "sqrt conf * (f * t0) + sqrt conf * ((o0 - u) * t2) = sqrt conf * ((u - o0) * z - f * x)"
    using 1 by (simp only: distrib_left [symmetric])
  moreover have "sqrt conf * (f * t1) + sqrt conf * ((o1 - v) * t2) = sqrt conf * ((v - o1) * z - f * y)"
    using 2 by (simp only: distrib_left [symmetric])
  ultimately show ?thesis
    by (simp add: joint_rows_def dot3_def vscale_def Let_def mult.assoc)
qed

lemma solve3_singular:
  assumes "det_rows r0 r1 r2 = 0"
  shows "solve3 (r0, r1, r2) b = Inl LinAlgError"
  using assms
  by (cases r0, cases r1, cases r2, cases b) (simp add: solve3_def)

lemma project_point_pinhole:
  assumes "project_point [[f, 0, cx], [0, f, cy], [0, 0, 1]] eye3 (t0, t1, t2) False (x, y, z)
             = Inr [u, v]"
  shows "z + t2 \<noteq> 0 \<and> u = f * ((x + t0) / (z + t2)) + cx \<and> v = f * ((y + t1) / (z + t2)) + cy"
  using assms
  by (simp add: project_point_def vadd_def mat_vec_def eye3_def ent_def split: if_splits)

lemma weighted_system_consistent:
  assumes proj: "map (project_point [[f, 0, cx], [0, f, cy], [0, 0, 1]] eye3 t False) S
                   = map (\<lambda>(u, v). Inr [u, v]) joints_2d"
  shows "\<forall>(row, c) \<in> set (concat (map (\<lambda>(Si, ji, conf). joint_rows f (cx, cy) Si ji conf)
                                 (zip S (zip joints_2d joints_conf)))). dot3 row t = c"
proof -
  obtain t0 t1 t2 where t: "t = (t0, t1, t2)"
    by (cases t) auto
  have len: "length S = length joints_2d"
    using proj by (rule map_eq_imp_length_eq)
  have item: "\<forall>(row, c) \<in> set (joint_rows f (cx, cy) Si ji conf). dot3 row t = c"
    if "(Si, ji, conf) \<in> set (zip S (zip joints_2d joints_conf))" for Si ji conf
  proof -
    from that obtain k where k: "k < length S" "k < length joints_2d" "S ! k = Si" "joints_2d ! k = ji"
      by (auto simp: in_set_zip)
    obtain x y z where Si: "Si = (x, y, z)" by (cases Si) auto
    obtain u v where ji: "ji = (u, v)" by (cases ji) auto
    from proj have "map (project_point [[f, 0, cx], [0, f, cy], [0, 0, 1]] eye3 t False) S ! k
                   = map (\<lambda>(u, v). Inr [u, v]) joints_2d ! k"
      by simp
    with k have "project_point [[f, 0, cx], [0, f, cy], [0, 0, 1]] eye3 (t0, t1, t2) False (x, y, z)
                   = Inr [u, v]"
      by (simp add: Si ji t)
    from project_point_pinhole [OF this] show ?thesis
      unfolding Si ji t by (intro joint_rows_consistent) simp_all
  qed
  show ?thesis
    using item by fastforce
qed

lemma spread_Cons:
  fixes x :: real
  shows "real (length (x # xs)) * (\<Sum>y\<leftarrow>x # xs. y\<^sup>2) - (sum_list (x # xs))\<^sup>2
       = (real (length xs) * (\<Sum>y\<leftarrow>xs. y\<^sup>2) - (sum_list xs)\<^sup>2) + (\<Sum>y\<leftarrow>xs. (y - x)\<^sup>2)"
proof -
  have "(\<Sum>y\<leftarrow>xs. (y - x)\<^sup>2) = (\<Sum>y\<leftarrow>xs. y\<^sup>2) - 2 * x * sum_list xs + real (length xs) * x\<^sup>2"
    by (induction xs) (simp_all add: power2_eq_square algebra_simps)
  then show ?thesis
    by (simp add: power2_eq_square algebra_simps)
qed

lemma spread_nonneg:
  fixes xs :: "real list"
  shows "0 \<le> real (length xs) * (\<Sum>y\<leftarrow>xs. y\<^sup>2) - (sum_list xs)\<^sup>2"
proof (induction xs)
  case Nil
  show ?case by simp
next
  case (Cons x xs)
  have "0 \<le> (\<Sum>y\<leftarrow>xs. (y - x)\<^sup>2)"
    by (rule sum_list_nonneg) auto
  with Cons show ?case
    unfolding spread_Cons by linarith
qed

lemma spread_zero:
  fixes xs :: "real list"
  assumes "real (length xs) * (\<Sum>y\<leftarrow>xs. y\<^sup>2) - (sum_list xs)\<^sup>2 = 0"
  shows "\<forall>y \<in> set xs. y = hd xs"
  using assms
proof (induction xs)
  case Nil
  show ?case by simp
next
  case (Cons x xs)
  have nn: "0 \<le> (\<Sum>y\<leftarrow>xs. (y - x)\<^sup>2)"
    by (rule sum_list_nonneg) auto
  from Cons.prems have "(real (length xs) * (\<Sum>y\<leftarrow>xs. y\<^sup>2) - (sum_list xs)\<^sup>2)
      + (\<Sum>y\<leftarrow>xs. (y - x)\<^sup>2) = 0"
    unfolding spread_Cons .
  with spread_nonneg [of xs] nn have "(\<Sum>y\<leftarrow>xs. (y - x)\<^sup>2) = 0"
    by linarith
  then have "\<forall>v \<in> set (map (\<lambda>y. (y - x)\<^sup>2) xs). v = 0"
    by (subst (asm) sum_list_nonneg_eq_0_iff) auto
  then show ?case
    by auto
qed

lemma normal_matrix_unit_conf:
  fixes f o0 o1 :: real
  assumes "\<forall>(Si, ji, conf) \<in> set L. conf = 1"
  shows "normal_matrix (concat (map (\<lambda>(Si, ji, conf). joint_rows f (o0, o1) Si ji conf) L))
       = ((real (length L) * f\<^sup>2, 0, f * (\<Sum>(Si, ji, conf)\<leftarrow>L. o0 - fst ji)),
          (0, real (length L) * f\<^sup>2, f * (\<Sum>(Si, ji, conf)\<leftarrow>L. o1 - snd ji)),
          (f * (\<Sum>(Si, ji, conf)\<leftarrow>L. o0 - fst ji), f * (\<Sum>(Si, ji, conf)\<leftarrow>L. o1 - snd ji),
           (\<Sum>(Si, ji, conf)\<leftarrow>L. (o0 - fst ji)\<^sup>2) + (\<Sum>(Si, ji, conf)\<leftarrow>L. (o1 - snd ji)\<^sup>2)))"
  using assms
proof (induction L)
  case Nil
  show ?case
    by (simp add: normal_matrix_def gram_entry_def)
next
  case (Cons l L)
  obtain Si ji conf where l: "l = (Si, ji, conf)"
    by (cases l)
  obtain x y z where Si: "Si = (x, y, z)"
    by (cases Si)
  obtain u v where ji: "ji = (u, v)"
    by (cases ji)
  from Cons.prems have conf: "conf = 1"
    by (simp add: l)
  from Cons have IH: "normal_matrix (concat (map (\<lambda>(Si, ji, conf). joint_rows f (o0, o1) Si ji conf) L))
       = ((real (length L) * f\<^sup>2, 0, f * (\<Sum>(Si, ji, conf)\<leftarrow>L. o0 - fst ji)),
          (0, real (length L) * f\<^sup>2, f * (\<Sum>(Si, ji, conf)\<leftarrow>L. o1 - snd ji)),
          (f * (\<Sum>(Si, ji, conf)\<leftarrow>L. o0 - fst ji), f * (\<Sum>(Si, ji, conf)\<leftarrow>L. o1 - snd ji),
           (\<Sum>(Si, ji, conf)\<leftarrow>L. (o0 - fst ji)\<^sup>2) + (\<Sum>(Si, ji, conf)\<leftarrow>L. (o1 - snd ji)\<^sup>2)))"
    by simp
  then show ?case
    by (simp add: normal_matrix_def gram_entry_def joint_rows_def vscale_def Let_def l Si ji conf
        power2_eq_square algebra_simps)
qed

lemma det_normal_unit_conf:
  fixes f n A B Qa Qb :: real
  shows "det_rows (n * f\<^sup>2, 0, f * A) (0, n * f\<^sup>2, f * B) (f * A, f * B, Qa + Qb)
       = n * f ^ 4 * ((n * Qa - A\<^sup>2) + (n * Qb - B\<^sup>2))"
  by (simp add: det_rows_def dot3_def cross3_def power2_eq_square power4_eq_xxxx algebra_simps)

lemma same_image_collinear:
  fixes f :: real
  assumes f: "f \<noteq> 0"
    and a: "project_point [[f, 0, cx], [0, f, cy], [0, 0, 1]] eye3 t False a = Inr [u, v]"
    and b: "project_point [[f, 0, cx], [0, f, cy], [0, 0, 1]] eye3 t False b = Inr [u, v]"
    and c: "project_point [[f, 0, cx], [0, f, cy], [0, 0, 1]] eye3 t False c = Inr [u, v]"
  shows "cross3 (vsub b a) (vsub c a) = (0, 0, 0)"
proof -
  obtain t0 t1 t2 where t: "t = (t0, t1, t2)" by (cases t)
  obtain xa ya za where a': "a = (xa, ya, za)" by (cases a)
  obtain xb yb zb where b': "b = (xb, yb, zb)" by (cases b)
  obtain xc yc zc where c': "c = (xc, yc, zc)" by (cases c)
  define w0 w1 where "w0 = (u - cx) / f" and "w1 = (v - cy) / f"
  have pt: "x = (z + t2) * w0 - t0 \<and> y = (z + t2) * w1 - t1"
    if "project_point [[f, 0, cx], [0, f, cy], [0, 0, 1]] eye3 (t0, t1, t2) False (x, y, z) = Inr [u, v]"
    for x y z
  proof -
    from project_point_pinhole [OF that]
    have z: "z + t2 \<noteq> 0" and u: "u = f * ((x + t0) / (z + t2)) + cx"
      and v: "v = f * ((y + t1) / (z + t2)) + cy"
      by simp_all
    have "w0 = (x + t0) / (z + t2)"
      unfolding w0_def u using f by simp
    then have "(z + t2) * w0 = x + t0"
      using z by simp
    moreover have "w1 = (y + t1) / (z + t2)"
      unfolding w1_def v using f by simp
    then have "(z + t2) * w1 = y + t1"
      using z by simp
    ultimately show ?thesis by simp
  qed
  from pt [OF a [unfolded t a']]
  have ea: "xa = (za + t2) * w0 - t0" "ya = (za + t2) * w1 - t1"
    by simp_all
  from pt [OF b [unfolded t b']]
  have eb: "xb = (zb + t2) * w0 - t0" "yb = (zb + t2) * w1 - t1"
    by simp_all
  from pt [OF c [unfolded t c']]
  have ec: "xc = (zc + t2) * w0 - t0" "yc = (zc + t2) * w1 - t1"
    by simp_all
  show ?thesis
    unfolding a' b' c' ea eb ec
    by (simp add: cross3_def vsub_def algebra_simps)
qed

lemma singular_same_image:
  fixes f o0 o1 :: real
  assumes f: "f \<noteq> 0" and ne: "L \<noteq> []"
    and conf: "\<forall>(Si, ji, conf) \<in> set L. conf = 1"
    and det: "case normal_matrix (concat (map (\<lambda>(Si, ji, conf). joint_rows f (o0, o1) Si ji conf) L))
              of (r0, r1, r2) \<Rightarrow> det_rows r0 r1 r2 = 0"
  shows "\<forall>l \<in> set L. fst (snd l) = fst (snd (hd L))"
proof -
  define as where "as = map (\<lambda>l. o0 - fst (fst (snd l))) L"
  define bs where "bs = map (\<lambda>l. o1 - snd (fst (snd l))) L"
  define n where "n = real (length L)"
  have n: "0 < n"
    using ne by (simp add: n_def)
  have sums: "(\<Sum>(Si, ji, conf)\<leftarrow>L. o0 - fst ji) = sum_list as"
    "(\<Sum>(Si, ji, conf)\<leftarrow>L. o1 - snd ji) = sum_list bs"
    "(\<Sum>(Si, ji, conf)\<leftarrow>L. (o0 - fst ji)\<^sup>2) = (\<Sum>y\<leftarrow>as. y\<^sup>2)"
    "(\<Sum>(Si, ji, conf)\<leftarrow>L. (o1 - snd ji)\<^sup>2) = (\<Sum>y\<leftarrow>bs. y\<^sup>2)"
    by (simp_all add: as_def bs_def o_def split_def)
  from det have "n * f ^ 4 * ((n * (\<Sum>y\<leftarrow>as. y\<^sup>2) - (sum_list as)\<^sup>2)
      + (n * (\<Sum>y\<leftarrow>bs. y\<^sup>2) - (sum_list bs)\<^sup>2)) = 0"
    unfolding normal_matrix_unit_conf [OF conf] sums n_def [symmetric]
    by (simp only: prod.case det_normal_unit_conf)
  with n f have z: "(n * (\<Sum>y\<leftarrow>as. y\<^sup>2) - (sum_list as)\<^sup>2)
      + (n * (\<Sum>y\<leftarrow>bs. y\<^sup>2) - (sum_list bs)\<^sup>2) = 0"
    by simp
  have la: "n = real (length as)" and lb: "n = real (length bs)"
    by (simp_all add: n_def as_def bs_def)
  have "0 \<le> n * (\<Sum>y\<leftarrow>as. y\<^sup>2) - (sum_list as)\<^sup>2"
    unfolding la by (rule spread_nonneg)
  moreover have "0 \<le> n * (\<Sum>y\<leftarrow>bs. y\<^sup>2) - (sum_list bs)\<^sup>2"
    unfolding lb by (rule spread_nonneg)
  ultimately have "n * (\<Sum>y\<leftarrow>as. y\<^sup>2) - (sum_list as)\<^sup>2 = 0"
    and "n * (\<Sum>y\<leftarrow>bs. y\<^sup>2) - (sum_list bs)\<^sup>2 = 0"
    using z by linarith+
  then have za: "real (length as) * (\<Sum>y\<leftarrow>as. y\<^sup>2) - (sum_list as)\<^sup>2 = 0"
    and zb: "real (length bs) * (\<Sum>y\<leftarrow>bs. y\<^sup>2) - (sum_list bs)\<^sup>2 = 0"
    by (simp_all only: la [symmetric] lb [symmetric])
  have a: "\<forall>y \<in> set as. y = hd as"
    using za by (rule spread_zero)
  have b: "\<forall>y \<in> set bs. y = hd bs"
    using zb by (rule spread_zero)
  show ?thesis
  proof
    fix l assume l: "l \<in> set L"
    have ha: "hd as = o0 - fst (fst (snd (hd L)))" and hb: "hd bs = o1 - snd (fst (snd (hd L)))"
      using ne by (simp_all add: as_def bs_def hd_map)
    have "o0 - fst (fst (snd l)) \<in> set as"
      unfolding as_def using l by (rule imageI [of l "set L", folded set_map])
    with a have "o0 - fst (fst (snd l)) = hd as"
      by blast
    then have "fst (fst (snd l)) = fst (fst (snd (hd L)))"
      unfolding ha by linarith
    moreover have "o1 - snd (fst (snd l)) \<in> set bs"
      unfolding bs_def using l by (rule imageI [of l "set L", folded set_map])
    with b have "o1 - snd (fst (snd l)) = hd bs"
      by blast
    then have "snd (fst (snd l)) = snd (fst (snd (hd L)))"
      unfolding hb by linarith
    ultimately show "fst (snd l) = fst (snd (hd L))"
      by (simp add: prod_eq_iff)
  qed
qed

lemma non_collinear_nonsingular:
  fixes f :: real
  assumes f: "f \<noteq> 0" and nc: "non_collinear S"
    and m: "map (project_point [[f, 0, cx], [0, f, cy], [0, 0, 1]] eye3 t False) S
              = map (\<lambda>(u, v). Inr [u, v]) joints_2d"
    and conf: "joints_conf = replicate (length S) 1"
  shows "case normal_matrix (concat (map (\<lambda>(Si, ji, conf). joint_rows f (cx, cy) Si ji conf)
                                      (zip S (zip joints_2d joints_conf))))
         of (r0, r1, r2) \<Rightarrow> det_rows r0 r1 r2 \<noteq> 0"
proof -
  define L where "L = zip S (zip joints_2d joints_conf)"
  obtain r0 r1 r2
    where A: "normal_matrix (concat (map (\<lambda>(Si, ji, conf). joint_rows f (cx, cy) Si ji conf) L))
                = (r0, r1, r2)"
    by (metis prod_cases3)
  have "det_rows r0 r1 r2 \<noteq> 0"
  proof
  assume "det_rows r0 r1 r2 = 0"
  then have det: "case normal_matrix (concat (map (\<lambda>(Si, ji, conf). joint_rows f (cx, cy) Si ji conf) L))
              of (r0, r1, r2) \<Rightarrow> det_rows r0 r1 r2 = 0"
    by (simp add: A)
  have len: "length S = length joints_2d"
    using m by (rule map_eq_imp_length_eq)
  have len2: "length joints_conf = length S"
    by (simp add: conf)
  from nc have Sne: "S \<noteq> []"
    by (auto simp: non_collinear_def)
  then have ne: "L \<noteq> []"
    using len len2 by (cases S; cases joints_2d; cases joints_conf) (simp_all add: L_def)
  have c1: "\<forall>(Si, ji, conf) \<in> set L. conf = 1"
  proof -
    have "conf' = 1" if "(Si, ji, conf') \<in> set L" for Si ji conf'
    proof -
      from that have "(ji, conf') \<in> set (zip joints_2d joints_conf)"
        unfolding L_def by (rule set_zip_rightD)
      then have "conf' \<in> set joints_conf"
        by (rule set_zip_rightD)
      then show ?thesis
        by (simp add: conf)
    qed
    then show ?thesis by blast
  qed
  obtain u v where j0: "fst (snd (hd L)) = (u, v)"
    by (cases "fst (snd (hd L))")
  from singular_same_image [OF f ne c1 det]
  have same: "\<forall>l \<in> set L. fst (snd l) = (u, v)"
    by (simp add: j0)
  have img: "project_point [[f, 0, cx], [0, f, cy], [0, 0, 1]] eye3 t False a = Inr [u, v]"
    if "a \<in> set S" for a
  proof -
    from that obtain k where k: "k < length S" "S ! k = a"
      by (auto simp: in_set_conv_nth)
    have kL: "k < length L"
      using k len len2 by (simp add: L_def)
    then have "L ! k \<in> set L"
      by (rule nth_mem)
    with same have "fst (snd (L ! k)) = (u, v)"
      by blast
    moreover have "L ! k = (S ! k, joints_2d ! k, joints_conf ! k)"
      using k len len2 by (simp add: L_def)
    ultimately have j: "joints_2d ! k = (u, v)"
      by simp
    from m have "map (project_point [[f, 0, cx], [0, f, cy], [0, 0, 1]] eye3 t False) S ! k
        = map (\<lambda>(u, v). Inr [u, v]) joints_2d ! k"
      by simp
    with k len show ?thesis
      by (simp add: j)
  qed
  have "cross3 (vsub b a) (vsub c a) = (0, 0, 0)" if "a \<in> set S" "b \<in> set S" "c \<in> set S" for a b c
    using f img [OF that(1)] img [OF that(2)] img [OF that(3)] by (rule same_image_collinear)
  then have "\<not> non_collinear S"
    by (simp add: non_collinear_def list_ex_iff)
  with nc show False by simp
  qed
  then show ?thesis
    by (simp add: A [unfolded L_def])
qed

text \<open>
  C4. Let the 2D observations be the exact pinhole projections of the joints \<open>S\<close> moved by
  \<open>t\<close>, with identity rotation, focal length \<open>f\<close> and the image centre as camera centre,
  and let every confidence be 1. Then \<^verbatim>\<open>estimate_translation_np\<close> returns \<open>t\<close> exactly
  whenever the matrix of the normal equations is nonsingular; when it is singular the
  linear solve fails. The matrix is nonsingular when \<open>f\<close> is not zero and the joints are
  not collinear, whatever their number.
\<close>

theorem estimate_translation_np_recovers:
  assumes proj: "perspective_projection
                   [(S, eye3, t, Some f, Some (snd img_size / 2, fst img_size / 2), None)] False
                 = [Inr (map (\<lambda>(u, v). Inr [u, v]) joints_2d)]"
    and conf: "joints_conf = replicate (length S) 1"
  shows "estimate_translation_np S joints_2d joints_conf f img_size =
           (case normal_matrix (weighted_system S joints_2d joints_conf f img_size) of
              (r0, r1, r2) \<Rightarrow> if det_rows r0 r1 r2 = 0 then Inl LinAlgError else Inr t)
       \<and> (f \<noteq> 0 \<and> non_collinear S
            \<longrightarrow> estimate_translation_np S joints_2d joints_conf f img_size = Inr t)"
proof -
  let ?cx = "snd img_size / 2" and ?cy = "fst img_size / 2"
  let ?rows = "weighted_system S joints_2d joints_conf f img_size"
  from proj have m: "map (project_point [[f, 0, ?cx], [0, f, ?cy], [0, 0, 1]] eye3 t False) S
                   = map (\<lambda>(u, v). Inr [u, v]) joints_2d"
    by (simp add: perspective_projection_def perspective_projection_item_def intrinsic_matrix_def
        eye3_def has_shape_def split: if_splits)
  then have len: "length joints_2d = length S"
    using map_eq_imp_length_eq by fastforce
  have len2: "length joints_conf = length S" and nonneg: "\<not> list_ex (\<lambda>c. c < 0) joints_conf"
    by (simp_all add: conf list_ex_iff)
  have cons: "\<forall>(row, c) \<in> set ?rows. dot3 row t = c"
    unfolding weighted_system_def Let_def by (rule weighted_system_consistent [OF m])
  obtain r0 r1 r2 where A: "normal_matrix ?rows = (r0, r1, r2)"
    by (cases "normal_matrix ?rows") auto
  from normal_equations [OF cons] have b: "normal_rhs ?rows = (dot3 r0 t, dot3 r1 t, dot3 r2 t)"
    by (simp add: A)
  have est: "estimate_translation_np S joints_2d joints_conf f img_size
               = solve3 (r0, r1, r2) (dot3 r0 t, dot3 r1 t, dot3 r2 t)"
    using len len2 nonneg by (simp add: estimate_translation_np_def Let_def A b)
  have 1: "estimate_translation_np S joints_2d joints_conf f img_size =
           (case normal_matrix ?rows of
              (r0, r1, r2) \<Rightarrow> if det_rows r0 r1 r2 = 0 then Inl LinAlgError else Inr t)"
    unfolding est A by (simp add: solve3_singular solve3_unique)
  have 2: "estimate_translation_np S joints_2d joints_conf f img_size = Inr t"
    if "f \<noteq> 0" "non_collinear S"
  proof -
    from non_collinear_nonsingular [OF that m conf] have "det_rows r0 r1 r2 \<noteq> 0"
      using A by (simp add: weighted_system_def Let_def)
    then show ?thesis
      unfolding est by (rule solve3_unique)
  qed
  from 1 2 show ?thesis by blast
qed

theorem estimate_translation_np_recovers_witness:
  "perspective_projection
     [([(0, 0, 1), (1, 0, 1), (0, 1, 1), (1, 1, 3), (- 1, 0, 3), (0, - 1, 1)], eye3, (1, - 1, 1),
       Some 2, Some (snd (4, 2) / 2, fst (4 :: real, 2 :: real) / 2), None)] False
     = [Inr (map (\<lambda>(u, v). Inr [u, v]) [(2, 1), (3, 1), (2, 2), (2, 2), (1, 3 / 2), (2, 0)])]
   \<and> (2 :: real) \<noteq> 0
   \<and> non_collinear [(0, 0, 1), (1, 0, 1), (0, 1, 1), (1, 1, 3), (- 1, 0, 3), (0, - 1, 1)]
   \<and> normal_matrix (weighted_system [(0, 0, 1), (1, 0, 1), (0, 1, 1), (1, 1, 3), (- 1, 0, 3), (0, - 1, 1)]
        [(2, 1), (3, 1), (2, 2), (2, 2), (1, 3 / 2), (2, 0)] [1, 1, 1, 1, 1, 1] 2 (4, 2))
      = ((24, 0, - 12), (0, 24, 9), (- 12, 9, 57 / 4))
   \<and> det_rows (24, 0, - 12) (0, 24, 9) (- 12, 9, 57 / 4) = (2808 :: real)
   \<and> estimate_translation_np [(0, 0, 1), (1, 0, 1), (0, 1, 1), (1, 1, 3), (- 1, 0, 3), (0, - 1, 1)]
        [(2, 1), (3, 1), (2, 2), (2, 2), (1, 3 / 2), (2, 0)] [1, 1, 1, 1, 1, 1] 2 (4, 2)
      = Inr (1, - 1, 1)"
proof -
  let ?S = "[(0, 0, 1), (1, 0, 1), (0, 1, 1), (1, 1, 3), (- 1, 0, 3), (0, - 1, 1)] :: vec3 list"
  let ?J = "[(2, 1), (3, 1), (2, 2), (2, 2), (1, 3 / 2), (2, 0)] :: (real \<times> real) list"
  have proj: "perspective_projection
     [(?S, eye3, (1, - 1, 1), Some 2, Some (snd (4, 2) / 2, fst (4 :: real, 2 :: real) / 2), None)] False
     = [Inr (map (\<lambda>(u, v). Inr [u, v]) ?J)]"
    by (simp add: perspective_projection_def perspective_projection_item_def intrinsic_matrix_def
        project_point_def vadd_def mat_vec_def eye3_def ent_def has_shape_def)
  have conf: "[1, 1, 1, 1, 1, 1] = replicate (length ?S) (1 :: real)"
    by (simp add: numeral_eq_Suc)
  have "cross3 (vsub (1, 0, 1) (0, 0, 1)) (vsub (0, 1, 1) (0, 0, 1)) \<noteq> (0 :: real, 0 :: real, 0 :: real)"
    by (simp add: cross3_def vsub_def)
  then have nc: "non_collinear ?S"
    unfolding non_collinear_def list_ex_iff
    by (intro bexI [of _ "(0, 0, 1)"] bexI [of _ "(1, 0, 1)"] bexI [of _ "(0, 1, 1)"]) simp_all
  have A: "normal_matrix (weighted_system ?S ?J [1, 1, 1, 1, 1, 1] 2 (4, 2))
             = ((24, 0, - 12), (0, 24, 9), (- 12, 9, 57 / 4))"
    by (simp add: normal_matrix_def weighted_system_def joint_rows_def gram_entry_def vscale_def
        Let_def)
  have det: "det_rows (24, 0, - 12) (0, 24, 9) (- 12, 9, 57 / 4) = (2808 :: real)"
    by (simp add: det_rows_def dot3_def cross3_def)
  have "estimate_translation_np ?S ?J [1, 1, 1, 1, 1, 1] 2 (4, 2) = Inr (1, - 1, 1)"
    using estimate_translation_np_recovers [OF proj conf, THEN conjunct2] nc
    by simp
  with proj nc A det show ?thesis
    by simp
qed

section \<open>Perturbation of the quaternion to matrix map\<close>

lemma q2r_poly:
  assumes N: "N = W\<^sup>2 + X\<^sup>2 + Y\<^sup>2 + Z\<^sup>2" and pos: "0 < N"
  shows "quat_to_rotmat_item (W, X, Y, Z) =
      Inr [[(W\<^sup>2 + X\<^sup>2 - Y\<^sup>2 - Z\<^sup>2) / N, (2 * (X * Y) - 2 * (W * Z)) / N, (2 * (W * Y) + 2 * (X * Z)) / N],
           [(2 * (W * Z) + 2 * (X * Y)) / N, (W\<^sup>2 - X\<^sup>2 + Y\<^sup>2 - Z\<^sup>2) / N, (2 * (Y * Z) - 2 * (W * X)) / N],
           [(2 * (X * Z) - 2 * (W * Y)) / N, (2 * (W * X) + 2 * (Y * Z)) / N, (W\<^sup>2 - X\<^sup>2 - Y\<^sup>2 + Z\<^sup>2) / N]]"
proof -
  define n where "n = sqrt N"
  have n: "0 < n" and nn: "n * n = N"
    using pos by (simp_all add: n_def)
  have norm: "norm4 (W, X, Y, Z) = n"
    by (simp add: norm4_def n_def N)
  have sq: "(u / n)\<^sup>2 = u\<^sup>2 / N" for u
    by (simp add: power_divide power2_eq_square nn)
  have pr: "u / n * (v / n) = u * v / N" for u v
    by (simp add: nn)
  show ?thesis
    unfolding quat_to_rotmat_item_def norm Let_def qdiv_def
    using n by (simp add: sq pr nn diff_divide_distrib add_divide_distrib)
qed

lemma prod_close:
  fixes u v u' v' \<eta> :: real
  assumes "\<bar>u\<bar> \<le> 1" "\<bar>v\<bar> \<le> 1" "\<bar>u' - u\<bar> \<le> \<eta>" "\<bar>v' - v\<bar> \<le> \<eta>" "\<eta> \<le> 1"
  shows "\<bar>u' * v' - u * v\<bar> \<le> 3 * \<eta>"
proof -
  have \<eta>: "0 \<le> \<eta>" using assms(3) by linarith
  have v': "\<bar>v'\<bar> \<le> 2" using assms by linarith
  have "u' * v' - u * v = (u' - u) * v' + u * (v' - v)"
    by (simp add: algebra_simps)
  then have "\<bar>u' * v' - u * v\<bar> \<le> \<bar>u' - u\<bar> * \<bar>v'\<bar> + \<bar>u\<bar> * \<bar>v' - v\<bar>"
    by (metis abs_mult abs_triangle_ineq)
  also have "\<dots> \<le> \<eta> * 2 + 1 * \<eta>"
    using assms v' \<eta> by (intro add_mono mult_mono) simp_all
  finally show ?thesis by simp
qed

lemma ratio_close:
  fixes P P' N \<delta> :: real
  assumes "\<bar>P' - P\<bar> \<le> \<delta>" "\<bar>N - 1\<bar> \<le> \<delta>" "\<bar>P\<bar> \<le> 1" "\<delta> \<le> 1 / 4"
  shows "\<bar>P' / N - P\<bar> \<le> 4 * \<delta>"
proof -
  have \<delta>: "0 \<le> \<delta>" using assms(1) by linarith
  have N: "3 / 4 \<le> N" using assms by linarith
  then have Npos: "0 < N" by linarith
  have "P' / N - P = (P' - P * N) / N"
    using Npos by (simp add: field_simps)
  moreover have "\<bar>P' - P * N\<bar> \<le> 2 * \<delta>"
  proof -
    have "P' - P * N = (P' - P) + P * (1 - N)" by (simp add: algebra_simps)
    then have "\<bar>P' - P * N\<bar> \<le> \<bar>P' - P\<bar> + \<bar>P\<bar> * \<bar>1 - N\<bar>"
      by (metis abs_mult abs_triangle_ineq)
    also have "\<dots> \<le> \<delta> + 1 * \<delta>"
      using assms \<delta> by (intro add_mono mult_mono) simp_all
    finally show ?thesis by simp
  qed
  ultimately have "\<bar>P' / N - P\<bar> \<le> 2 * \<delta> / N"
    using Npos by (simp add: divide_right_mono)
  also have "\<dots> \<le> 2 * \<delta> / (3 / 4)"
    using N \<delta> by (intro divide_left_mono) simp_all
  also have "\<dots> \<le> 4 * \<delta>"
    using \<delta> by simp
  finally show ?thesis .
qed

lemma abs_two_prod_le: "\<bar>2 * (x * y)\<bar> \<le> x\<^sup>2 + y\<^sup>2" for x y :: real
proof -
  have "0 \<le> (x - y)\<^sup>2" "0 \<le> (x + y)\<^sup>2" by simp_all
  then show ?thesis
    by (simp add: power2_eq_square algebra_simps abs_le_iff)
qed

lemma q2r_perturb:
  fixes w x y z w' x' y' z' \<eta> :: real
  assumes unit: "w\<^sup>2 + x\<^sup>2 + y\<^sup>2 + z\<^sup>2 = 1"
    and d: "\<bar>w' - w\<bar> \<le> \<eta>" "\<bar>x' - x\<bar> \<le> \<eta>" "\<bar>y' - y\<bar> \<le> \<eta>" "\<bar>z' - z\<bar> \<le> \<eta>"
    and \<eta>: "\<eta> \<le> 1 / 48"
  shows "\<exists>M M'. quat_to_rotmat_item (w, x, y, z) = Inr M
           \<and> quat_to_rotmat_item (w', x', y', z') = Inr M' \<and> mat_close (48 * \<eta>) M' M"
proof -
  have \<eta>1: "\<eta> \<le> 1" and \<eta>0: "0 \<le> \<eta>" and \<delta>: "12 * \<eta> \<le> 1 / 4"
    using \<eta> d(1) by linarith+
  have sq: "0 \<le> w\<^sup>2" "0 \<le> x\<^sup>2" "0 \<le> y\<^sup>2" "0 \<le> z\<^sup>2"
    by simp_all
  have "w\<^sup>2 \<le> 1" "x\<^sup>2 \<le> 1" "y\<^sup>2 \<le> 1" "z\<^sup>2 \<le> 1"
    using unit sq by linarith+
  then have b: "\<bar>w\<bar> \<le> 1" "\<bar>x\<bar> \<le> 1" "\<bar>y\<bar> \<le> 1" "\<bar>z\<bar> \<le> 1"
    by (simp_all add: abs_square_le_1)
  note pc = prod_close [OF _ _ _ _ \<eta>1]
  have ww: "\<bar>w'\<^sup>2 - w\<^sup>2\<bar> \<le> 3 * \<eta>" and xx: "\<bar>x'\<^sup>2 - x\<^sup>2\<bar> \<le> 3 * \<eta>"
    and yy: "\<bar>y'\<^sup>2 - y\<^sup>2\<bar> \<le> 3 * \<eta>" and zz: "\<bar>z'\<^sup>2 - z\<^sup>2\<bar> \<le> 3 * \<eta>"
    using pc [OF b(1) b(1) d(1) d(1)] pc [OF b(2) b(2) d(2) d(2)]
      pc [OF b(3) b(3) d(3) d(3)] pc [OF b(4) b(4) d(4) d(4)]
    by (simp_all add: power2_eq_square)
  have wx: "\<bar>w' * x' - w * x\<bar> \<le> 3 * \<eta>" and wy: "\<bar>w' * y' - w * y\<bar> \<le> 3 * \<eta>"
    and wz: "\<bar>w' * z' - w * z\<bar> \<le> 3 * \<eta>" and xy: "\<bar>x' * y' - x * y\<bar> \<le> 3 * \<eta>"
    and xz: "\<bar>x' * z' - x * z\<bar> \<le> 3 * \<eta>" and yz: "\<bar>y' * z' - y * z\<bar> \<le> 3 * \<eta>"
    using pc [OF b(1) b(2) d(1) d(2)] pc [OF b(1) b(3) d(1) d(3)] pc [OF b(1) b(4) d(1) d(4)]
      pc [OF b(2) b(3) d(2) d(3)] pc [OF b(2) b(4) d(2) d(4)] pc [OF b(3) b(4) d(3) d(4)]
    by simp_all
  note ww' = ww [unfolded abs_le_iff] and xx' = xx [unfolded abs_le_iff]
    and yy' = yy [unfolded abs_le_iff] and zz' = zz [unfolded abs_le_iff]
    and wx' = wx [unfolded abs_le_iff] and wy' = wy [unfolded abs_le_iff]
    and wz' = wz [unfolded abs_le_iff] and xy' = xy [unfolded abs_le_iff]
    and xz' = xz [unfolded abs_le_iff] and yz' = yz [unfolded abs_le_iff]
  define N where "N = w'\<^sup>2 + x'\<^sup>2 + y'\<^sup>2 + z'\<^sup>2"
  have N1: "\<bar>N - 1\<bar> \<le> 12 * \<eta>"
    unfolding N_def abs_le_iff using ww' xx' yy' zz' unit by (intro conjI) linarith+
  then have Npos: "0 < N"
    using \<delta> by linarith
  have a2: "\<bar>2 * (w * x)\<bar> \<le> w\<^sup>2 + x\<^sup>2" "\<bar>2 * (w * y)\<bar> \<le> w\<^sup>2 + y\<^sup>2" "\<bar>2 * (w * z)\<bar> \<le> w\<^sup>2 + z\<^sup>2"
    "\<bar>2 * (x * y)\<bar> \<le> x\<^sup>2 + y\<^sup>2" "\<bar>2 * (x * z)\<bar> \<le> x\<^sup>2 + z\<^sup>2" "\<bar>2 * (y * z)\<bar> \<le> y\<^sup>2 + z\<^sup>2"
    by (rule abs_two_prod_le)+
  note rc = ratio_close [OF _ N1 _ \<delta>]
  have e00: "\<bar>(w'\<^sup>2 + x'\<^sup>2 - y'\<^sup>2 - z'\<^sup>2) / N - (w\<^sup>2 + x\<^sup>2 - y\<^sup>2 - z\<^sup>2)\<bar> \<le> 4 * (12 * \<eta>)"
  proof (rule rc)
    show "\<bar>(w'\<^sup>2 + x'\<^sup>2 - y'\<^sup>2 - z'\<^sup>2) - (w\<^sup>2 + x\<^sup>2 - y\<^sup>2 - z\<^sup>2)\<bar> \<le> 12 * \<eta>"
      unfolding abs_le_iff using ww' xx' yy' zz' by (intro conjI) linarith+
    show "\<bar>w\<^sup>2 + x\<^sup>2 - y\<^sup>2 - z\<^sup>2\<bar> \<le> 1"
      unfolding abs_le_iff using unit sq by (intro conjI) linarith+
  qed
  have e11: "\<bar>(w'\<^sup>2 - x'\<^sup>2 + y'\<^sup>2 - z'\<^sup>2) / N - (w\<^sup>2 - x\<^sup>2 + y\<^sup>2 - z\<^sup>2)\<bar> \<le> 4 * (12 * \<eta>)"
  proof (rule rc)
    show "\<bar>(w'\<^sup>2 - x'\<^sup>2 + y'\<^sup>2 - z'\<^sup>2) - (w\<^sup>2 - x\<^sup>2 + y\<^sup>2 - z\<^sup>2)\<bar> \<le> 12 * \<eta>"
      unfolding abs_le_iff using ww' xx' yy' zz' by (intro conjI) linarith+
    show "\<bar>w\<^sup>2 - x\<^sup>2 + y\<^sup>2 - z\<^sup>2\<bar> \<le> 1"
      unfolding abs_le_iff using unit sq by (intro conjI) linarith+
  qed
  have e22: "\<bar>(w'\<^sup>2 - x'\<^sup>2 - y'\<^sup>2 + z'\<^sup>2) / N - (w\<^sup>2 - x\<^sup>2 - y\<^sup>2 + z\<^sup>2)\<bar> \<le> 4 * (12 * \<eta>)"
  proof (rule rc)
    show "\<bar>(w'\<^sup>2 - x'\<^sup>2 - y'\<^sup>2 + z'\<^sup>2) - (w\<^sup>2 - x\<^sup>2 - y\<^sup>2 + z\<^sup>2)\<bar> \<le> 12 * \<eta>"
      unfolding abs_le_iff using ww' xx' yy' zz' by (intro conjI) linarith+
    show "\<bar>w\<^sup>2 - x\<^sup>2 - y\<^sup>2 + z\<^sup>2\<bar> \<le> 1"
      unfolding abs_le_iff using unit sq by (intro conjI) linarith+
  qed
  have e01: "\<bar>(2 * (x' * y') - 2 * (w' * z')) / N - (2 * (x * y) - 2 * (w * z))\<bar> \<le> 4 * (12 * \<eta>)"
  proof (rule rc)
    show "\<bar>(2 * (x' * y') - 2 * (w' * z')) - (2 * (x * y) - 2 * (w * z))\<bar> \<le> 12 * \<eta>"
      unfolding abs_le_iff using xy' wz' \<eta>0 by (intro conjI) linarith+
    show "\<bar>2 * (x * y) - 2 * (w * z)\<bar> \<le> 1"
      unfolding abs_le_iff using a2(4) [unfolded abs_le_iff] a2(3) [unfolded abs_le_iff] unit by (intro conjI) linarith+
  qed
  have e02: "\<bar>(2 * (w' * y') + 2 * (x' * z')) / N - (2 * (w * y) + 2 * (x * z))\<bar> \<le> 4 * (12 * \<eta>)"
  proof (rule rc)
    show "\<bar>(2 * (w' * y') + 2 * (x' * z')) - (2 * (w * y) + 2 * (x * z))\<bar> \<le> 12 * \<eta>"
      unfolding abs_le_iff using wy' xz' \<eta>0 by (intro conjI) linarith+
    show "\<bar>2 * (w * y) + 2 * (x * z)\<bar> \<le> 1"
      unfolding abs_le_iff using a2(2) [unfolded abs_le_iff] a2(5) [unfolded abs_le_iff] unit by (intro conjI) linarith+
  qed
  have e10: "\<bar>(2 * (w' * z') + 2 * (x' * y')) / N - (2 * (w * z) + 2 * (x * y))\<bar> \<le> 4 * (12 * \<eta>)"
  proof (rule rc)
    show "\<bar>(2 * (w' * z') + 2 * (x' * y')) - (2 * (w * z) + 2 * (x * y))\<bar> \<le> 12 * \<eta>"
      unfolding abs_le_iff using wz' xy' \<eta>0 by (intro conjI) linarith+
    show "\<bar>2 * (w * z) + 2 * (x * y)\<bar> \<le> 1"
      unfolding abs_le_iff using a2(3) [unfolded abs_le_iff] a2(4) [unfolded abs_le_iff] unit by (intro conjI) linarith+
  qed
  have e12: "\<bar>(2 * (y' * z') - 2 * (w' * x')) / N - (2 * (y * z) - 2 * (w * x))\<bar> \<le> 4 * (12 * \<eta>)"
  proof (rule rc)
    show "\<bar>(2 * (y' * z') - 2 * (w' * x')) - (2 * (y * z) - 2 * (w * x))\<bar> \<le> 12 * \<eta>"
      unfolding abs_le_iff using yz' wx' \<eta>0 by (intro conjI) linarith+
    show "\<bar>2 * (y * z) - 2 * (w * x)\<bar> \<le> 1"
      unfolding abs_le_iff using a2(6) [unfolded abs_le_iff] a2(1) [unfolded abs_le_iff] unit by (intro conjI) linarith+
  qed
  have e20: "\<bar>(2 * (x' * z') - 2 * (w' * y')) / N - (2 * (x * z) - 2 * (w * y))\<bar> \<le> 4 * (12 * \<eta>)"
  proof (rule rc)
    show "\<bar>(2 * (x' * z') - 2 * (w' * y')) - (2 * (x * z) - 2 * (w * y))\<bar> \<le> 12 * \<eta>"
      unfolding abs_le_iff using xz' wy' \<eta>0 by (intro conjI) linarith+
    show "\<bar>2 * (x * z) - 2 * (w * y)\<bar> \<le> 1"
      unfolding abs_le_iff using a2(5) [unfolded abs_le_iff] a2(2) [unfolded abs_le_iff] unit by (intro conjI) linarith+
  qed
  have e21: "\<bar>(2 * (w' * x') + 2 * (y' * z')) / N - (2 * (w * x) + 2 * (y * z))\<bar> \<le> 4 * (12 * \<eta>)"
  proof (rule rc)
    show "\<bar>(2 * (w' * x') + 2 * (y' * z')) - (2 * (w * x) + 2 * (y * z))\<bar> \<le> 12 * \<eta>"
      unfolding abs_le_iff using wx' yz' \<eta>0 by (intro conjI) linarith+
    show "\<bar>2 * (w * x) + 2 * (y * z)\<bar> \<le> 1"
      unfolding abs_le_iff using a2(1) [unfolded abs_le_iff] a2(6) [unfolded abs_le_iff] unit by (intro conjI) linarith+
  qed
  have M: "quat_to_rotmat_item (w, x, y, z) =
      Inr [[(w\<^sup>2 + x\<^sup>2 - y\<^sup>2 - z\<^sup>2), (2 * (x * y) - 2 * (w * z)), (2 * (w * y) + 2 * (x * z))],
           [(2 * (w * z) + 2 * (x * y)), (w\<^sup>2 - x\<^sup>2 + y\<^sup>2 - z\<^sup>2), (2 * (y * z) - 2 * (w * x))],
           [(2 * (x * z) - 2 * (w * y)), (2 * (w * x) + 2 * (y * z)), (w\<^sup>2 - x\<^sup>2 - y\<^sup>2 + z\<^sup>2)]]"
    using q2r_poly [of 1 w x y z] unit by simp
  note M' = q2r_poly [OF N_def Npos]
  have tol: "4 * (12 * \<eta>) = 48 * \<eta>"
    by simp
  have "mat_close (48 * \<eta>)
      [[(w'\<^sup>2 + x'\<^sup>2 - y'\<^sup>2 - z'\<^sup>2) / N, (2 * (x' * y') - 2 * (w' * z')) / N, (2 * (w' * y') + 2 * (x' * z')) / N],
       [(2 * (w' * z') + 2 * (x' * y')) / N, (w'\<^sup>2 - x'\<^sup>2 + y'\<^sup>2 - z'\<^sup>2) / N, (2 * (y' * z') - 2 * (w' * x')) / N],
       [(2 * (x' * z') - 2 * (w' * y')) / N, (2 * (w' * x') + 2 * (y' * z')) / N, (w'\<^sup>2 - x'\<^sup>2 - y'\<^sup>2 + z'\<^sup>2) / N]]
      [[(w\<^sup>2 + x\<^sup>2 - y\<^sup>2 - z\<^sup>2), (2 * (x * y) - 2 * (w * z)), (2 * (w * y) + 2 * (x * z))],
       [(2 * (w * z) + 2 * (x * y)), (w\<^sup>2 - x\<^sup>2 + y\<^sup>2 - z\<^sup>2), (2 * (y * z) - 2 * (w * x))],
       [(2 * (x * z) - 2 * (w * y)), (2 * (w * x) + 2 * (y * z)), (w\<^sup>2 - x\<^sup>2 - y\<^sup>2 + z\<^sup>2)]]"
    unfolding mat_close_def tol [symmetric]
    by (simp only: list_all2_Cons list_all2_Nil e00 e01 e02 e10 e11 e12 e20 e21 e22 simp_thms)
  with M M' show ?thesis
    by blast
qed

section \<open>The axis-angle vector of a unit quaternion\<close>

lemma sin_lipschitz: "\<bar>sin a - sin b\<bar> \<le> \<bar>a - b\<bar>" for a b :: real
proof -
  have "\<bar>sin a - sin b\<bar> = 2 * \<bar>sin ((a - b) / 2)\<bar> * \<bar>cos ((a + b) / 2)\<bar>"
    by (simp add: sin_diff_sin abs_mult)
  also have "\<dots> \<le> 2 * \<bar>(a - b) / 2\<bar> * 1"
    by (intro mult_mono abs_sin_x_le_abs_x) simp_all
  finally show ?thesis by simp
qed

lemma cos_lipschitz: "\<bar>cos a - cos b\<bar> \<le> \<bar>a - b\<bar>" for a b :: real
proof -
  have "\<bar>cos a - cos b\<bar> = 2 * \<bar>sin ((a + b) / 2)\<bar> * \<bar>sin ((b - a) / 2)\<bar>"
    by (simp add: cos_diff_cos abs_mult)
  also have "\<dots> \<le> 2 * 1 * \<bar>(b - a) / 2\<bar>"
    by (intro mult_mono abs_sin_x_le_abs_x) simp_all
  finally show ?thesis by simp
qed

lemma half_angle:
  fixes w s :: real
  assumes unit: "w\<^sup>2 + s\<^sup>2 = 1" and s: "0 \<le> s"
  shows "cos (atan2 s \<bar>w\<bar>) = \<bar>w\<bar>" and "sin (atan2 s \<bar>w\<bar>) = s"
    and "0 \<le> atan2 s \<bar>w\<bar>" and "atan2 s \<bar>w\<bar> \<le> pi / 2"
proof -
  show "0 \<le> atan2 s \<bar>w\<bar>"
    using s by (simp add: atan2_def zero_le_arctan_iff)
  show "atan2 s \<bar>w\<bar> \<le> pi / 2"
    using arctan_ubound [of "s / \<bar>w\<bar>"] by (simp add: atan2_def less_imp_le)
  show "cos (atan2 s \<bar>w\<bar>) = \<bar>w\<bar>" and "sin (atan2 s \<bar>w\<bar>) = s"
  proof -
    consider (zero) "w = 0" | (nz) "w \<noteq> 0" by blast
    then have "cos (atan2 s \<bar>w\<bar>) = \<bar>w\<bar> \<and> sin (atan2 s \<bar>w\<bar>) = s"
    proof cases
      case zero
      with unit s have "s = 1"
        by (simp add: power2_eq_1_iff)
      with zero show ?thesis
        by (simp add: atan2_def)
    next
      case nz
      then have pos: "0 < \<bar>w\<bar>" by simp
      have "1 + (s / \<bar>w\<bar>)\<^sup>2 = (w\<^sup>2 + s\<^sup>2) / w\<^sup>2"
        using nz by (simp add: power_divide field_simps)
      also have "\<dots> = (1 / \<bar>w\<bar>)\<^sup>2"
        by (simp add: unit power_divide)
      finally have "sqrt (1 + (s / \<bar>w\<bar>)\<^sup>2) = 1 / \<bar>w\<bar>"
        using pos by (simp add: real_sqrt_divide)
      with pos show ?thesis
        by (simp add: atan2_def cos_arctan sin_arctan)
    qed
    then show "cos (atan2 s \<bar>w\<bar>) = \<bar>w\<bar>" and "sin (atan2 s \<bar>w\<bar>) = s"
      by simp_all
  qed
qed

lemma two_theta_sign:
  assumes "0 \<le> s"
  shows "(if w < 0 then atan2 (- s) (- w) else atan2 s w)
           = (if w < 0 then - 1 else 1) * atan2 s \<bar>w\<bar>"
  using assms by (simp add: atan2_def arctan_minus)

lemma norm3_shift:
  fixes ux uy uz r \<epsilon> :: real
  assumes unit: "ux\<^sup>2 + uy\<^sup>2 + uz\<^sup>2 = 1" and r: "0 \<le> r" and e: "0 \<le> \<epsilon>"
  shows "\<bar>norm3 (r * ux + \<epsilon>, r * uy + \<epsilon>, r * uz + \<epsilon>) - r\<bar> \<le> sqrt 3 * \<epsilon>"
proof -
  define \<sigma> where "\<sigma> = ux + uy + uz"
  define c :: real where "c = sqrt 3"
  define m where "m = (r * ux + \<epsilon>)\<^sup>2 + (r * uy + \<epsilon>)\<^sup>2 + (r * uz + \<epsilon>)\<^sup>2"
  have c: "0 \<le> c" "c\<^sup>2 = 3"
    by (simp_all add: c_def)
  have id: "3 * (ux\<^sup>2 + uy\<^sup>2 + uz\<^sup>2) - \<sigma>\<^sup>2 = (ux - uy)\<^sup>2 + (uy - uz)\<^sup>2 + (ux - uz)\<^sup>2"
    by (simp add: \<sigma>_def power2_eq_square algebra_simps)
  have "0 \<le> (ux - uy)\<^sup>2 + (uy - uz)\<^sup>2 + (ux - uz)\<^sup>2"
    by simp
  then have "0 \<le> 3 * (ux\<^sup>2 + uy\<^sup>2 + uz\<^sup>2) - \<sigma>\<^sup>2"
    by (simp only: id)
  then have "\<sigma>\<^sup>2 \<le> 3"
    by (simp add: unit)
  then have "\<sigma>\<^sup>2 \<le> c\<^sup>2" by (simp add: c)
  then have \<sigma>: "\<bar>\<sigma>\<bar> \<le> c"
    using c(1) by (simp add: abs_le_square_iff [symmetric])
  have m: "m = r\<^sup>2 * (ux\<^sup>2 + uy\<^sup>2 + uz\<^sup>2) + 2 * r * \<epsilon> * \<sigma> + 3 * \<epsilon>\<^sup>2"
    by (simp add: m_def \<sigma>_def power2_eq_square algebra_simps)
  have re: "0 \<le> 2 * r * \<epsilon>" using r e by simp
  have up: "m \<le> (r + c * \<epsilon>)\<^sup>2"
  proof -
    have "(r + c * \<epsilon>)\<^sup>2 - m = 2 * r * \<epsilon> * (c - \<sigma>) + (c\<^sup>2 - 3) * \<epsilon>\<^sup>2"
      unfolding m unit by (simp add: power2_eq_square algebra_simps)
    then have eq: "(r + c * \<epsilon>)\<^sup>2 - m = 2 * r * \<epsilon> * (c - \<sigma>)"
      by (simp only: c) simp
    have "0 \<le> c - \<sigma>"
      using \<sigma> by linarith
    with re have "0 \<le> 2 * r * \<epsilon> * (c - \<sigma>)"
      by (rule mult_nonneg_nonneg)
    with eq show ?thesis by linarith
  qed
  have lo: "(r - c * \<epsilon>)\<^sup>2 \<le> m"
  proof -
    have "m - (r - c * \<epsilon>)\<^sup>2 = 2 * r * \<epsilon> * (c + \<sigma>) + (3 - c\<^sup>2) * \<epsilon>\<^sup>2"
      unfolding m unit by (simp add: power2_eq_square algebra_simps)
    then have eq: "m - (r - c * \<epsilon>)\<^sup>2 = 2 * r * \<epsilon> * (c + \<sigma>)"
      by (simp only: c) simp
    have "0 \<le> c + \<sigma>"
      using \<sigma> by linarith
    with re have "0 \<le> 2 * r * \<epsilon> * (c + \<sigma>)"
      by (rule mult_nonneg_nonneg)
    with eq show ?thesis by linarith
  qed
  have n: "norm3 (r * ux + \<epsilon>, r * uy + \<epsilon>, r * uz + \<epsilon>) = sqrt m"
    by (simp add: norm3_def m_def)
  have "sqrt m \<le> r + c * \<epsilon>"
    using up r e c(1) by (intro real_le_lsqrt) simp_all
  moreover have "r - c * \<epsilon> \<le> sqrt m"
    using lo by (rule real_le_rsqrt)
  ultimately show ?thesis
    unfolding n c_def by linarith
qed

section \<open>Matrix to axis-angle and back\<close>

lemma norm3_nonneg: "0 \<le> norm3 v"
  by (cases v) (simp add: norm3_def)

lemma norm3_eq_0_iff: "norm3 (x, y, z) = 0 \<longleftrightarrow> x = 0 \<and> y = 0 \<and> z = 0"
  by (simp add: norm3_def real_sqrt_eq_zero_cancel_iff add_nonneg_eq_0_iff)

lemma mat_close_mono:
  assumes "mat_close tol A B" and "tol \<le> tol'"
  shows "mat_close tol' A B"
  using assms unfolding mat_close_def
  by (auto elim!: list_all2_mono)

lemma mat_close_refl: "0 \<le> tol \<Longrightarrow> mat_close tol A A"
  by (simp add: mat_close_def list_all2_same)

lemma sqrt3_le_2: "sqrt 3 \<le> 2"
  using real_sqrt_le_iff [of 3 4] by simp

lemma rodrigues_close:
  fixes ux uy uz \<phi> :: real
  assumes unit: "ux\<^sup>2 + uy\<^sup>2 + uz\<^sup>2 = 1" and \<phi>: "0 \<le> \<phi>"
    and nz: "norm3 (2 * \<phi> * ux + 1 / 100000000, 2 * \<phi> * uy + 1 / 100000000,
               2 * \<phi> * uz + 1 / 100000000) \<noteq> 0"
  shows "\<exists>c' s'. rodrigues_quat (2 * \<phi> * ux, 2 * \<phi> * uy, 2 * \<phi> * uz)
                    = Inr (c', s' * ux, s' * uy, s' * uz)
           \<and> \<bar>c' - cos \<phi>\<bar> \<le> sqrt 3 / 100000000 \<and> \<bar>s' - sin \<phi>\<bar> \<le> sqrt 3 / 100000000"
proof -
  define n where "n = norm3 (2 * \<phi> * ux + 1 / 100000000, 2 * \<phi> * uy + 1 / 100000000,
               2 * \<phi> * uz + 1 / 100000000)"
  define xh where "xh = n * (1 / 2)"
  have npos: "0 < n"
    using nz norm3_nonneg [of "(2 * \<phi> * ux + 1 / 100000000, 2 * \<phi> * uy + 1 / 100000000,
               2 * \<phi> * uz + 1 / 100000000)"]
    by (simp add: n_def)
  have close: "\<bar>n - 2 * \<phi>\<bar> \<le> sqrt 3 / 100000000"
    using norm3_shift [OF unit, of "2 * \<phi>" "1 / 100000000"] \<phi> by (simp add: n_def)
  have xh: "0 < xh" "\<bar>xh - \<phi>\<bar> \<le> sqrt 3 / 100000000 / 2" "n = 2 * xh"
    using npos close unfolding xh_def by linarith+
  define c' where "c' = cos xh"
  define s' where "s' = sin xh * (2 * \<phi> / n)"
  have q: "rodrigues_quat (2 * \<phi> * ux, 2 * \<phi> * uy, 2 * \<phi> * uz) = Inr (c', s' * ux, s' * uy, s' * uz)"
    using npos unfolding rodrigues_quat_def
    by (simp add: n_def [symmetric] Let_def c'_def s'_def xh_def)
  have c: "\<bar>c' - cos \<phi>\<bar> \<le> sqrt 3 / 100000000"
  proof -
    have "\<bar>c' - cos \<phi>\<bar> \<le> \<bar>xh - \<phi>\<bar>"
      unfolding c'_def by (rule cos_lipschitz)
    moreover have "0 \<le> sqrt 3" by simp
    ultimately show ?thesis using xh(2) by linarith
  qed
  have s: "\<bar>s' - sin \<phi>\<bar> \<le> sqrt 3 / 100000000"
  proof -
    have "s' = sin xh * (\<phi> / xh)"
      using xh by (simp add: s'_def)
    also have "\<phi> / xh = 1 + (\<phi> - xh) / xh"
      using xh(1) by (simp add: field_simps)
    finally have "s' - sin \<phi> = (sin xh - sin \<phi>) + sin xh * ((\<phi> - xh) / xh)"
      by (simp add: algebra_simps)
    then have "\<bar>s' - sin \<phi>\<bar> \<le> \<bar>sin xh - sin \<phi>\<bar> + \<bar>sin xh * ((\<phi> - xh) / xh)\<bar>"
      by (simp only: abs_triangle_ineq)
    moreover have "\<bar>sin xh - sin \<phi>\<bar> \<le> \<bar>xh - \<phi>\<bar>"
      by (rule sin_lipschitz)
    moreover have "\<bar>sin xh * ((\<phi> - xh) / xh)\<bar> \<le> \<bar>xh - \<phi>\<bar>"
    proof -
      have "\<bar>sin xh * ((\<phi> - xh) / xh)\<bar> = \<bar>sin xh\<bar> * \<bar>\<phi> - xh\<bar> / xh"
        using xh(1) by (simp add: abs_mult abs_divide)
      also have "\<dots> \<le> xh * \<bar>\<phi> - xh\<bar> / xh"
        using xh(1) abs_sin_x_le_abs_x [of xh]
        by (intro divide_right_mono mult_right_mono) simp_all
      also have "\<dots> = \<bar>xh - \<phi>\<bar>"
        using xh(1) by (simp add: abs_minus_commute)
      finally show ?thesis .
    qed
    ultimately show ?thesis
      using xh(2) by linarith
  qed
  from q c s show ?thesis by blast
qed

lemma q2r_real_unit:
  assumes "w\<^sup>2 = 1"
  shows "quat_to_rotmat_item (w, 0, 0, 0) = Inr eye3"
proof -
  have "w \<noteq> 0" using assms by auto
  then show ?thesis
    using assms by (simp add: quat_to_rotmat_item_def norm4_def qdiv_def eye3_def power_divide)
qed

lemma r2aa_of_r2q:
  assumes "has_shape 3 3 R" and "rotation_matrix_to_quaternion_item (1 / 1000000) R = Inr q"
  shows "rotation_matrix_to_angle_axis_item R = Inr (quaternion_to_angle_axis_item q)"
proof -
  from assms(1) obtain a b c d e f g h i where R: "R = [[a, b, c], [d, e, f], [g, h, i]]"
    by (rule has_shape_33_cases)
  from assms(2) show ?thesis
    by (simp add: R rotation_matrix_to_angle_axis_item_def pad_hom_33 r2q_34)
qed

lemma batch_rodrigues_item_zero: "batch_rodrigues_item (0, 0, 0) = Inr eye3"
  using cos_half_eps_pos by (simp add: batch_rodrigues_item_def rodrigues_quat_zero quat_real_axis)

lemma q2aa_unit:
  fixes w x y z s :: real
  assumes s: "s = sqrt (x\<^sup>2 + y\<^sup>2 + z\<^sup>2)" and sp: "0 < s"
  shows "quaternion_to_angle_axis_item (w, x, y, z) =
           (2 * atan2 s \<bar>w\<bar> * ((if w < 0 then - 1 else 1) * x / s),
            2 * atan2 s \<bar>w\<bar> * ((if w < 0 then - 1 else 1) * y / s),
            2 * atan2 s \<bar>w\<bar> * ((if w < 0 then - 1 else 1) * z / s))"
proof -
  have s': "sqrt (x * x + y * y + z * z) = s"
    by (simp add: s power2_eq_square)
  have pos: "0 < x * x + y * y + z * z"
    using sp unfolding s by (simp add: power2_eq_square)
  have neg: "atan2 (- s) v = - atan2 s v" if "0 < v" for v
    using that by (simp add: atan2_def arctan_minus)
  show ?thesis
    using pos by (simp add: quaternion_to_angle_axis_item_def s' neg)
qed

lemma q2aa_real: "quaternion_to_angle_axis_item (w, 0, 0, 0) = (0, 0, 0)"
  by (simp add: quaternion_to_angle_axis_item_def)

lemma aa_round_trip_item:
  assumes rot: "is_rotation R"
  shows "\<exists>aa. rotation_matrix_to_angle_axis_item R = Inr aa
           \<and> (if aa = (- (1 / 100000000), - (1 / 100000000), - (1 / 100000000))
              then batch_rodrigues_item aa = Inl NonFinite
              else (\<exists>R'. batch_rodrigues_item aa = Inr R' \<and> mat_close (1 / 10000) R' R))"
proof -
  from r2q_rotation [OF rot] obtain q
    where q: "rotation_matrix_to_quaternion_item (1 / 1000000) R = Inr q"
      and n: "norm4 q = 1" and Q: "quat_to_rotmat_item q = Inr R"
    by blast
  obtain w x y z where qe: "q = (w, x, y, z)"
    by (cases q) auto
  have unit: "w\<^sup>2 + x\<^sup>2 + y\<^sup>2 + z\<^sup>2 = 1"
    using n by (simp add: qe norm4_def)
  from rot have "has_shape 3 3 R"
    by (simp add: is_rotation_def)
  then have aa: "rotation_matrix_to_angle_axis_item R = Inr (quaternion_to_angle_axis_item (w, x, y, z))"
    using q unfolding qe by (rule r2aa_of_r2q)
  define s where "s = sqrt (x\<^sup>2 + y\<^sup>2 + z\<^sup>2)"
  have s0: "0 \<le> s" and s2: "s\<^sup>2 = x\<^sup>2 + y\<^sup>2 + z\<^sup>2"
    by (simp_all add: s_def)
  let ?e = "1 / 100000000 :: real"
  show ?thesis
  proof (cases "s = 0")
    case True
    then have "x\<^sup>2 + y\<^sup>2 + z\<^sup>2 = 0"
      using s2 by simp
    then have z: "x = 0" "y = 0" "z = 0"
      by (simp_all add: add_nonneg_eq_0_iff)
    with unit have "w\<^sup>2 = 1" by simp
    then have "quat_to_rotmat_item (w, 0, 0, 0) = Inr eye3"
      by (rule q2r_real_unit)
    with Q have R: "R = eye3"
      by (simp add: qe z)
    have aa0: "rotation_matrix_to_angle_axis_item R = Inr (0, 0, 0)"
      unfolding aa z q2aa_real ..
    have "mat_close (1 / 10000) eye3 R"
      unfolding R by (rule mat_close_refl) simp
    with aa0 show ?thesis
      by (intro exI [of _ "(0, 0, 0)"]) (simp add: batch_rodrigues_item_zero)
  next
    case False
    with s0 have sp: "0 < s" by simp
    define sg :: real where "sg = (if w < 0 then - 1 else 1)"
    define \<phi> where "\<phi> = atan2 s \<bar>w\<bar>"
    define ux where "ux = sg * x / s"
    define uy where "uy = sg * y / s"
    define uz where "uz = sg * z / s"
    have sg2: "sg\<^sup>2 = 1" and sgw: "sg * w = \<bar>w\<bar>"
      by (simp_all add: sg_def)
    have ws: "w\<^sup>2 + s\<^sup>2 = 1"
      using unit s2 by simp
    note ha = half_angle [OF ws s0, folded \<phi>_def]
    have uunit: "ux\<^sup>2 + uy\<^sup>2 + uz\<^sup>2 = 1"
    proof -
      have "ux\<^sup>2 + uy\<^sup>2 + uz\<^sup>2 = sg\<^sup>2 * (x\<^sup>2 + y\<^sup>2 + z\<^sup>2) / s\<^sup>2"
        by (simp add: ux_def uy_def uz_def power_divide power_mult_distrib add_divide_distrib
            algebra_simps)
      also have "\<dots> = 1"
        using sp by (simp add: sg2 s2 [symmetric])
      finally show ?thesis .
    qed
    have su: "s * ux = sg * x" "s * uy = sg * y" "s * uz = sg * z"
      using sp by (simp_all add: ux_def uy_def uz_def)
    have aav: "quaternion_to_angle_axis_item (w, x, y, z) = (2 * \<phi> * ux, 2 * \<phi> * uy, 2 * \<phi> * uz)"
      unfolding q2aa_unit [OF s_def sp] \<phi>_def ux_def uy_def uz_def sg_def ..
    define nn where "nn = norm3 (2 * \<phi> * ux + ?e, 2 * \<phi> * uy + ?e, 2 * \<phi> * uz + ?e)"
    show ?thesis
    proof (cases "nn = 0")
      case True
      then have deg: "(2 * \<phi> * ux, 2 * \<phi> * uy, 2 * \<phi> * uz) = (- ?e, - ?e, - ?e)"
        unfolding nn_def norm3_eq_0_iff by (simp add: add_eq_0_iff)
      have "rodrigues_quat (- ?e, - ?e, - ?e) = Inl NonFinite"
        by (simp add: rodrigues_quat_def norm3_def)
      then show ?thesis
        unfolding aa aav deg by (simp add: batch_rodrigues_item_def)
    next
      case False
      then have nd: "(2 * \<phi> * ux, 2 * \<phi> * uy, 2 * \<phi> * uz) \<noteq> (- ?e, - ?e, - ?e)"
        unfolding nn_def norm3_eq_0_iff by auto
      from rodrigues_close [OF uunit ha(3) False [unfolded nn_def]] obtain c' s'
        where rq: "rodrigues_quat (2 * \<phi> * ux, 2 * \<phi> * uy, 2 * \<phi> * uz)
                     = Inr (c', s' * ux, s' * uy, s' * uz)"
          and c': "\<bar>c' - cos \<phi>\<bar> \<le> sqrt 3 / 100000000"
          and s': "\<bar>s' - sin \<phi>\<bar> \<le> sqrt 3 / 100000000"
        by blast
      have ub: "\<bar>ux\<bar> \<le> 1" "\<bar>uy\<bar> \<le> 1" "\<bar>uz\<bar> \<le> 1"
      proof -
        have "0 \<le> ux\<^sup>2" "0 \<le> uy\<^sup>2" "0 \<le> uz\<^sup>2" by simp_all
        with uunit have "ux\<^sup>2 \<le> 1" "uy\<^sup>2 \<le> 1" "uz\<^sup>2 \<le> 1" by linarith+
        then show "\<bar>ux\<bar> \<le> 1" "\<bar>uy\<bar> \<le> 1" "\<bar>uz\<bar> \<le> 1"
          by (simp_all add: abs_square_le_1)
      qed
      have comp: "\<bar>s' * u - s * u\<bar> \<le> sqrt 3 / 100000000" if "\<bar>u\<bar> \<le> 1" for u
      proof -
        have "\<bar>s' * u - s * u\<bar> = \<bar>s' - s\<bar> * \<bar>u\<bar>"
          by (simp add: abs_mult left_diff_distrib [symmetric])
        also have "\<dots> \<le> sqrt 3 / 100000000 * 1"
          using s' that unfolding ha(2) by (intro mult_mono) simp_all
        finally show ?thesis by simp
      qed
      have eta: "sqrt 3 / 100000000 \<le> 1 / 48"
        using sqrt3_le_2 by simp
      have unit': "\<bar>w\<bar>\<^sup>2 + (sg * x)\<^sup>2 + (sg * y)\<^sup>2 + (sg * z)\<^sup>2 = 1"
        using unit by (simp add: power_mult_distrib sg2)
      from q2r_perturb [OF unit' _ _ _ _ eta, of c' "s' * ux" "s' * uy" "s' * uz"]
        c' comp [OF ub(1)] comp [OF ub(2)] comp [OF ub(3)]
      obtain M M' where M: "quat_to_rotmat_item (\<bar>w\<bar>, sg * x, sg * y, sg * z) = Inr M"
        and M': "quat_to_rotmat_item (c', s' * ux, s' * uy, s' * uz) = Inr M'"
        and close: "mat_close (48 * (sqrt 3 / 100000000)) M' M"
        unfolding ha(1) su by blast
      have "quat_to_rotmat_item (\<bar>w\<bar>, sg * x, sg * y, sg * z) = quat_to_rotmat_item (w, x, y, z)"
        using quat_to_rotmat_item_qneg [of "(w, x, y, z)"]
        by (simp add: sg_def qneg_def)
      with M Q have MR: "M = R"
        by (simp add: qe)
      have "48 * (sqrt 3 / 100000000) \<le> 1 / 10000"
        using sqrt3_le_2 by simp
      with close have "mat_close (1 / 10000) M' R"
        unfolding MR by (rule mat_close_mono)
      moreover have "batch_rodrigues_item (2 * \<phi> * ux, 2 * \<phi> * uy, 2 * \<phi> * uz) = Inr M'"
        by (simp add: batch_rodrigues_item_def rq M')
      ultimately show ?thesis
        unfolding aa aav using nd by auto
    qed
  qed
qed

section \<open>Unit quaternions and pure rotations\<close>

lemma arctan_le_self_real:
  fixes x :: real
  assumes "0 \<le> x"
  shows "arctan x \<le> x"
proof -
  have "(\<lambda>y. y - arctan y) 0 \<le> (\<lambda>y. y - arctan y) x"
  proof (rule DERIV_nonneg_imp_nondecreasing [OF assms])
    fix y :: real
    have "((\<lambda>y. y - arctan y) has_real_derivative (1 - inverse (1 + y\<^sup>2))) (at y)"
      by (auto intro!: derivative_eq_intros)
    moreover have "inverse (1 + y\<^sup>2) \<le> 1"
      by (rule inverse_le_1_iff [THEN iffD2]) simp
    ultimately show "\<exists>d. ((\<lambda>y. y - arctan y) has_real_derivative d) (at y) \<and> 0 \<le> d"
      by (intro exI [of _ "1 - inverse (1 + y\<^sup>2)"]) simp
  qed
  then show ?thesis by simp
qed

lemma arctan_shrink_nonneg:
  fixes t l :: real
  assumes l: "0 < l" "l \<le> 1" and t: "0 \<le> t"
  shows "0 \<le> arctan t - arctan (l\<^sup>2 * t)"
    and "arctan t - arctan (l\<^sup>2 * t) \<le> (1 - l\<^sup>2) / (2 * l)"
proof -
  define \<alpha> where "\<alpha> = arctan t"
  define \<beta> where "\<beta> = arctan (l\<^sup>2 * t)"
  have l2: "l\<^sup>2 \<le> 1"
    using l by (simp add: power_le_one)
  then have "l\<^sup>2 * t \<le> 1 * t"
    using t by (intro mult_right_mono)
  then have le: "\<beta> \<le> \<alpha>"
    unfolding \<alpha>_def \<beta>_def by (simp add: arctan_le_iff)
  then show "0 \<le> arctan t - arctan (l\<^sup>2 * t)"
    by (simp add: \<alpha>_def \<beta>_def)
  have \<beta>0: "0 \<le> \<beta>"
    unfolding \<beta>_def using t by (simp add: zero_le_arctan_iff)
  have \<alpha>1: "\<alpha> < pi / 2"
    unfolding \<alpha>_def by (rule arctan_ubound)
  have d: "- (pi / 2) < \<alpha> - \<beta>" "\<alpha> - \<beta> < pi / 2"
    using le \<beta>0 \<alpha>1 pi_gt_zero by linarith+
  then have c: "cos (\<alpha> - \<beta>) \<noteq> 0"
    using cos_gt_zero_pi [of "\<alpha> - \<beta>"] by simp
  have "tan (\<alpha> - \<beta>) = (tan \<alpha> - tan \<beta>) / (1 + tan \<alpha> * tan \<beta>)"
    using c by (intro tan_diff) (simp_all add: \<alpha>_def \<beta>_def)
  then have tn: "tan (\<alpha> - \<beta>) = (t - l\<^sup>2 * t) / (1 + t * (l\<^sup>2 * t))"
    by (simp add: \<alpha>_def \<beta>_def tan_arctan)
  have den: "0 < 1 + t * (l\<^sup>2 * t)"
    using t by (simp add: add_pos_nonneg)
  have num: "0 \<le> t - l\<^sup>2 * t"
    using \<open>l\<^sup>2 * t \<le> 1 * t\<close> by simp
  have tpos: "0 \<le> tan (\<alpha> - \<beta>)"
    unfolding tn using num den by simp
  have "\<alpha> - \<beta> = arctan (tan (\<alpha> - \<beta>))"
    using d by (simp add: arctan_tan)
  also have "\<dots> \<le> tan (\<alpha> - \<beta>)"
    using tpos by (rule arctan_le_self_real)
  also have "\<dots> \<le> (1 - l\<^sup>2) / (2 * l)"
  proof -
    have "0 \<le> (1 - l * t)\<^sup>2" by simp
    then have am: "2 * l * t \<le> 1 + t * (l\<^sup>2 * t)"
      by (simp add: power2_eq_square algebra_simps)
    have "(t - l\<^sup>2 * t) * (2 * l) = (1 - l\<^sup>2) * (2 * l * t)"
      by (simp add: algebra_simps)
    also have "\<dots> \<le> (1 - l\<^sup>2) * (1 + t * (l\<^sup>2 * t))"
      using am l2 by (intro mult_left_mono) simp_all
    finally show ?thesis
      unfolding tn using den l by (simp add: field_simps)
  qed
  finally show "arctan t - arctan (l\<^sup>2 * t) \<le> (1 - l\<^sup>2) / (2 * l)"
    by (simp add: \<alpha>_def \<beta>_def)
qed

lemma arctan_shrink:
  fixes t l :: real
  assumes l: "0 < l" "l \<le> 1"
  shows "\<bar>arctan t - arctan (l\<^sup>2 * t)\<bar> \<le> (1 - l\<^sup>2) / (2 * l)"
proof (cases "0 \<le> t")
  case True
  from arctan_shrink_nonneg [OF l True] show ?thesis by simp
next
  case False
  then have "0 \<le> - t" by simp
  from arctan_shrink_nonneg [OF l this] show ?thesis
    by (simp add: arctan_minus)
qed

lemma q2r_unit_rotation:
  fixes w x y z :: real
  assumes unit: "w\<^sup>2 + x\<^sup>2 + y\<^sup>2 + z\<^sup>2 = 1"
  shows "\<exists>M. quat_to_rotmat_item (w, x, y, z) = Inr M \<and> is_rotation M"
proof -
  have Q: "quat_to_rotmat_item (w, x, y, z) =
      Inr [[w\<^sup>2 + x\<^sup>2 - y\<^sup>2 - z\<^sup>2, 2 * (x * y) - 2 * (w * z), 2 * (w * y) + 2 * (x * z)],
           [2 * (w * z) + 2 * (x * y), w\<^sup>2 - x\<^sup>2 + y\<^sup>2 - z\<^sup>2, 2 * (y * z) - 2 * (w * x)],
           [2 * (x * z) - 2 * (w * y), 2 * (w * x) + 2 * (y * z), w\<^sup>2 - x\<^sup>2 - y\<^sup>2 + z\<^sup>2]]"
    using q2r_poly [of 1 w x y z] unit by simp
  have "is_rotation
          [[w\<^sup>2 + x\<^sup>2 - y\<^sup>2 - z\<^sup>2, 2 * (x * y) - 2 * (w * z), 2 * (w * y) + 2 * (x * z)],
           [2 * (w * z) + 2 * (x * y), w\<^sup>2 - x\<^sup>2 + y\<^sup>2 - z\<^sup>2, 2 * (y * z) - 2 * (w * x)],
           [2 * (x * z) - 2 * (w * y), 2 * (w * x) + 2 * (y * z), w\<^sup>2 - x\<^sup>2 - y\<^sup>2 + z\<^sup>2]]"
  proof -
    define N where "N = w\<^sup>2 + x\<^sup>2 + y\<^sup>2 + z\<^sup>2"
    have N1: "N = 1" by (simp add: N_def unit)
    have c00: "(w\<^sup>2 + x\<^sup>2 - y\<^sup>2 - z\<^sup>2) * (w\<^sup>2 + x\<^sup>2 - y\<^sup>2 - z\<^sup>2)
        + (2 * (w * z) + 2 * (x * y)) * (2 * (w * z) + 2 * (x * y))
        + (2 * (x * z) - 2 * (w * y)) * (2 * (x * z) - 2 * (w * y)) = N * N"
      unfolding N_def by (simp add: power2_eq_square algebra_simps)
    have c11: "(2 * (x * y) - 2 * (w * z)) * (2 * (x * y) - 2 * (w * z))
        + (w\<^sup>2 - x\<^sup>2 + y\<^sup>2 - z\<^sup>2) * (w\<^sup>2 - x\<^sup>2 + y\<^sup>2 - z\<^sup>2)
        + (2 * (w * x) + 2 * (y * z)) * (2 * (w * x) + 2 * (y * z)) = N * N"
      unfolding N_def by (simp add: power2_eq_square algebra_simps)
    have c22: "(2 * (w * y) + 2 * (x * z)) * (2 * (w * y) + 2 * (x * z))
        + (2 * (y * z) - 2 * (w * x)) * (2 * (y * z) - 2 * (w * x))
        + (w\<^sup>2 - x\<^sup>2 - y\<^sup>2 + z\<^sup>2) * (w\<^sup>2 - x\<^sup>2 - y\<^sup>2 + z\<^sup>2) = N * N"
      unfolding N_def by (simp add: power2_eq_square algebra_simps)
    have c01: "(w\<^sup>2 + x\<^sup>2 - y\<^sup>2 - z\<^sup>2) * (2 * (x * y) - 2 * (w * z))
        + (2 * (w * z) + 2 * (x * y)) * (w\<^sup>2 - x\<^sup>2 + y\<^sup>2 - z\<^sup>2)
        + (2 * (x * z) - 2 * (w * y)) * (2 * (w * x) + 2 * (y * z)) = 0"
      by (simp add: power2_eq_square algebra_simps)
    have c02: "(w\<^sup>2 + x\<^sup>2 - y\<^sup>2 - z\<^sup>2) * (2 * (w * y) + 2 * (x * z))
        + (2 * (w * z) + 2 * (x * y)) * (2 * (y * z) - 2 * (w * x))
        + (2 * (x * z) - 2 * (w * y)) * (w\<^sup>2 - x\<^sup>2 - y\<^sup>2 + z\<^sup>2) = 0"
      by (simp add: power2_eq_square algebra_simps)
    have c12: "(2 * (x * y) - 2 * (w * z)) * (2 * (w * y) + 2 * (x * z))
        + (w\<^sup>2 - x\<^sup>2 + y\<^sup>2 - z\<^sup>2) * (2 * (y * z) - 2 * (w * x))
        + (2 * (w * x) + 2 * (y * z)) * (w\<^sup>2 - x\<^sup>2 - y\<^sup>2 + z\<^sup>2) = 0"
      by (simp add: power2_eq_square algebra_simps)
    have dt: "(w\<^sup>2 + x\<^sup>2 - y\<^sup>2 - z\<^sup>2) *
        ((w\<^sup>2 - x\<^sup>2 + y\<^sup>2 - z\<^sup>2) * (w\<^sup>2 - x\<^sup>2 - y\<^sup>2 + z\<^sup>2) -
         (2 * (y * z) - 2 * (w * x)) * (2 * (w * x) + 2 * (y * z))) -
        (2 * (x * y) - 2 * (w * z)) *
        ((2 * (w * z) + 2 * (x * y)) * (w\<^sup>2 - x\<^sup>2 - y\<^sup>2 + z\<^sup>2) -
         (2 * (y * z) - 2 * (w * x)) * (2 * (x * z) - 2 * (w * y))) +
        (2 * (w * y) + 2 * (x * z)) *
        ((2 * (w * z) + 2 * (x * y)) * (2 * (w * x) + 2 * (y * z)) -
         (w\<^sup>2 - x\<^sup>2 + y\<^sup>2 - z\<^sup>2) * (2 * (x * z) - 2 * (w * y))) = N * N * N"
      unfolding N_def by (simp add: power2_eq_square algebra_simps)
    show ?thesis
      unfolding is_rotation_33 c00 c11 c22 c01 c02 c12 dt
      by (simp add: N1)
  qed
  with Q show ?thesis by blast
qed

lemma sum4_squares_zero:
  fixes a b c d :: real
  assumes "a\<^sup>2 + b\<^sup>2 + c\<^sup>2 + d\<^sup>2 = 0"
  shows "a = 0" "b = 0" "c = 0" "d = 0"
proof -
  have "0 \<le> a\<^sup>2" "0 \<le> b\<^sup>2" "0 \<le> c\<^sup>2" "0 \<le> d\<^sup>2"
    by simp_all
  with assms have "a\<^sup>2 = 0" "b\<^sup>2 = 0" "c\<^sup>2 = 0" "d\<^sup>2 = 0"
    by linarith+
  then show "a = 0" "b = 0" "c = 0" "d = 0"
    by simp_all
qed

lemma unit_quat_unique:
  fixes w x y z w' x' y' z' :: real
  assumes unit: "w\<^sup>2 + x\<^sup>2 + y\<^sup>2 + z\<^sup>2 = 1" and unit': "w'\<^sup>2 + x'\<^sup>2 + y'\<^sup>2 + z'\<^sup>2 = 1"
    and eq: "quat_to_rotmat_item (w', x', y', z') = quat_to_rotmat_item (w, x, y, z)"
  shows "(w', x', y', z') = (w, x, y, z) \<or> (w', x', y', z') = (- w, - x, - y, - z)"
proof -
  have e: "w'\<^sup>2 + x'\<^sup>2 - y'\<^sup>2 - z'\<^sup>2 = w\<^sup>2 + x\<^sup>2 - y\<^sup>2 - z\<^sup>2"
    "2 * (x' * y') - 2 * (w' * z') = 2 * (x * y) - 2 * (w * z)"
    "2 * (w' * y') + 2 * (x' * z') = 2 * (w * y) + 2 * (x * z)"
    "2 * (w' * z') + 2 * (x' * y') = 2 * (w * z) + 2 * (x * y)"
    "w'\<^sup>2 - x'\<^sup>2 + y'\<^sup>2 - z'\<^sup>2 = w\<^sup>2 - x\<^sup>2 + y\<^sup>2 - z\<^sup>2"
    "2 * (y' * z') - 2 * (w' * x') = 2 * (y * z) - 2 * (w * x)"
    "2 * (x' * z') - 2 * (w' * y') = 2 * (x * z) - 2 * (w * y)"
    "2 * (w' * x') + 2 * (y' * z') = 2 * (w * x) + 2 * (y * z)"
    "w'\<^sup>2 - x'\<^sup>2 - y'\<^sup>2 + z'\<^sup>2 = w\<^sup>2 - x\<^sup>2 - y\<^sup>2 + z\<^sup>2"
    using eq q2r_poly [of 1 w x y z] q2r_poly [of 1 w' x' y' z'] unit unit'
    by simp_all
  have sq: "w'\<^sup>2 = w\<^sup>2" "x'\<^sup>2 = x\<^sup>2" "y'\<^sup>2 = y\<^sup>2" "z'\<^sup>2 = z\<^sup>2"
    using e(1,5,9) unit unit' by linarith+
  have pr: "x' * y' = x * y" "w' * z' = w * z" "w' * y' = w * y" "x' * z' = x * z"
    "y' * z' = y * z" "w' * x' = w * x"
    using e(2,3,4,6,7,8) by linarith+
  define d where "d = w' * w + x' * x + y' * y + z' * z"
  have "d\<^sup>2 = w'\<^sup>2 * w\<^sup>2 + x'\<^sup>2 * x\<^sup>2 + y'\<^sup>2 * y\<^sup>2 + z'\<^sup>2 * z\<^sup>2
      + 2 * ((w' * x') * (w * x) + (w' * y') * (w * y) + (w' * z') * (w * z)
           + (x' * y') * (x * y) + (x' * z') * (x * z) + (y' * z') * (y * z))"
    unfolding d_def by (simp add: power2_eq_square algebra_simps)
  also have "\<dots> = (w\<^sup>2 + x\<^sup>2 + y\<^sup>2 + z\<^sup>2)\<^sup>2"
    unfolding sq pr by (simp add: power2_eq_square algebra_simps)
  finally have "d\<^sup>2 = 1"
    by (simp add: unit)
  then consider (pos) "d = 1" | (neg) "d = - 1"
    by (auto simp: power2_eq_1_iff)
  then show ?thesis
  proof cases
    case pos
    have "(w' - w)\<^sup>2 + (x' - x)\<^sup>2 + (y' - y)\<^sup>2 + (z' - z)\<^sup>2
        = (w'\<^sup>2 + x'\<^sup>2 + y'\<^sup>2 + z'\<^sup>2) + (w\<^sup>2 + x\<^sup>2 + y\<^sup>2 + z\<^sup>2) - 2 * d"
      unfolding d_def by (simp add: power2_eq_square algebra_simps)
    also have "\<dots> = 0"
      by (simp add: unit unit' pos)
    finally show ?thesis
      using sum4_squares_zero [of "w' - w" "x' - x" "y' - y" "z' - z"] by simp
  next
    case neg
    have "(w' + w)\<^sup>2 + (x' + x)\<^sup>2 + (y' + y)\<^sup>2 + (z' + z)\<^sup>2
        = (w'\<^sup>2 + x'\<^sup>2 + y'\<^sup>2 + z'\<^sup>2) + (w\<^sup>2 + x\<^sup>2 + y\<^sup>2 + z\<^sup>2) + 2 * d"
      unfolding d_def by (simp add: power2_eq_square algebra_simps)
    also have "\<dots> = 0"
      by (simp add: unit unit' neg)
    finally have "w' + w = 0" "x' + x = 0" "y' + y = 0" "z' + z = 0"
      by (rule sum4_squares_zero)+
    then show ?thesis
      by (simp add: add_eq_0_iff2)
  qed
qed

lemma q2r_scale:
  fixes k W X Y Z :: real
  assumes k: "k \<noteq> 0" and pos: "0 < W\<^sup>2 + X\<^sup>2 + Y\<^sup>2 + Z\<^sup>2"
  shows "quat_to_rotmat_item (k * W, k * X, k * Y, k * Z) = quat_to_rotmat_item (W, X, Y, Z)"
proof -
  define N where "N = W\<^sup>2 + X\<^sup>2 + Y\<^sup>2 + Z\<^sup>2"
  have k2: "0 < k\<^sup>2" using k by simp
  have N': "k\<^sup>2 * N = (k * W)\<^sup>2 + (k * X)\<^sup>2 + (k * Y)\<^sup>2 + (k * Z)\<^sup>2"
    by (simp add: N_def power_mult_distrib algebra_simps)
  have pos': "0 < k\<^sup>2 * N"
    using k2 pos by (simp add: N_def)
  have c: "(k\<^sup>2 * P) / (k\<^sup>2 * N) = P / N" for P
    using k by simp
  have n: "(k * W)\<^sup>2 + (k * X)\<^sup>2 - (k * Y)\<^sup>2 - (k * Z)\<^sup>2 = k\<^sup>2 * (W\<^sup>2 + X\<^sup>2 - Y\<^sup>2 - Z\<^sup>2)"
    "(k * W)\<^sup>2 - (k * X)\<^sup>2 + (k * Y)\<^sup>2 - (k * Z)\<^sup>2 = k\<^sup>2 * (W\<^sup>2 - X\<^sup>2 + Y\<^sup>2 - Z\<^sup>2)"
    "(k * W)\<^sup>2 - (k * X)\<^sup>2 - (k * Y)\<^sup>2 + (k * Z)\<^sup>2 = k\<^sup>2 * (W\<^sup>2 - X\<^sup>2 - Y\<^sup>2 + Z\<^sup>2)"
    by (simp_all add: power_mult_distrib algebra_simps)
  have m: "2 * (k * A * (k * B)) - 2 * (k * C * (k * D)) = k\<^sup>2 * (2 * (A * B) - 2 * (C * D))"
    "2 * (k * A * (k * B)) + 2 * (k * C * (k * D)) = k\<^sup>2 * (2 * (A * B) + 2 * (C * D))"
    for A B C D
    by (simp_all add: power2_eq_square algebra_simps)
  show ?thesis
    unfolding q2r_poly [OF N' pos'] q2r_poly [OF N_def pos [folded N_def]] n m c ..
qed

lemma rotation_about_quat:
  fixes a0 a1 a2 \<theta> :: real
  assumes nz: "norm3 (a0, a1, a2) \<noteq> 0"
  defines "r \<equiv> norm3 (a0, a1, a2)"
  shows "quat_to_rotmat_item
           (cos (\<theta> / 2), sin (\<theta> / 2) * (a0 / r), sin (\<theta> / 2) * (a1 / r), sin (\<theta> / 2) * (a2 / r))
         = Inr (rotation_about (a0, a1, a2) \<theta>)"
proof -
  define c s x y z where "c = cos (\<theta> / 2)" and "s = sin (\<theta> / 2)"
    and "x = a0 / r" and "y = a1 / r" and "z = a2 / r"
  have r2: "r\<^sup>2 = a0\<^sup>2 + a1\<^sup>2 + a2\<^sup>2"
    by (simp add: r_def norm3_def)
  have r0: "r \<noteq> 0"
    using nz by (simp add: r_def)
  have u: "x\<^sup>2 + y\<^sup>2 + z\<^sup>2 = 1"
    using r0 by (simp add: x_def y_def z_def power_divide add_divide_distrib [symmetric] r2 [symmetric])
  have cs: "c\<^sup>2 + s\<^sup>2 = 1"
    by (simp add: c_def s_def)
  have C: "cos \<theta> = c\<^sup>2 - s\<^sup>2"
    using cos_double [of "\<theta> / 2"] by (simp add: c_def s_def)
  have S: "sin \<theta> = 2 * s * c"
    using sin_double [of "\<theta> / 2"] by (simp add: c_def s_def)
  have unit: "c\<^sup>2 + (s * x)\<^sup>2 + (s * y)\<^sup>2 + (s * z)\<^sup>2 = 1"
    using u cs by algebra
  have Q: "quat_to_rotmat_item (c, s * x, s * y, s * z) =
      Inr [[c\<^sup>2 + (s * x)\<^sup>2 - (s * y)\<^sup>2 - (s * z)\<^sup>2, 2 * (s * x * (s * y)) - 2 * (c * (s * z)),
              2 * (c * (s * y)) + 2 * (s * x * (s * z))],
           [2 * (c * (s * z)) + 2 * (s * x * (s * y)), c\<^sup>2 - (s * x)\<^sup>2 + (s * y)\<^sup>2 - (s * z)\<^sup>2,
              2 * (s * y * (s * z)) - 2 * (c * (s * x))],
           [2 * (s * x * (s * z)) - 2 * (c * (s * y)), 2 * (c * (s * x)) + 2 * (s * y * (s * z)),
              c\<^sup>2 - (s * x)\<^sup>2 - (s * y)\<^sup>2 + (s * z)\<^sup>2]]"
    using q2r_poly [of 1 c "s * x" "s * y" "s * z"] unit by simp
  have R: "rotation_about (a0, a1, a2) \<theta> =
      [[c\<^sup>2 - s\<^sup>2 + x * x * (1 - (c\<^sup>2 - s\<^sup>2)), x * y * (1 - (c\<^sup>2 - s\<^sup>2)) - z * (2 * s * c),
          x * z * (1 - (c\<^sup>2 - s\<^sup>2)) + y * (2 * s * c)],
       [y * x * (1 - (c\<^sup>2 - s\<^sup>2)) + z * (2 * s * c), c\<^sup>2 - s\<^sup>2 + y * y * (1 - (c\<^sup>2 - s\<^sup>2)),
          y * z * (1 - (c\<^sup>2 - s\<^sup>2)) - x * (2 * s * c)],
       [z * x * (1 - (c\<^sup>2 - s\<^sup>2)) - y * (2 * s * c), z * y * (1 - (c\<^sup>2 - s\<^sup>2)) + x * (2 * s * c),
          c\<^sup>2 - s\<^sup>2 + z * z * (1 - (c\<^sup>2 - s\<^sup>2))]]"
    by (simp add: rotation_about_def vdiv_def r_def [symmetric] Let_def C S
        x_def [symmetric] y_def [symmetric] z_def [symmetric])
  have e00: "c\<^sup>2 + (s * x)\<^sup>2 - (s * y)\<^sup>2 - (s * z)\<^sup>2 = c\<^sup>2 - s\<^sup>2 + x * x * (1 - (c\<^sup>2 - s\<^sup>2))"
    using u cs by algebra
  have e11: "c\<^sup>2 - (s * x)\<^sup>2 + (s * y)\<^sup>2 - (s * z)\<^sup>2 = c\<^sup>2 - s\<^sup>2 + y * y * (1 - (c\<^sup>2 - s\<^sup>2))"
    using u cs by algebra
  have e22: "c\<^sup>2 - (s * x)\<^sup>2 - (s * y)\<^sup>2 + (s * z)\<^sup>2 = c\<^sup>2 - s\<^sup>2 + z * z * (1 - (c\<^sup>2 - s\<^sup>2))"
    using u cs by algebra
  have off: "2 * (s * p * (s * q)) - 2 * (c * (s * t)) = p * q * (1 - (c\<^sup>2 - s\<^sup>2)) - t * (2 * s * c)"
    "2 * (c * (s * t)) + 2 * (s * p * (s * q)) = p * q * (1 - (c\<^sup>2 - s\<^sup>2)) + t * (2 * s * c)"
    "2 * (s * p * (s * q)) - 2 * (c * (s * t)) = q * p * (1 - (c\<^sup>2 - s\<^sup>2)) - t * (2 * s * c)"
    "2 * (c * (s * t)) + 2 * (s * p * (s * q)) = q * p * (1 - (c\<^sup>2 - s\<^sup>2)) + t * (2 * s * c)"
    for p q t
    using cs by algebra+
  show ?thesis
    unfolding c_def [symmetric] s_def [symmetric] x_def [symmetric] y_def [symmetric]
      z_def [symmetric] Q R e00 e11 e22
    by (simp only: off sum.inject list.inject simp_thms) (simp add: mult.commute)
qed

lemma q2aa_axis:
  fixes x y z W V :: real
  assumes u: "x\<^sup>2 + y\<^sup>2 + z\<^sup>2 = 1" and W: "W \<noteq> 0"
  shows "quaternion_to_angle_axis_item (W, V * x, V * y, V * z) =
           (2 * arctan (V / W) * x, 2 * arctan (V / W) * y, 2 * arctan (V / W) * z)"
proof (cases "V = 0")
  case True
  then show ?thesis by (simp add: q2aa_real)
next
  case False
  have "(V * x)\<^sup>2 + (V * y)\<^sup>2 + (V * z)\<^sup>2 = V\<^sup>2 * (x\<^sup>2 + y\<^sup>2 + z\<^sup>2)"
    by (simp add: power_mult_distrib algebra_simps)
  then have s: "\<bar>V\<bar> = sqrt ((V * x)\<^sup>2 + (V * y)\<^sup>2 + (V * z)\<^sup>2)"
    by (simp add: u)
  have sp: "0 < \<bar>V\<bar>" using False by simp
  have a: "atan2 \<bar>V\<bar> \<bar>W\<bar> = arctan (\<bar>V\<bar> / \<bar>W\<bar>)"
    using W by (simp add: atan2_def)
  have k: "arctan (\<bar>V\<bar> / \<bar>W\<bar>) * ((if W < 0 then - 1 else 1) * (V * t) / \<bar>V\<bar>) = arctan (V / W) * t"
    for t
  proof -
    consider "0 < V" "0 < W" | "0 < V" "W < 0" | "V < 0" "0 < W" | "V < 0" "W < 0"
      using False W by linarith
    then show ?thesis
    proof cases
      case 1
      then show ?thesis by simp
    next
      case 2
      then have "arctan (V / - W) = - arctan (V / W)"
        by (simp add: arctan_minus [symmetric])
      with 2 show ?thesis by simp
    next
      case 3
      then have "arctan (- V / W) = - arctan (V / W)"
        by (simp add: arctan_minus [symmetric])
      with 3 show ?thesis by simp
    next
      case 4
      then show ?thesis by simp
    qed
  qed
  show ?thesis
    unfolding q2aa_unit [OF s sp] a
    using k [of x] k [of y] k [of z] by (simp add: mult.assoc)
qed

lemma unit_axis:
  fixes a0 a1 a2 :: real
  assumes "norm3 (a0, a1, a2) \<noteq> 0"
  defines "r \<equiv> norm3 (a0, a1, a2)"
  shows "(a0 / r)\<^sup>2 + (a1 / r)\<^sup>2 + (a2 / r)\<^sup>2 = 1"
proof -
  have r2: "r\<^sup>2 = a0\<^sup>2 + a1\<^sup>2 + a2\<^sup>2"
    by (simp add: r_def norm3_def)
  have r0: "r \<noteq> 0"
    using assms(1) by (simp add: r_def)
  then show ?thesis
    by (simp add: power_divide add_divide_distrib [symmetric] r2 [symmetric])
qed

lemma r2q_rotation_about:
  fixes a0 a1 a2 \<theta> :: real
  assumes nz: "norm3 (a0, a1, a2) \<noteq> 0"
  defines "r \<equiv> norm3 (a0, a1, a2)"
  defines "c \<equiv> cos (\<theta> / 2)" and "s \<equiv> sin (\<theta> / 2)"
  shows "is_rotation (rotation_about (a0, a1, a2) \<theta>)"
    and "\<exists>\<sigma>. (\<sigma> = 1 \<or> \<sigma> = - 1)
           \<and> rotation_matrix_to_quaternion_item (1 / 1000000) (rotation_about (a0, a1, a2) \<theta>)
               = Inr (\<sigma> * c, \<sigma> * s * (a0 / r), \<sigma> * s * (a1 / r), \<sigma> * s * (a2 / r))"
proof -
  define x y z where "x = a0 / r" and "y = a1 / r" and "z = a2 / r"
  define R where "R = rotation_about (a0, a1, a2) \<theta>"
  have u: "x\<^sup>2 + y\<^sup>2 + z\<^sup>2 = 1"
    unfolding x_def y_def z_def r_def by (rule unit_axis [OF nz])
  have cs: "c\<^sup>2 + s\<^sup>2 = 1"
    by (simp add: c_def s_def)
  have unit0: "c\<^sup>2 + (s * x)\<^sup>2 + (s * y)\<^sup>2 + (s * z)\<^sup>2 = 1"
    using u cs by algebra
  have Q0: "quat_to_rotmat_item (c, s * x, s * y, s * z) = Inr R"
    unfolding c_def s_def x_def y_def z_def r_def R_def by (rule rotation_about_quat [OF nz])
  from q2r_unit_rotation [OF unit0] Q0 have rot: "is_rotation R"
    by simp
  then show "is_rotation (rotation_about (a0, a1, a2) \<theta>)"
    by (simp add: R_def)
  from r2q_rotation [OF rot] obtain q
    where q: "rotation_matrix_to_quaternion_item (1 / 1000000) R = Inr q"
      and nq: "norm4 q = 1" and Qq: "quat_to_rotmat_item q = Inr R"
    by blast
  obtain w' x' y' z' where q': "q = (w', x', y', z')"
    by (cases q)
  have unit': "w'\<^sup>2 + x'\<^sup>2 + y'\<^sup>2 + z'\<^sup>2 = 1"
  proof -
    have "(sqrt (w'\<^sup>2 + x'\<^sup>2 + y'\<^sup>2 + z'\<^sup>2))\<^sup>2 = 1"
      using nq by (simp add: q' norm4_def)
    then show ?thesis by simp
  qed
  have "quat_to_rotmat_item (w', x', y', z') = quat_to_rotmat_item (c, s * x, s * y, s * z)"
    using Qq Q0 by (simp add: q')
  from unit_quat_unique [OF unit0 unit' this]
  have "q = (1 * c, 1 * s * x, 1 * s * y, 1 * s * z)
      \<or> q = (- 1 * c, - 1 * s * x, - 1 * s * y, - 1 * s * z)"
    by (simp add: q')
  then have "\<exists>\<sigma>. (\<sigma> = 1 \<or> \<sigma> = - 1) \<and> q = (\<sigma> * c, \<sigma> * s * x, \<sigma> * s * y, \<sigma> * s * z)"
    by blast
  then show "\<exists>\<sigma>. (\<sigma> = 1 \<or> \<sigma> = - 1)
           \<and> rotation_matrix_to_quaternion_item (1 / 1000000) (rotation_about (a0, a1, a2) \<theta>)
               = Inr (\<sigma> * c, \<sigma> * s * (a0 / r), \<sigma> * s * (a1 / r), \<sigma> * s * (a2 / r))"
    using q by (simp add: R_def x_def y_def z_def)
qed

lemma r2aa_rotation_about:
  fixes a0 a1 a2 \<theta> :: real
  assumes nz: "norm3 (a0, a1, a2) \<noteq> 0" and \<theta>: "- pi < \<theta>" "\<theta> < pi"
  defines "r \<equiv> norm3 (a0, a1, a2)"
  shows "rotation_matrix_to_angle_axis_item (rotation_about (a0, a1, a2) \<theta>)
           = Inr (\<theta> * (a0 / r), \<theta> * (a1 / r), \<theta> * (a2 / r))"
proof -
  define c s where "c = cos (\<theta> / 2)" and "s = sin (\<theta> / 2)"
  define x y z where "x = a0 / r" and "y = a1 / r" and "z = a2 / r"
  have u: "x\<^sup>2 + y\<^sup>2 + z\<^sup>2 = 1"
    unfolding x_def y_def z_def r_def by (rule unit_axis [OF nz])
  have c0: "0 < c"
    unfolding c_def using \<theta> by (intro cos_gt_zero_pi) simp_all
  from r2q_rotation_about [OF nz, of \<theta>] obtain \<sigma> :: real
    where rot: "is_rotation (rotation_about (a0, a1, a2) \<theta>)"
      and \<sigma>: "\<sigma> = 1 \<or> \<sigma> = - 1"
      and q: "rotation_matrix_to_quaternion_item (1 / 1000000) (rotation_about (a0, a1, a2) \<theta>)
               = Inr (\<sigma> * c, \<sigma> * s * x, \<sigma> * s * y, \<sigma> * s * z)"
    unfolding c_def s_def x_def y_def z_def r_def by blast
  have \<sigma>0: "\<sigma> \<noteq> 0" using \<sigma> by auto
  then have W: "\<sigma> * c \<noteq> 0" using c0 by simp
  have sh: "has_shape 3 3 (rotation_about (a0, a1, a2) \<theta>)"
    using rot by (simp add: is_rotation_def)
  have A: "arctan (tan (\<theta> / 2)) = \<theta> / 2"
    using \<theta> by (intro arctan_tan) simp_all
  have "\<sigma> * s / (\<sigma> * c) = tan (\<theta> / 2)"
    using \<sigma>0 by (simp add: tan_def c_def s_def)
  then have "quaternion_to_angle_axis_item (\<sigma> * c, \<sigma> * s * x, \<sigma> * s * y, \<sigma> * s * z)
      = (\<theta> * x, \<theta> * y, \<theta> * z)"
    using q2aa_axis [OF u W, of "\<sigma> * s"] by (simp add: A)
  with r2aa_of_r2q [OF sh q] show ?thesis
    by (simp add: x_def y_def z_def)
qed

section \<open>The two round trips\<close>

lemma cos_neg_second_quadrant:
  assumes "pi / 2 < x" "x < pi"
  shows "cos x < 0"
proof -
  have "0 < cos (x - pi)"
    using assms by (intro cos_gt_zero_pi) simp_all
  then show ?thesis by simp
qed

lemma diff_eq_neg_sum:
  fixes a b :: real
  assumes "a - b = - 1 * (a + b)"
  shows "a = 0"
  using assms by simp

lemma r2aa_half_turn:
  "rotation_matrix_to_angle_axis_item [[- 1, 0, 0], [0, - 1, 0], [0, 0, 1]] = Inr (0, 0, pi)"
  by (simp add: r2aa_33 select_quat_def qscale_def qdiv_def quaternion_to_angle_axis_item_def
      atan2_def)

lemma rodrigues_half_turn_inexact:
  "batch_rodrigues_item (0, 0, pi) \<noteq> Inr [[- 1, 0, 0], [0, - 1, 0], [0, 0, 1]]"
proof
  assume eq: "batch_rodrigues_item (0, 0, pi) = Inr [[- 1, 0, 0], [0, - 1, 0], [0, 0, 1]]"
  define n where "n = norm3 (1 / 100000000, 1 / 100000000, pi + 1 / 100000000)"
  have "pi\<^sup>2 < (1 / 100000000)\<^sup>2 + (1 / 100000000)\<^sup>2 + (pi + 1 / 100000000)\<^sup>2"
    by (simp add: power2_eq_square algebra_simps add_pos_pos)
  then have lo: "pi < n"
    unfolding n_def norm3_def by (simp add: real_less_rsqrt)
  have "\<bar>n - pi\<bar> \<le> sqrt 3 * (1 / 100000000)"
    using norm3_shift [of 0 0 1 pi "1 / 100000000"] by (simp add: n_def)
  then have "n \<le> pi + 2 * (1 / 100000000)"
    using sqrt3_le_2 by linarith
  moreover have "(2 :: real) \<le> pi"
    by (rule pi_ge_two)
  ultimately have hi: "n < 2 * pi"
    by linarith
  define c where "c = cos (n / 2)"
  define zq where "zq = sin (n / 2) * (pi / n)"
  have c: "c < 0"
    unfolding c_def using lo hi by (intro cos_neg_second_quadrant) simp_all
  have n0: "n \<noteq> 0"
    using lo pi_gt_zero by linarith
  have rq: "rodrigues_quat (0, 0, pi) = Inr (c, 0, 0, zq)"
    using n0
    by (simp add: rodrigues_quat_def n_def [symmetric] c_def zq_def Let_def)
  have N: "0 < c\<^sup>2 + 0\<^sup>2 + 0\<^sup>2 + zq\<^sup>2"
    using c by (simp add: add_pos_nonneg)
  from eq have "quat_to_rotmat_item (c, 0, 0, zq) = Inr [[- 1, 0, 0], [0, - 1, 0], [0, 0, 1]]"
    by (simp add: batch_rodrigues_item_def rq)
  then have "(c\<^sup>2 - zq\<^sup>2) / (c\<^sup>2 + zq\<^sup>2) = - 1"
    unfolding q2r_poly [OF refl N] by simp
  moreover have "0 < c\<^sup>2 + zq\<^sup>2"
    using c by (simp add: add_pos_nonneg)
  then have N': "c\<^sup>2 + zq\<^sup>2 \<noteq> 0"
    by (rule less_imp_neq [THEN not_sym])
  ultimately have "c\<^sup>2 - zq\<^sup>2 = - 1 * (c\<^sup>2 + zq\<^sup>2)"
    by (metis nonzero_divide_eq_eq)
  then have "c\<^sup>2 = 0"
    by (rule diff_eq_neg_sum)
  with c show False by simp
qed

lemma r2aa_degenerate:
  "rotation_matrix_to_angle_axis_item (rotation_about (- 1, - 1, - 1) (sqrt 3 / 100000000))
     = Inr (- (1 / 100000000), - (1 / 100000000), - (1 / 100000000))"
proof -
  have n: "norm3 (- 1, - 1, - 1) = sqrt 3"
    by (simp add: norm3_def)
  have "sqrt 3 / 100000000 \<le> 2 / 100000000"
    using sqrt3_le_2 by simp
  also have "\<dots> < pi"
    using pi_ge_two by simp
  finally have hi: "sqrt 3 / 100000000 < pi" .
  have lo: "- pi < sqrt 3 / 100000000"
  proof -
    have "- pi < 0" by simp
    also have "0 \<le> sqrt 3 / 100000000" by simp
    finally show ?thesis .
  qed
  have nz: "norm3 (- 1, - 1, - 1) \<noteq> 0"
    by (simp add: n)
  show ?thesis
    unfolding r2aa_rotation_about [OF nz lo hi] n by simp
qed

lemma rodrigues_degenerate:
  "batch_rodrigues_item (- (1 / 100000000), - (1 / 100000000), - (1 / 100000000)) = Inl NonFinite"
  by (simp add: batch_rodrigues_item_def rodrigues_quat_def norm3_def)

text \<open>
  C1 (as amended). For every batch of valid rotation matrices, matrix to quaternion to
  matrix reproduces the batch exactly. Matrix to axis-angle always succeeds; then
  \<^verbatim>\<open>batch_rodrigues\<close> gives, for each item, a matrix whose entries are within \<open>1e-4\<close> of the
  original, except when the axis-angle vector is exactly \<open>(-1e-8, -1e-8, -1e-8)\<close>, where
  the norm taken after adding \<open>1e-8\<close> is zero and the result is not finite. The
  axis-angle round trip is not exact, because of that added constant.
\<close>

theorem rotation_round_trips:
  assumes "\<forall>R \<in> set Rs. is_rotation R"
  shows "\<exists>qs aas.
           rotation_matrix_to_quaternion Rs = map Inr qs \<and> quat_to_rotmat qs = map Inr Rs
         \<and> rotation_matrix_to_angle_axis Rs = map Inr aas
         \<and> list_all2
             (\<lambda>(R, aa) r.
                if aa = (- (1 / 10 ^ 8), - (1 / 10 ^ 8), - (1 / 10 ^ 8)) then r = Inl NonFinite
                else (\<exists>R'. r = Inr R' \<and> mat_close (1 / 10 ^ 4) R' R))
             (zip Rs aas) (batch_rodrigues aas)"
  using assms
proof (induction Rs)
  case Nil
  show ?case
    by (simp add: rotation_matrix_to_quaternion_def quat_to_rotmat_def
        rotation_matrix_to_angle_axis_def batch_rodrigues_def)
next
  case (Cons R Rs)
  then obtain qs aas where IH:
    "rotation_matrix_to_quaternion Rs = map Inr qs" "quat_to_rotmat qs = map Inr Rs"
    "rotation_matrix_to_angle_axis Rs = map Inr aas"
    "list_all2
       (\<lambda>(R, aa) r.
          if aa = (- (1 / 10 ^ 8), - (1 / 10 ^ 8), - (1 / 10 ^ 8)) then r = Inl NonFinite
          else (\<exists>R'. r = Inr R' \<and> mat_close (1 / 10 ^ 4) R' R))
       (zip Rs aas) (batch_rodrigues aas)"
    by auto
  from Cons.prems have rot: "is_rotation R" by simp
  from r2q_rotation [OF rot] obtain q
    where q: "rotation_matrix_to_quaternion_item (1 / 1000000) R = Inr q"
      "quat_to_rotmat_item q = Inr R"
    by blast
  from aa_round_trip_item [OF rot] obtain aa
    where aa: "rotation_matrix_to_angle_axis_item R = Inr aa"
      "if aa = (- (1 / 100000000), - (1 / 100000000), - (1 / 100000000))
       then batch_rodrigues_item aa = Inl NonFinite
       else (\<exists>R'. batch_rodrigues_item aa = Inr R' \<and> mat_close (1 / 10000) R' R)"
    by blast
  have "rotation_matrix_to_quaternion (R # Rs) = map Inr (q # qs)
      \<and> quat_to_rotmat (q # qs) = map Inr (R # Rs)
      \<and> rotation_matrix_to_angle_axis (R # Rs) = map Inr (aa # aas)
      \<and> list_all2
           (\<lambda>(R, aa) r.
              if aa = (- (1 / 10 ^ 8), - (1 / 10 ^ 8), - (1 / 10 ^ 8)) then r = Inl NonFinite
              else (\<exists>R'. r = Inr R' \<and> mat_close (1 / 10 ^ 4) R' R))
           (zip (R # Rs) (aa # aas)) (batch_rodrigues (aa # aas))"
    using IH q aa
    by (simp add: rotation_matrix_to_quaternion_def quat_to_rotmat_def
        rotation_matrix_to_angle_axis_def batch_rodrigues_def split: if_splits)
  then show ?case by blast
qed

theorem rotation_round_trips_witness:
  "is_rotation eye3 \<and> is_rotation [[0, - 1, 0], [1, 0, 0], [0, 0, 1]]
   \<and> (\<exists>qs aas.
        rotation_matrix_to_quaternion [eye3, [[0, - 1, 0], [1, 0, 0], [0, 0, 1]]] = map Inr qs
      \<and> quat_to_rotmat qs = map Inr [eye3, [[0, - 1, 0], [1, 0, 0], [0, 0, 1]]]
      \<and> rotation_matrix_to_angle_axis [eye3, [[0, - 1, 0], [1, 0, 0], [0, 0, 1]]] = map Inr aas
      \<and> list_all2
           (\<lambda>(R, aa) r.
              if aa = (- (1 / 10 ^ 8), - (1 / 10 ^ 8), - (1 / 10 ^ 8)) then r = Inl NonFinite
              else (\<exists>R'. r = Inr R' \<and> mat_close (1 / 10 ^ 4) R' R))
           (zip [eye3, [[0, - 1, 0], [1, 0, 0], [0, 0, 1]]] aas) (batch_rodrigues aas))
   \<and> rotation_matrix_to_quaternion [eye3] = [Inr (1, 0, 0, 0)]
   \<and> quat_to_rotmat [(1, 0, 0, 0)] = [Inr eye3]
   \<and> rotation_matrix_to_angle_axis [eye3] = [Inr (0, 0, 0)]
   \<and> batch_rodrigues [(0, 0, 0)] = [Inr eye3]"
proof -
  have r1: "is_rotation eye3"
    by (simp add: eye3_def is_rotation_33)
  have r2: "is_rotation [[0, - 1, 0], [1, 0, 0], [0, 0, 1]]"
    by (simp add: is_rotation_33)
  have h: "\<forall>R \<in> set [eye3, [[0, - 1, 0], [1, 0, 0], [0, 0, 1]]]. is_rotation R"
    using r1 r2 by simp
  have e1: "rotation_matrix_to_quaternion [eye3] = [Inr (1, 0, 0, 0)]"
    by (simp add: rotation_matrix_to_quaternion_def eye3_def r2q_33 select_quat_def
        qscale_def qdiv_def)
  have e2: "quat_to_rotmat [(1, 0, 0, 0)] = [Inr eye3]"
    by (simp add: quat_to_rotmat_def quat_real_axis)
  have e3: "rotation_matrix_to_angle_axis [eye3] = [Inr (0, 0, 0)]"
    by (simp add: rotation_matrix_to_angle_axis_def r2aa_eye3)
  have e4: "batch_rodrigues [(0, 0, 0)] = [Inr eye3]"
    by (simp add: batch_rodrigues_def batch_rodrigues_item_zero)
  from rotation_round_trips [OF h] r1 r2 e1 e2 e3 e4 show ?thesis
    by blast
qed

text \<open>
  The claim as stated fails in exact arithmetic. For the half turn about the z axis the
  axis-angle vector is \<open>(0, 0, \<pi>)\<close>, and \<^verbatim>\<open>batch_rodrigues\<close> does not give the matrix back.
  For the rotation by \<open>sqrt 3 * 1e-8\<close> about \<open>(-1, -1, -1)\<close> the axis-angle vector is
  \<open>(-1e-8, -1e-8, -1e-8)\<close>, and \<^verbatim>\<open>batch_rodrigues\<close> divides by zero.
\<close>

theorem rotation_round_trips_counterexample:
  "is_rotation [[- 1, 0, 0], [0, - 1, 0], [0, 0, 1]]
   \<and> rotation_matrix_to_angle_axis [[[- 1, 0, 0], [0, - 1, 0], [0, 0, 1]]] = [Inr (0, 0, pi)]
   \<and> batch_rodrigues [(0, 0, pi)] \<noteq> [Inr [[- 1, 0, 0], [0, - 1, 0], [0, 0, 1]]]
   \<and> is_rotation (rotation_about (- 1, - 1, - 1) (sqrt 3 / 10 ^ 8))
   \<and> rotation_matrix_to_angle_axis [rotation_about (- 1, - 1, - 1) (sqrt 3 / 10 ^ 8)]
       = [Inr (- (1 / 10 ^ 8), - (1 / 10 ^ 8), - (1 / 10 ^ 8))]
   \<and> batch_rodrigues [(- (1 / 10 ^ 8), - (1 / 10 ^ 8), - (1 / 10 ^ 8))] = [Inl NonFinite]"
proof -
  have "norm3 (- 1, - 1, - 1) \<noteq> 0"
    by (simp add: norm3_def)
  then have "is_rotation (rotation_about (- 1, - 1, - 1) (sqrt 3 / 100000000))"
    by (rule r2q_rotation_about)
  then show ?thesis
    using rodrigues_half_turn_inexact
    by (simp add: is_rotation_33 rotation_matrix_to_angle_axis_def r2aa_half_turn
        batch_rodrigues_def r2aa_degenerate rodrigues_degenerate)
qed

section \<open>The twist of a pure rotation\<close>

lemma twist_quaternion_axis:
  fixes x y z :: real
  assumes u: "x\<^sup>2 + y\<^sup>2 + z\<^sup>2 = 1"
  shows "twist_quaternion (W, S * x, S * y, S * z) (l * x, l * y, l * z) =
           qdiv (W, l\<^sup>2 * S * x, l\<^sup>2 * S * y, l\<^sup>2 * S * z)
             (norm4 (W, l\<^sup>2 * S * x, l\<^sup>2 * S * y, l\<^sup>2 * S * z) + 1 / 1000000000)"
proof -
  have "l * x * (S * x) + l * y * (S * y) + l * z * (S * z) = l * S * (x\<^sup>2 + y\<^sup>2 + z\<^sup>2)"
    by (simp add: power2_eq_square algebra_simps)
  then have d: "dot3 (l * x, l * y, l * z) (S * x, S * y, S * z) = l * S"
    by (simp add: dot3_def u)
  have p: "l * S * (l * t) = l\<^sup>2 * S * t" for t
    by (simp add: power2_eq_square)
  show ?thesis
    by (simp add: twist_quaternion_def d vscale_def Let_def p)
qed

lemma twist_pure_item:
  fixes a0 a1 a2 \<theta> :: real
  assumes r1: "1 \<le> norm3 (a0, a1, a2)" and sum: "sum3 (a0, a1, a2) \<noteq> 0"
    and \<theta>: "- pi < \<theta>" "\<theta> < pi"
  shows "\<exists>R' \<phi>. compute_twist_rotation_item (rotation_about (a0, a1, a2) \<theta>) (a0, a1, a2)
                   = Inr (Inr R', Inr \<phi>)
           \<and> mat_close (1 / 1000000) R' (rotation_about (a0, a1, a2) \<theta>)
           \<and> \<bar>\<phi> - \<theta>\<bar> \<le> 1 / 1000000"
proof -
  define r where "r = norm3 (a0, a1, a2)"
  define \<delta> :: real where "\<delta> = 1 / 1000000000"
  define l where "l = r / (r + \<delta>)"
  define x y z where "x = a0 / r" and "y = a1 / r" and "z = a2 / r"
  define c s where "c = cos (\<theta> / 2)" and "s = sin (\<theta> / 2)"
  define R where "R = rotation_about (a0, a1, a2) \<theta>"
  define V where "V = l\<^sup>2 * s"
  have r: "1 \<le> r" using r1 by (simp add: r_def)
  then have r0: "r \<noteq> 0" and nz: "norm3 (a0, a1, a2) \<noteq> 0"
    by (simp_all add: r_def)
  have \<delta>: "0 < \<delta>" "\<delta> \<le> 1" by (simp_all add: \<delta>_def)
  have rd: "0 < r + \<delta>" using r \<delta> by linarith
  have l0: "0 < l" using r rd by (simp add: l_def)
  have l1: "l \<le> 1" using r \<delta> rd by (simp add: l_def)
  have lh: "1 / 2 \<le> l" using r \<delta> rd by (simp add: l_def field_simps)
  have "1 - l = \<delta> / (r + \<delta>)"
    using rd by (simp add: l_def field_simps)
  also have "\<dots> \<le> \<delta> / 1"
    using r \<delta> by (intro divide_left_mono) simp_all
  finally have ld: "1 - l \<le> \<delta>" by simp
  have "1 - l\<^sup>2 = (1 - l) * (1 + l)"
    by (simp add: power2_eq_square algebra_simps)
  also have "\<dots> \<le> \<delta> * 2"
    using ld l0 l1 by (intro mult_mono) simp_all
  finally have l2d: "1 - l\<^sup>2 \<le> 2 * \<delta>" by simp
  have l2: "0 \<le> 1 - l\<^sup>2"
    using l0 l1 by (simp add: power_le_one)
  have u: "x\<^sup>2 + y\<^sup>2 + z\<^sup>2 = 1"
    unfolding x_def y_def z_def r_def by (rule unit_axis [OF nz])
  have c0: "0 < c"
    unfolding c_def using \<theta> by (intro cos_gt_zero_pi) simp_all
  have cs: "c\<^sup>2 + s\<^sup>2 = 1"
    by (simp add: c_def s_def)
  have unit0: "c\<^sup>2 + (s * x)\<^sup>2 + (s * y)\<^sup>2 + (s * z)\<^sup>2 = 1"
    using u cs by algebra
  have Q0: "quat_to_rotmat_item (c, s * x, s * y, s * z) = Inr R"
    unfolding c_def s_def x_def y_def z_def r_def R_def by (rule rotation_about_quat [OF nz])
  from r2q_rotation_about [OF nz, of \<theta>] obtain \<sigma> :: real
    where \<sigma>: "\<sigma> = 1 \<or> \<sigma> = - 1"
      and q\<sigma>: "rotation_matrix_to_quaternion_item (1 / 1000000) R
               = Inr (\<sigma> * c, \<sigma> * s * x, \<sigma> * s * y, \<sigma> * s * z)"
    unfolding c_def s_def x_def y_def z_def r_def R_def by blast
  define q where "q = (\<sigma> * c, \<sigma> * s * x, \<sigma> * s * y, \<sigma> * s * z)"
  note q = q\<sigma> [folded q_def]
  have \<sigma>0: "\<sigma> \<noteq> 0" using \<sigma> by auto
  have ta: "vdiv (a0, a1, a2) (norm3 (a0, a1, a2) + 1 / 1000000000) = (l * x, l * y, l * z)"
    using r0 rd
    by (simp add: vdiv_def r_def [symmetric] \<delta>_def [symmetric] l_def x_def y_def z_def)
  define n where "n = norm4 (\<sigma> * c, l\<^sup>2 * (\<sigma> * s) * x, l\<^sup>2 * (\<sigma> * s) * y, l\<^sup>2 * (\<sigma> * s) * z)"
  have n0: "0 \<le> n"
    by (simp add: n_def norm4_def)
  then have nd: "0 < n + \<delta>" using \<delta> by linarith
  define k where "k = \<sigma> / (n + \<delta>)"
  have k0: "k \<noteq> 0"
    using \<sigma>0 nd by (simp add: k_def)
  have tq: "twist_quaternion q (l * x, l * y, l * z) = (k * c, k * V * x, k * V * y, k * V * z)"
    unfolding q_def twist_quaternion_axis [OF u]
    by (simp add: n_def [symmetric] \<delta>_def [symmetric] qdiv_def k_def V_def)
  have pos: "0 < c\<^sup>2 + (V * x)\<^sup>2 + (V * y)\<^sup>2 + (V * z)\<^sup>2"
    using c0 by (intro add_pos_nonneg) simp_all
  have "quat_to_rotmat_item (k * c, k * (V * x), k * (V * y), k * (V * z))
      = quat_to_rotmat_item (c, V * x, V * y, V * z)"
    using k0 pos by (rule q2r_scale)
  then have Qtq: "quat_to_rotmat_item (k * c, k * V * x, k * V * y, k * V * z)
      = quat_to_rotmat_item (c, V * x, V * y, V * z)"
    by (simp add: mult.assoc)
  have sb: "\<bar>s * t\<bar> \<le> 1" if "t\<^sup>2 \<le> 1" for t
  proof -
    have "0 \<le> c\<^sup>2" by simp
    with cs have "s\<^sup>2 \<le> 1" by linarith
    then have "\<bar>s\<bar> \<le> 1" by (simp add: abs_square_le_1)
    moreover from that have "\<bar>t\<bar> \<le> 1" by (simp add: abs_square_le_1)
    ultimately have "\<bar>s\<bar> * \<bar>t\<bar> \<le> 1 * 1"
      by (intro mult_mono) simp_all
    then show ?thesis by (simp add: abs_mult)
  qed
  have ub: "x\<^sup>2 \<le> 1" "y\<^sup>2 \<le> 1" "z\<^sup>2 \<le> 1"
  proof -
    have "0 \<le> x\<^sup>2" "0 \<le> y\<^sup>2" "0 \<le> z\<^sup>2" by simp_all
    with u show "x\<^sup>2 \<le> 1" "y\<^sup>2 \<le> 1" "z\<^sup>2 \<le> 1" by linarith+
  qed
  have dv: "\<bar>V * t - s * t\<bar> \<le> 1 - l\<^sup>2" if "t\<^sup>2 \<le> 1" for t
  proof -
    have "V * t - s * t = - ((1 - l\<^sup>2) * (s * t))"
      by (simp add: V_def algebra_simps)
    then have "\<bar>V * t - s * t\<bar> = (1 - l\<^sup>2) * \<bar>s * t\<bar>"
      using l2 by (simp add: abs_mult)
    also have "\<dots> \<le> (1 - l\<^sup>2) * 1"
      using sb [OF that] l2 by (intro mult_left_mono)
    finally show ?thesis by simp
  qed
  have \<eta>: "1 - l\<^sup>2 \<le> 1 / 48"
    using l2d by (simp add: \<delta>_def)
  from q2r_perturb [OF unit0 _ dv [OF ub(1)] dv [OF ub(2)] dv [OF ub(3)] \<eta>, of c] l2
  obtain M M' where M: "quat_to_rotmat_item (c, s * x, s * y, s * z) = Inr M"
    and M': "quat_to_rotmat_item (c, V * x, V * y, V * z) = Inr M'"
    and cl: "mat_close (48 * (1 - l\<^sup>2)) M' M"
    by auto
  have MR: "M = R" using M Q0 by simp
  have "48 * (1 - l\<^sup>2) \<le> 1 / 1000000"
    using l2d by (simp add: \<delta>_def)
  with cl have close: "mat_close (1 / 1000000) M' R"
    unfolding MR by (rule mat_close_mono)
  have tr: "quaternion_to_rotation_matrix_item (k * c, k * V * x, k * V * y, k * V * z) = Inr M'"
    by (simp add: quaternion_to_rotation_matrix_item_eq Qtq M')
  define B where "B = arctan (l\<^sup>2 * tan (\<theta> / 2))"
  have kc: "k * c \<noteq> 0" using k0 c0 by simp
  have "k * V / (k * c) = l\<^sup>2 * tan (\<theta> / 2)"
    using k0 by (simp add: V_def tan_def c_def s_def)
  then have aa: "quaternion_to_angle_axis_item (k * c, k * V * x, k * V * y, k * V * z)
      = (2 * B * x, 2 * B * y, 2 * B * z)"
    using q2aa_axis [OF u kc, of "k * V"] by (simp add: B_def)
  have sx: "x + y + z \<noteq> 0"
    using sum r0 by (simp add: sum3_def x_def y_def z_def add_divide_distrib [symmetric])
  have s1: "sum3 (l * x, l * y, l * z) = l * (x + y + z)"
    by (simp add: sum3_def algebra_simps)
  have s2: "sum3 (2 * B * x, 2 * B * y, 2 * B * z) = 2 * B * (x + y + z)"
    by (simp add: sum3_def algebra_simps)
  have s1nz: "l * (x + y + z) \<noteq> 0"
    using l0 sx by simp
  have ang: "2 * B * (x + y + z) / (l * (x + y + z)) = 2 * B / l"
    using sx by simp
  have res: "compute_twist_rotation_item R (a0, a1, a2) = Inr (Inr M', Inr (2 * B / l))"
    using s1nz
    by (simp add: compute_twist_rotation_item_def q ta tq tr aa s1 s2 ang Let_def)
  have A: "arctan (tan (\<theta> / 2)) = \<theta> / 2"
    using \<theta> by (intro arctan_tan) simp_all
  have "\<bar>arctan (tan (\<theta> / 2)) - B\<bar> \<le> (1 - l\<^sup>2) / (2 * l)"
    unfolding B_def using l0 l1 by (rule arctan_shrink)
  also have "\<dots> \<le> 2 * \<delta> / (2 * (1 / 2))"
    using l2d l2 lh l0 \<delta> by (intro frac_le) simp_all
  finally have AB: "\<bar>\<theta> / 2 - B\<bar> \<le> 2 * \<delta>"
    by (simp add: A)
  have th: "\<bar>\<theta>\<bar> \<le> 4"
    using \<theta> pi_less_4 by (simp add: abs_le_iff)
  have "2 * B / l - \<theta> = (2 * (B - \<theta> / 2) + \<theta> * (1 - l)) / l"
    using l0 by (simp add: field_simps)
  then have "\<bar>2 * B / l - \<theta>\<bar> = \<bar>2 * (B - \<theta> / 2) + \<theta> * (1 - l)\<bar> / l"
    using l0 by simp
  also have "\<dots> \<le> (2 * (2 * \<delta>) + 4 * \<delta>) / l"
  proof -
    have "\<bar>2 * (B - \<theta> / 2) + \<theta> * (1 - l)\<bar> \<le> \<bar>2 * (B - \<theta> / 2)\<bar> + \<bar>\<theta> * (1 - l)\<bar>"
      by (rule abs_triangle_ineq)
    moreover have "\<bar>2 * (B - \<theta> / 2)\<bar> \<le> 2 * (2 * \<delta>)"
      using AB by (simp add: abs_minus_commute)
    moreover have "\<bar>\<theta> * (1 - l)\<bar> \<le> 4 * \<delta>"
    proof -
      have "\<bar>\<theta>\<bar> * \<bar>1 - l\<bar> \<le> 4 * \<delta>"
        using th ld l1 by (intro mult_mono) simp_all
      then show ?thesis by (simp add: abs_mult)
    qed
    ultimately have "\<bar>2 * (B - \<theta> / 2) + \<theta> * (1 - l)\<bar> \<le> 2 * (2 * \<delta>) + 4 * \<delta>"
      by linarith
    then show ?thesis
      using l0 by (simp add: divide_right_mono)
  qed
  also have "\<dots> \<le> (2 * (2 * \<delta>) + 4 * \<delta>) / (1 / 2)"
    using lh \<delta> by (intro divide_left_mono) simp_all
  also have "\<dots> \<le> 1 / 1000000"
    by (simp add: \<delta>_def)
  finally have "\<bar>2 * B / l - \<theta>\<bar> \<le> 1 / 1000000" .
  with res close show ?thesis
    unfolding R_def by blast
qed

lemma sum3_vdiv: "sum3 (vdiv a d) = sum3 a / d"
  by (cases a) (simp add: sum3_def vdiv_def add_divide_distrib)

lemma twist_zero_sum:
  assumes "is_rotation R" and "sum3 a = 0"
  shows "\<exists>tr. compute_twist_rotation_item R a = Inr (tr, Inl NonFinite)"
proof -
  from r2q_rotation [OF assms(1)] obtain q
    where "rotation_matrix_to_quaternion_item (1 / 1000000) R = Inr q"
    by blast
  then show ?thesis
    by (simp add: compute_twist_rotation_item_def Let_def sum3_vdiv assms(2))
qed

lemma rotation_about_half_turn:
  "rotation_about (1, 1, - 2) pi
     = [[- 2 / 3, 1 / 3, - 2 / 3], [1 / 3, - 2 / 3, - 2 / 3], [- 2 / 3, - 2 / 3, 1 / 3]]"
proof -
  have n: "norm3 (1, 1, - 2) = sqrt 6"
    by (simp add: norm3_def)
  have s: "a / sqrt 6 * (b / sqrt 6) = a * b / 6" for a b :: real
    by simp
  show ?thesis
    by (simp add: rotation_about_def vdiv_def n s Let_def)
qed

lemma rotation_about_third_turn:
  "rotation_about (1, 1, 1) (2 * pi / 3) = [[0, 0, 1], [1, 0, 0], [0, 1, 0]]"
proof -
  have n: "norm3 (1, 1, 1) = sqrt 3"
    by (simp add: norm3_def)
  have s: "a / sqrt 3 * (b / sqrt 3) = a * b / 3" for a b :: real
    by simp
  have t: "sqrt 3 * (sqrt 3 * b) = 3 * b" for b :: real
    by (simp add: mult.assoc [symmetric])
  show ?thesis
    by (simp add: rotation_about_def vdiv_def n s Let_def cos_120 sin_120 t)
qed

lemma twist_third_turn_inexact:
  "\<exists>M \<phi>. compute_twist_rotation_item [[0, 0, 1], [1, 0, 0], [0, 1, 0]] (1, 1, 1) = Inr (Inr M, \<phi>)
          \<and> M \<noteq> [[0, 0, 1], [1, 0, 0], [0, 1, 0]]"
proof -
  define \<delta> :: real where "\<delta> = 1 / 1000000000"
  define e where "e = 1 / (sqrt 3 + \<delta>)"
  define p where "p = 3 * e\<^sup>2 / 2"
  define n where "n = norm4 (1 / 2, p, p, p)"
  have \<delta>: "0 < \<delta>" by (simp add: \<delta>_def)
  have d: "0 < sqrt 3 + \<delta>"
    using \<delta> by (simp add: add_pos_pos)
  have e0: "0 < e"
    using d by (simp add: e_def)
  have "3 < (sqrt 3 + \<delta>)\<^sup>2"
    using \<delta> by (simp add: power2_eq_square algebra_simps add_pos_pos)
  then have "e\<^sup>2 < 1 / 3"
    using d by (simp add: e_def power_divide field_simps)
  then have p1: "p < 1 / 2"
    by (simp add: p_def)
  have p0: "0 < p"
    using e0 by (simp add: p_def)
  have "p * p < 1 / 2 * (1 / 2)"
    using p0 p1 by (intro mult_strict_mono) simp_all
  then have pp: "p\<^sup>2 < 1 / 4"
    by (simp add: power2_eq_square)
  have q: "rotation_matrix_to_quaternion_item (1 / 1000000) [[0, 0, 1], [1, 0, 0], [0, 1, 0]]
      = Inr (1 / 2, 1 / 2, 1 / 2, 1 / 2)"
    by (simp add: r2q_33 select_quat_def qscale_def qdiv_def)
  have n1: "norm3 (1, 1, 1) = sqrt 3"
    by (simp add: norm3_def)
  have ta: "vdiv (1, 1, 1) (norm3 (1, 1, 1) + 1 / 1000000000) = (e, e, e)"
    by (simp add: vdiv_def n1 e_def \<delta>_def)
  have pe: "e * e * 3 / 2 = p"
    by (simp add: p_def power2_eq_square)
  have n0: "0 \<le> n"
    by (simp add: n_def norm4_def)
  then have nd: "0 < n + \<delta>"
    using \<delta> by linarith
  define k where "k = 1 / (n + \<delta>)"
  have k0: "k \<noteq> 0"
    using nd by (simp add: k_def)
  have dt: "dot3 (e, e, e) (1 / 2, 1 / 2, 1 / 2) = 3 * e / 2"
    by (simp add: dot3_def)
  have vs: "vscale (3 * e / 2) (e, e, e) = (p, p, p)"
    by (simp add: vscale_def p_def power2_eq_square)
  have "twist_quaternion (1 / 2, 1 / 2, 1 / 2, 1 / 2) (e, e, e)
      = qdiv (1 / 2, p, p, p) (n + \<delta>)"
    unfolding twist_quaternion_def n_def \<delta>_def by (simp only: prod.case dt vs Let_def) simp
  then have tq: "twist_quaternion (1 / 2, 1 / 2, 1 / 2, 1 / 2) (e, e, e)
      = (k * (1 / 2), k * p, k * p, k * p)"
    by (simp add: qdiv_def k_def)
  have pos: "0 < (1 / 2)\<^sup>2 + p\<^sup>2 + p\<^sup>2 + p\<^sup>2"
    by (intro add_pos_nonneg) simp_all
  have Q: "quat_to_rotmat_item (k * (1 / 2), k * p, k * p, k * p)
      = quat_to_rotmat_item (1 / 2, p, p, p)"
    using k0 pos by (rule q2r_scale)
  obtain M where M: "quat_to_rotmat_item (1 / 2, p, p, p) = Inr M"
    and M00: "ent M 0 0 = ((1 / 2)\<^sup>2 + p\<^sup>2 - p\<^sup>2 - p\<^sup>2) / ((1 / 2)\<^sup>2 + p\<^sup>2 + p\<^sup>2 + p\<^sup>2)"
    unfolding q2r_poly [OF refl pos] by (simp add: ent_def)
  have "0 < (1 / 2)\<^sup>2 + p\<^sup>2 - p\<^sup>2 - p\<^sup>2"
    using pp by (simp add: power2_eq_square)
  then have "0 < ent M 0 0"
    unfolding M00 using pos by (rule divide_pos_pos)
  then have ne: "M \<noteq> [[0, 0, 1], [1, 0, 0], [0, 1, 0]]"
    by (auto simp: ent_def)
  have "quaternion_to_rotation_matrix_item (k * (1 / 2), k * p, k * p, k * p) = Inr M"
    by (simp only: quaternion_to_rotation_matrix_item_eq Q M)
  then have "\<exists>\<phi>. compute_twist_rotation_item [[0, 0, 1], [1, 0, 0], [0, 1, 0]] (1, 1, 1)
      = Inr (Inr M, \<phi>)"
    by (simp add: compute_twist_rotation_item_def q ta tq Let_def)
  with ne show ?thesis by blast
qed

lemma rotation_about_zero:
  "rotation_about a 0 = eye3"
  by (cases a) (simp add: rotation_about_def vdiv_def eye3_def)

lemma twist_identity:
  "compute_twist_rotation_item eye3 (2, 2, 1) = Inr (Inr eye3, Inr 0)"
proof -
  have q: "rotation_matrix_to_quaternion_item (1 / 1000000) eye3 = Inr (1, 0, 0, 0)"
    by (simp add: eye3_def r2q_33 select_quat_def qscale_def qdiv_def)
  have n: "norm3 (2, 2, 1) = 3"
    by (simp add: norm3_def)
  have tq: "twist_quaternion (1, 0, 0, 0) v = (1000000000 / 1000000001, 0, 0, 0)" for v
    by (cases v) (simp add: twist_quaternion_def dot3_def vscale_def norm4_def qdiv_def)
  have Q: "quaternion_to_rotation_matrix_item (1000000000 / 1000000001, 0, 0, 0) = Inr eye3"
    by (simp add: quaternion_to_rotation_matrix_item_eq quat_real_axis)
  show ?thesis
    by (simp add: compute_twist_rotation_item_def q tq Q q2aa_real Let_def n vdiv_def sum3_def)
qed

text \<open>
  C8 (as amended). For every rotation matrix that is itself a pure rotation about an axis
  \<open>a\<close> by an angle \<open>\<theta>\<close> with \<open>-\<pi> < \<theta> < \<pi>\<close>, where \<open>a\<close> has norm at least 1 and components
  that do not sum to zero, \<^verbatim>\<open>compute_twist_rotation\<close> returns a finite twist angle within
  \<open>1e-6\<close> of \<open>\<theta>\<close> (the sum of the twist axis-angle vector divided by the sum of the
  normalized axis) and a twist rotation whose entries are within \<open>1e-6\<close> of those of the
  input rotation.
\<close>

theorem compute_twist_rotation_pure_rotation:
  assumes "\<forall>(a, \<theta>) \<in> set batch. 1 \<le> norm3 a \<and> sum3 a \<noteq> 0 \<and> - pi < \<theta> \<and> \<theta> < pi"
  shows "list_all2
           (\<lambda>(a, \<theta>) r. \<exists>R' \<phi>. r = Inr (Inr R', Inr \<phi>)
                \<and> mat_close (1 / 10 ^ 6) R' (rotation_about a \<theta>) \<and> \<bar>\<phi> - \<theta>\<bar> \<le> 1 / 10 ^ 6)
           batch
           (compute_twist_rotation (map (\<lambda>(a, \<theta>). (rotation_about a \<theta>, a)) batch))"
  using assms
proof (induction batch)
  case Nil
  show ?case
    by (simp add: compute_twist_rotation_def)
next
  case (Cons b batch)
  obtain a \<theta> where b: "b = (a, \<theta>)"
    by (cases b)
  obtain a0 a1 a2 where a: "a = (a0, a1, a2)"
    by (cases a)
  from Cons.prems have h: "1 \<le> norm3 (a0, a1, a2)" "sum3 (a0, a1, a2) \<noteq> 0" "- pi < \<theta>" "\<theta> < pi"
    by (simp_all add: b a)
  from twist_pure_item [OF h] obtain R' \<phi>
    where "compute_twist_rotation_item (rotation_about a \<theta>) a = Inr (Inr R', Inr \<phi>)"
      and "mat_close (1 / 1000000) R' (rotation_about a \<theta>)" and "\<bar>\<phi> - \<theta>\<bar> \<le> 1 / 1000000"
    unfolding a by blast
  moreover from Cons have "list_all2
           (\<lambda>(a, \<theta>) r. \<exists>R' \<phi>. r = Inr (Inr R', Inr \<phi>)
                \<and> mat_close (1 / 10 ^ 6) R' (rotation_about a \<theta>) \<and> \<bar>\<phi> - \<theta>\<bar> \<le> 1 / 10 ^ 6)
           batch
           (compute_twist_rotation (map (\<lambda>(a, \<theta>). (rotation_about a \<theta>, a)) batch))"
    by simp
  ultimately show ?case
    by (simp add: compute_twist_rotation_def b)
qed

theorem compute_twist_rotation_pure_rotation_witness:
  "(1 \<le> norm3 (1, 1, 1) \<and> sum3 (1, 1, 1) \<noteq> 0 \<and> - pi < pi / 2 \<and> pi / 2 < pi)
   \<and> (1 \<le> norm3 (2, 2, 1) \<and> sum3 (2, 2, 1) \<noteq> 0 \<and> - pi < 0 \<and> 0 < pi)
   \<and> list_all2
        (\<lambda>(a, \<theta>) r. \<exists>R' \<phi>. r = Inr (Inr R', Inr \<phi>)
             \<and> mat_close (1 / 10 ^ 6) R' (rotation_about a \<theta>) \<and> \<bar>\<phi> - \<theta>\<bar> \<le> 1 / 10 ^ 6)
        [((1, 1, 1), pi / 2), ((2, 2, 1), 0)]
        (compute_twist_rotation
           [(rotation_about (1, 1, 1) (pi / 2), (1, 1, 1)), (rotation_about (2, 2, 1) 0, (2, 2, 1))])
   \<and> rotation_about (2, 2, 1) 0 = eye3
   \<and> compute_twist_rotation [(eye3, (2, 2, 1))] = [Inr (Inr eye3, Inr 0)]"
proof -
  have h1: "1 \<le> norm3 (1, 1, 1) \<and> sum3 (1, 1, 1) \<noteq> 0 \<and> - pi < pi / 2 \<and> pi / 2 < pi"
    using pi_gt_zero by (simp add: norm3_def sum3_def)
  have h2: "1 \<le> norm3 (2, 2, 1) \<and> sum3 (2, 2, 1) \<noteq> 0 \<and> - pi < 0 \<and> 0 < pi"
    by (simp add: norm3_def sum3_def)
  have h: "\<forall>(a, \<theta>) \<in> set [((1, 1, 1), pi / 2), ((2, 2, 1), 0 :: real)].
      1 \<le> norm3 a \<and> sum3 a \<noteq> 0 \<and> - pi < \<theta> \<and> \<theta> < pi"
    using h1 h2 by simp
  have e: "compute_twist_rotation [(eye3, (2, 2, 1))] = [Inr (Inr eye3, Inr 0)]"
    by (simp add: compute_twist_rotation_def twist_identity)
  from compute_twist_rotation_pure_rotation [OF h] h1 h2 e show ?thesis
    by (simp add: rotation_about_zero)
qed

text \<open>
  The claim as stated fails. The axis \<open>(1, 1, -2)\<close> has no zero component, but its
  components sum to zero: for the half turn about it the twist angle is a division by
  zero. And for the third of a turn about \<open>(1, 1, 1)\<close> the twist rotation is not the input
  rotation, because of the \<open>1e-9\<close> added to the norm of the axis.
\<close>

theorem compute_twist_rotation_counterexample:
  "rotation_about (1, 1, - 2) pi
     = [[- 2 / 3, 1 / 3, - 2 / 3], [1 / 3, - 2 / 3, - 2 / 3], [- 2 / 3, - 2 / 3, 1 / 3]]
   \<and> (\<exists>tr. compute_twist_rotation
              [([[- 2 / 3, 1 / 3, - 2 / 3], [1 / 3, - 2 / 3, - 2 / 3], [- 2 / 3, - 2 / 3, 1 / 3]],
                (1, 1, - 2))]
            = [Inr (tr, Inl NonFinite)])
   \<and> rotation_about (1, 1, 1) (2 * pi / 3) = [[0, 0, 1], [1, 0, 0], [0, 1, 0]]
   \<and> (\<exists>M \<phi>. compute_twist_rotation [([[0, 0, 1], [1, 0, 0], [0, 1, 0]], (1, 1, 1))]
              = [Inr (Inr M, \<phi>)]
          \<and> M \<noteq> [[0, 0, 1], [1, 0, 0], [0, 1, 0]])"
proof -
  have "is_rotation [[- 2 / 3, 1 / 3, - 2 / 3], [1 / 3, - 2 / 3, - 2 / 3], [- 2 / 3, - 2 / 3, 1 / 3]]"
    by (simp add: is_rotation_33)
  from twist_zero_sum [OF this, of "(1, 1, - 2)"]
  have "\<exists>tr. compute_twist_rotation
              [([[- 2 / 3, 1 / 3, - 2 / 3], [1 / 3, - 2 / 3, - 2 / 3], [- 2 / 3, - 2 / 3, 1 / 3]],
                (1, 1, - 2))]
            = [Inr (tr, Inl NonFinite)]"
    by (simp add: compute_twist_rotation_def sum3_def)
  moreover from twist_third_turn_inexact
  have "\<exists>M \<phi>. compute_twist_rotation [([[0, 0, 1], [1, 0, 0], [0, 1, 0]], (1, 1, 1))]
              = [Inr (Inr M, \<phi>)]
          \<and> M \<noteq> [[0, 0, 1], [1, 0, 0], [0, 1, 0]]"
    by (simp add: compute_twist_rotation_def)
  ultimately show ?thesis
    using rotation_about_half_turn rotation_about_third_turn by blast
qed

end
